(* ===== verification/Go_Prelude.thy ===== *)
theory Go_Prelude
  imports Main "HOL-Library.Word" "HOL-Library.AList" "HOL-Library.Multiset"
begin

text \<open>
  What the packages of the repository use of Go and of its standard library, shared by all
  components: unsigned 32-bit flags and the operations of \<^verbatim>\<open>sync/atomic\<close> on them, error values
  with \<^verbatim>\<open>fmt.Errorf("%w")\<close>, \<^verbatim>\<open>errors.Is\<close> and \<^verbatim>\<open>errors.Join\<close>, contexts, the functions of
  \<^verbatim>\<open>strings\<close> that the code calls, decimal printing, and maps with the unspecified order of
  \<^verbatim>\<open>range\<close>.  The named theorem collections carry the component proofs.
\<close>

named_theorems go_defs \<open>definitions of the library operations, for unfolding\<close>
named_theorems map_laws \<open>equations for lookups and sizes after a map operation\<close>
named_theorems frame_laws \<open>fields an operation leaves alone\<close>

section \<open>Flags and atomic operations\<close>

type_synonym uint32 = "32 word"
type_synonym uint64 = "64 word"

text \<open>
  Durations (\<^verbatim>\<open>time.Duration\<close>, nanoseconds) and instants (\<^verbatim>\<open>time.Time\<close>, nanoseconds since
  January 1 of year 1 UTC, whose zero value is the one \<^verbatim>\<open>IsZero\<close> tests for) are integers: the
  code only compares them, adds a duration to an instant and formats them.
\<close>

type_synonym duration = int
type_synonym instant = int

definition Second :: duration where
  "Second = 1000000000"

definition Millisecond :: duration where
  "Millisecond = 1000000"

definition IsZero :: "instant \<Rightarrow> bool" where
  "IsZero t \<longleftrightarrow> t = 0"

definition flag :: "bool \<Rightarrow> uint32" where
  "flag b = (if b then 1 else 0)"

text \<open>\<^verbatim>\<open>atomic.CompareAndSwapUint32\<close>: the new content of the cell, and whether it swapped.\<close>

definition CompareAndSwapUint32 :: "uint32 \<Rightarrow> uint32 \<Rightarrow> uint32 \<Rightarrow> uint32 \<times> bool" where
  "CompareAndSwapUint32 cell old new = (if cell = old then (new, True) else (cell, False))"

lemma flag_simps [simp]:
  "flag True = 1" "flag False = 0"
  "flag b = 1 \<longleftrightarrow> b" "flag b = 0 \<longleftrightarrow> \<not> b" "1 = flag b \<longleftrightarrow> b" "0 = flag b \<longleftrightarrow> \<not> b"
  "flag b = flag c \<longleftrightarrow> b = c"
  by (auto simp: flag_def)

lemma CompareAndSwap_hit [simp]: "CompareAndSwapUint32 old old new = (new, True)"
  by (simp add: CompareAndSwapUint32_def)

lemma CompareAndSwap_miss [simp]:
  "cell \<noteq> old \<Longrightarrow> CompareAndSwapUint32 cell old new = (cell, False)"
  by (simp add: CompareAndSwapUint32_def)

section \<open>Strings\<close>

definition newline :: string where
  "newline = [CHR 0x0A]"

definition crlf :: string where
  "crlf = [CHR 0x0D, CHR 0x0A]"

definition dquote :: string where
  "dquote = [CHR 0x22]"

definition HasPrefix :: "string \<Rightarrow> string \<Rightarrow> bool" where
  "HasPrefix s p \<longleftrightarrow> take (length p) s = p"

definition TrimPrefix :: "string \<Rightarrow> string \<Rightarrow> string" where
  "TrimPrefix s p = (if HasPrefix s p then drop (length p) s else s)"

text \<open>\<^verbatim>\<open>strings.TrimRight(s, cutset)\<close>: drops the trailing characters that occur in the cutset.\<close>

definition TrimRight :: "string \<Rightarrow> string \<Rightarrow> string" where
  "TrimRight s cutset = rev (dropWhile (\<lambda>c. c \<in> set cutset) (rev s))"

fun intersperse_concat :: "string \<Rightarrow> string list \<Rightarrow> string" where
  "intersperse_concat sep [] = []"
| "intersperse_concat sep [s] = s"
| "intersperse_concat sep (s # t # ss) = s @ sep @ intersperse_concat sep (t # ss)"

text \<open>Decimal printing, the verb \<^verbatim>\<open>%d\<close>.\<close>

definition digit_char :: "nat \<Rightarrow> char" where
  "digit_char d = char_of (48 + d)"

fun nat_decimal :: "nat \<Rightarrow> string" where
  "nat_decimal n = (if n < 10 then [digit_char n] else nat_decimal (n div 10) @ [digit_char (n mod 10)])"

declare nat_decimal.simps [simp del]

definition Itoa :: "int \<Rightarrow> string" where
  "Itoa i = (if i < 0 then ''-'' @ nat_decimal (nat (- i)) else nat_decimal (nat i))"

lemma HasPrefix_append [simp]: "HasPrefix (p @ s) p"
  by (simp add: HasPrefix_def)

lemma HasPrefix_iff: "HasPrefix s p \<longleftrightarrow> (\<exists>r. s = p @ r)"
  by (auto simp: HasPrefix_def) (metis append_take_drop_id)

lemma TrimPrefix_append [simp]: "TrimPrefix (p @ s) p = s"
  by (simp add: TrimPrefix_def)

lemma TrimPrefix_neq_iff: "TrimPrefix s p \<noteq> s \<longleftrightarrow> p \<noteq> [] \<and> HasPrefix s p"
proof -
  have "drop (length p) s \<noteq> s" if p: "p \<noteq> []" and s: "HasPrefix s p"
  proof -
    obtain r where "s = p @ r" using s by (auto simp: HasPrefix_iff)
    with p show ?thesis by simp
  qed
  then show ?thesis by (auto simp: TrimPrefix_def)
qed

lemma TrimRight_no_trailing: "TrimRight s cs \<noteq> [] \<Longrightarrow> last (TrimRight s cs) \<notin> set cs"
  unfolding TrimRight_def last_rev by (metis hd_dropWhile rev.simps(1))

lemma TrimRight_snoc [simp]: "c \<in> set cs \<Longrightarrow> TrimRight (s @ [c]) cs = TrimRight s cs"
  by (simp add: TrimRight_def)

section \<open>Errors\<close>

text \<open>
  An error is a sentinel compared by identity, an \<^verbatim>\<open>errors.New\<close> text, or an error that wraps
  others (\<^verbatim>\<open>fmt.Errorf\<close> with \<^verbatim>\<open>%w\<close> verbs, \<^verbatim>\<open>errors.Join\<close>) together with its formatted text.
\<close>

datatype sentinel = ErrHealth | Canceled | DeadlineExceeded | ErrServerClosed | EOF

datatype go_error = Sentinel sentinel | ErrorString string | WrapError string "go_error list"

fun sentinel_text :: "sentinel \<Rightarrow> string" where
  "sentinel_text ErrHealth = ''health''"
| "sentinel_text Canceled = ''context canceled''"
| "sentinel_text DeadlineExceeded = ''context deadline exceeded''"
| "sentinel_text ErrServerClosed = ''http: Server closed''"
| "sentinel_text EOF = ''EOF''"

fun error_text :: "go_error \<Rightarrow> string" where
  "error_text (Sentinel s) = sentinel_text s"
| "error_text (ErrorString m) = m"
| "error_text (WrapError m es) = m"

fun errors_Is :: "go_error \<Rightarrow> sentinel \<Rightarrow> bool" where
  "errors_Is (Sentinel s) t = (s = t)"
| "errors_Is (ErrorString m) t = False"
| "errors_Is (WrapError m es) t = list_ex (\<lambda>e. errors_Is e t) es"

definition errors_Join :: "go_error list \<Rightarrow> go_error" where
  "errors_Join es = WrapError (intersperse_concat newline (map error_text es)) es"

text \<open>\<^verbatim>\<open>fmt.Errorf("<prefix>%w", err)\<close>, the shape most of the code's wrapping has.\<close>

definition Errorf_w :: "string \<Rightarrow> go_error \<Rightarrow> go_error" where
  "Errorf_w prefix e = WrapError (prefix @ error_text e) [e]"

lemma errors_Is_Join [simp]: "errors_Is (errors_Join es) t \<longleftrightarrow> (\<exists>e\<in>set es. errors_Is e t)"
  by (auto simp: errors_Join_def list_ex_iff)

lemma Errorf_w_Is [simp]: "errors_Is (Errorf_w p e) t = errors_Is e t"
  by (simp add: Errorf_w_def)

lemma Errorf_w_text [simp]: "error_text (Errorf_w p e) = p @ error_text e"
  by (simp add: Errorf_w_def)

section \<open>Contexts\<close>

text \<open>What the code asks of a \<^verbatim>\<open>context.Context\<close>: whether \<^verbatim>\<open>Done\<close> is closed, and then its \<^verbatim>\<open>Err\<close>.\<close>

datatype ctx = CtxActive | CtxDone go_error

fun ctx_done :: "ctx \<Rightarrow> bool" where
  "ctx_done CtxActive = False"
| "ctx_done (CtxDone e) = True"

fun ctx_err :: "ctx \<Rightarrow> go_error option" where
  "ctx_err CtxActive = None"
| "ctx_err (CtxDone e) = Some e"

section \<open>Maps and range\<close>

text \<open>
  A Go map is an association list with distinct keys; a nil map is \<^const>\<open>None\<close>.  The order in
  which \<^verbatim>\<open>range\<close> visits the keys is unspecified, so every operation that ranges over a map takes
  the order as an argument: a function that permutes the keys.
\<close>

type_synonym ('k, 'v) gomap = "('k \<times> 'v) list option"

type_synonym 'k rorder = "'k list \<Rightarrow> 'k list"

definition range_order :: "'k rorder \<Rightarrow> bool" where
  "range_order ord \<longleftrightarrow> (\<forall>ks. mset (ord ks) = mset ks)"

definition gomap_entries :: "('k, 'v) gomap \<Rightarrow> ('k \<times> 'v) list" where
  "gomap_entries m = (case m of None \<Rightarrow> [] | Some d \<Rightarrow> d)"

definition gomap_get :: "('k, 'v) gomap \<Rightarrow> 'k \<Rightarrow> 'v option" where
  "gomap_get m k = map_of (gomap_entries m) k"

text \<open>\<^verbatim>\<open>if m == nil { m = make(map) }\<close> followed by \<^verbatim>\<open>m[k] = v\<close>.\<close>

definition gomap_put :: "'k \<Rightarrow> 'v \<Rightarrow> ('k, 'v) gomap \<Rightarrow> ('k, 'v) gomap" where
  "gomap_put k v m = Some (AList.update k v (gomap_entries m))"

definition gomap_wf :: "('k, 'v) gomap \<Rightarrow> bool" where
  "gomap_wf m \<longleftrightarrow> distinct (map fst (gomap_entries m))"

text \<open>The entries of a map in the order in which one \<^verbatim>\<open>range\<close> visits them.\<close>

definition range_entries :: "'k rorder \<Rightarrow> ('k \<times> 'v) list \<Rightarrow> ('k \<times> 'v) list" where
  "range_entries ord xs =
     concat (map (\<lambda>k. case map_of xs k of None \<Rightarrow> [] | Some v \<Rightarrow> [(k, v)]) (ord (map fst xs)))"

text \<open>
  \<^verbatim>\<open>if m == nil { m = make(map) }; for k := range src { m[k] = src[k] }\<close>, with the entries of
  the source in the order of the loop.
\<close>

definition gomap_absorb :: "('k \<times> 'v) list \<Rightarrow> ('k, 'v) gomap \<Rightarrow> ('k, 'v) gomap" where
  "gomap_absorb src m = Some (fold (\<lambda>(k, v) d. AList.update k v d) src (gomap_entries m))"

lemma range_orderD: "range_order ord \<Longrightarrow> mset (ord ks) = mset ks"
  by (simp add: range_order_def)

lemma range_order_set: "range_order ord \<Longrightarrow> set (ord ks) = set ks"
  using range_orderD mset_eq_setD by blast

lemma range_order_distinct: "range_order ord \<Longrightarrow> distinct (ord ks) = distinct ks"
  using range_orderD mset_eq_imp_distinct_iff by blast

lemma range_order_id [simp, intro]: "range_order id"
  by (simp add: range_order_def)

lemma range_order_rev [simp, intro]: "range_order rev"
  by (simp add: range_order_def)

lemma range_entries_id: "distinct (map fst xs) \<Longrightarrow> range_entries id xs = xs"
proof -
  assume d: "distinct (map fst xs)"
  have "concat (map (\<lambda>k. case map_of xs k of None \<Rightarrow> [] | Some v \<Rightarrow> [(k, v)]) (map fst ys)) = ys"
    if "set ys \<subseteq> set xs" for ys
    using that
  proof (induction ys)
    case (Cons y ys)
    then have "map_of xs (fst y) = Some (snd y)"
      using d by (auto intro: map_of_is_SomeI)
    with Cons show ?case by simp
  qed simp
  then show ?thesis by (simp add: range_entries_def)
qed

lemma range_entries_keys:
  assumes "range_order ord"
  shows "map fst (range_entries ord xs) = ord (map fst xs)"
proof -
  have "map fst (concat (map (\<lambda>k. case map_of xs k of None \<Rightarrow> [] | Some v \<Rightarrow> [(k, v)]) ks)) = ks"
    if "set ks \<subseteq> fst ` set xs" for ks
    using that
  proof (induction ks)
    case (Cons k ks)
    then obtain v where "map_of xs k = Some v"
      by (metis insert_subset list.simps(15) map_of_eq_None_iff not_Some_eq)
    with Cons show ?case by simp
  qed simp
  then show ?thesis
    using range_order_set [OF assms, of "map fst xs"] by (simp add: range_entries_def)
qed

lemma range_entries_set:
  assumes "range_order ord" "distinct (map fst xs)"
  shows "set (range_entries ord xs) = set xs"
proof -
  have "(k, v) \<in> set (range_entries ord xs) \<longleftrightarrow> k \<in> fst ` set xs \<and> map_of xs k = Some v" for k v
    using range_order_set [OF assms(1), of "map fst xs"]
    by (force simp: range_entries_def split: option.splits)
  moreover have "(k, v) \<in> set xs \<longleftrightarrow> k \<in> fst ` set xs \<and> map_of xs k = Some v" for k v
    using assms(2) by (force dest: map_of_SomeD)
  ultimately show ?thesis by auto
qed

lemma range_entries_distinct:
  "range_order ord \<Longrightarrow> distinct (map fst xs) \<Longrightarrow> distinct (map fst (range_entries ord xs))"
  by (simp add: range_entries_keys range_order_distinct)

lemma map_of_range_entries:
  assumes "range_order ord" "distinct (map fst xs)"
  shows "map_of (range_entries ord xs) = map_of xs" "map_of (rev (range_entries ord xs)) = map_of xs"
  using assms
  by (simp_all add: map_of_inject_set range_entries_distinct range_entries_set rev_map [symmetric])

lemma fold_update_map_of:
  "map_of (fold (\<lambda>(k, v) d. AList.update k v d) src d) = map_of d ++ map_of (rev src)"
proof (induction src arbitrary: d)
  case (Cons p src)
  obtain k v where "p = (k, v)" by (cases p)
  with Cons show ?case by (auto simp: update_conv' map_add_def fun_eq_iff split: option.splits)
qed simp

lemma fold_update_distinct:
  "distinct (map fst d) \<Longrightarrow> distinct (map fst (fold (\<lambda>(k, v) d. AList.update k v d) src d))"
  by (induction src arbitrary: d) (auto simp: distinct_update)

lemma gomap_wf_None [simp]: "gomap_wf None"
  by (simp add: gomap_wf_def gomap_entries_def)

lemma gomap_wf_put [simp]: "gomap_wf m \<Longrightarrow> gomap_wf (gomap_put k v m)"
  by (simp add: gomap_wf_def gomap_put_def gomap_entries_def distinct_update)

lemma gomap_get_None [simp]: "gomap_get None k = None"
  by (simp add: gomap_get_def gomap_entries_def)

lemma gomap_get_put [map_laws]: "gomap_get (gomap_put k v m) = (gomap_get m)(k \<mapsto> v)"
  by (rule ext) (simp add: gomap_get_def gomap_put_def gomap_entries_def update_conv')

lemma gomap_wf_absorb [simp]: "gomap_wf m \<Longrightarrow> gomap_wf (gomap_absorb src m)"
  by (simp add: gomap_wf_def gomap_absorb_def gomap_entries_def fold_update_distinct)

lemma gomap_get_absorb [map_laws]: "gomap_get (gomap_absorb src m) = gomap_get m ++ map_of (rev src)"
proof -
  have "gomap_get (gomap_absorb src m) = map_of (fold (\<lambda>(k, v) d. AList.update k v d) src (gomap_entries m))"
    by (rule ext) (simp add: gomap_get_def gomap_absorb_def gomap_entries_def)
  moreover have "gomap_get m = map_of (gomap_entries m)"
    by (rule ext) (simp add: gomap_get_def)
  ultimately show ?thesis by (simp add: fold_update_map_of)
qed

lemma gomap_absorb_single: "gomap_absorb [(k, v)] m = gomap_put k v m"
  by (simp add: gomap_absorb_def gomap_put_def)

end
