(* ===== verification/Sync_Map.thy ===== *)
theory Sync_Map
  imports Go_Prelude
begin

text \<open>
  \<^verbatim>\<open>internal/syncmap/map.go\<close>: the generic map behind a read-write mutex.  Every method holds the
  mutex for its whole body, so a method is one atomic step on the map's data.  The callback of
  \<^verbatim>\<open>Each\<close> is a function of the key, the value and the state its closure captures; it returns
  whether to go on and the new state.

  The locale \<open>go_map\<close> is what the clients rely on; it is interpreted on the operations below, and
  \<open>go_map_pair\<close> is the argument the manager makes when it compares the sizes of two maps.
\<close>

section \<open>The map and its operations\<close>

record ('k, 'v) syncmap =
  sm_data :: "('k, 'v) gomap"

definition Map_new :: "('k, 'v) syncmap" where
  "Map_new = \<lparr>sm_data = None\<rparr>"

definition Map_Get :: "('k, 'v) syncmap \<Rightarrow> 'k \<Rightarrow> 'v option" where
  "Map_Get m key = gomap_get (sm_data m) key"

definition Map_Set :: "'k \<Rightarrow> 'v \<Rightarrow> ('k, 'v) syncmap \<Rightarrow> ('k, 'v) syncmap" where
  "Map_Set key value m = m\<lparr>sm_data := gomap_put key value (sm_data m)\<rparr>"

definition Map_Delete :: "'k \<Rightarrow> ('k, 'v) syncmap \<Rightarrow> ('k, 'v) syncmap" where
  "Map_Delete key m = m\<lparr>sm_data := map_option (AList.delete key) (sm_data m)\<rparr>"

definition Map_Size :: "('k, 'v) syncmap \<Rightarrow> nat" where
  "Map_Size m = length (gomap_entries (sm_data m))"

definition Map_Keys :: "'k rorder \<Rightarrow> ('k, 'v) syncmap \<Rightarrow> 'k list" where
  "Map_Keys ord m = map fst (range_entries ord (gomap_entries (sm_data m)))"

fun each_loop :: "('k \<Rightarrow> 'v \<Rightarrow> 's \<Rightarrow> bool \<times> 's) \<Rightarrow> ('k \<times> 'v) list \<Rightarrow> 's \<Rightarrow> 's" where
  "each_loop fn [] s = s"
| "each_loop fn ((k, v) # es) s =
     (case fn k v s of (goon, s') \<Rightarrow> if goon then each_loop fn es s' else s')"

definition Map_Each ::
    "'k rorder \<Rightarrow> ('k \<Rightarrow> 'v \<Rightarrow> 's \<Rightarrow> bool \<times> 's) \<Rightarrow> ('k, 'v) syncmap \<Rightarrow> 's \<Rightarrow> 's" where
  "Map_Each ord fn m s = each_loop fn (range_entries ord (gomap_entries (sm_data m))) s"

definition Map_Clear :: "('k, 'v) syncmap \<Rightarrow> ('k, 'v) syncmap" where
  "Map_Clear m = m\<lparr>sm_data := Some []\<rparr>"

text \<open>The copy is built by assigning the entries one by one to a fresh map.\<close>

definition Map_Value :: "'k rorder \<Rightarrow> ('k, 'v) syncmap \<Rightarrow> ('k, 'v) gomap" where
  "Map_Value ord m = gomap_absorb (range_entries ord (gomap_entries (sm_data m))) (Some [])"

definition Map_AbsorbMap :: "'k rorder \<Rightarrow> ('k \<times> 'v) list \<Rightarrow> ('k, 'v) syncmap \<Rightarrow> ('k, 'v) syncmap" where
  "Map_AbsorbMap ord src m = m\<lparr>sm_data := gomap_absorb (range_entries ord src) (sm_data m)\<rparr>"

definition Map_wf :: "('k, 'v) syncmap \<Rightarrow> bool" where
  "Map_wf m \<longleftrightarrow> gomap_wf (sm_data m)"

text \<open>
  A callback that changes the object a value points to, for every entry: the values of the map
  are replaced and its keys stay.
\<close>

definition Map_update_values :: "('v \<Rightarrow> 'v) \<Rightarrow> ('k, 'v) syncmap \<Rightarrow> ('k, 'v) syncmap" where
  "Map_update_values f m = m\<lparr>sm_data := map_option (map (\<lambda>(k, v). (k, f v))) (sm_data m)\<rparr>"

section \<open>The interface\<close>

locale go_map =
  fixes empty :: 'm
    and get :: "'m \<Rightarrow> 'k \<Rightarrow> 'v option"
    and put :: "'k \<Rightarrow> 'v \<Rightarrow> 'm \<Rightarrow> 'm"
    and del :: "'k \<Rightarrow> 'm \<Rightarrow> 'm"
    and size_of :: "'m \<Rightarrow> nat"
    and invar :: "'m \<Rightarrow> bool"
  assumes get_empty: "get empty = Map.empty"
    and get_put: "invar m \<Longrightarrow> get (put k v m) = (get m)(k \<mapsto> v)"
    and get_del: "invar m \<Longrightarrow> get (del k m) = (get m)(k := None)"
    and finite_dom: "finite (dom (get m))"
    and size_card: "invar m \<Longrightarrow> size_of m = card (dom (get m))"
    and invar_empty: "invar empty"
    and invar_put: "invar m \<Longrightarrow> invar (put k v m)"
    and invar_del: "invar m \<Longrightarrow> invar (del k m)"
begin

lemma size_empty: "size_of empty = 0"
  by (simp add: size_card invar_empty get_empty)

lemma size_put:
  "invar m \<Longrightarrow> size_of (put k v m) = (if get m k = None then Suc (size_of m) else size_of m)"
  by (auto simp: size_card invar_put get_put card_insert_if finite_dom domIff insert_absorb)

lemma put_put: "invar m \<Longrightarrow> get (put k v (put k w m)) = get (put k v m)"
  by (simp add: get_put invar_put)

lemma put_commute:
  "invar m \<Longrightarrow> k \<noteq> l \<Longrightarrow> get (put k v (put l w m)) = get (put l w (put k v m))"
  by (simp add: get_put invar_put fun_upd_twist)

lemma invar_put_all: "invar m \<Longrightarrow> invar (fold (\<lambda>(k, v). put k v) kvs m)"
  by (induction kvs arbitrary: m) (auto simp: invar_put)

lemma get_put_all: "invar m \<Longrightarrow> get (fold (\<lambda>(k, v). put k v) kvs m) = get m ++ map_of (rev kvs)"
proof (induction kvs arbitrary: m)
  case (Cons kv kvs)
  obtain k v where kv: "kv = (k, v)" by (cases kv)
  have "get (fold (\<lambda>(k, v). put k v) kvs (put k v m)) = get (put k v m) ++ map_of (rev kvs)"
    by (rule Cons.IH) (simp add: Cons.prems invar_put)
  with Cons.prems kv show ?case
    by (auto simp: get_put map_add_def fun_eq_iff split: option.splits)
qed simp

end

text \<open>
  Two maps over the same keys: when the keys of one are among the keys of the other, equal sizes
  mean equal key sets.
\<close>

locale go_map_pair =
  a: go_map ea geta puta dela sizea inva + b: go_map eb getb putb delb sizeb invb
  for ea :: 'm and geta :: "'m \<Rightarrow> 'k \<Rightarrow> 'v option" and puta dela sizea inva
    and eb :: 'n and getb :: "'n \<Rightarrow> 'k \<Rightarrow> 'w option" and putb delb sizeb invb
begin

lemma same_size_same_keys:
  assumes "inva m" "invb n" "dom (getb n) \<subseteq> dom (geta m)" "sizeb n = sizea m"
  shows "dom (getb n) = dom (geta m)"
  using assms a.finite_dom by (simp add: a.size_card b.size_card card_subset_eq)

end

section \<open>The operations meet the interface\<close>

lemma gomap_entries_Some [simp]: "gomap_entries (Some d) = d"
  by (simp add: gomap_entries_def)

lemma gomap_entries_None [simp]: "gomap_entries None = []"
  by (simp add: gomap_entries_def)

lemma gomap_entries_map_option:
  "gomap_entries (map_option (map f) d) = map f (gomap_entries d)"
  by (cases d) simp_all

lemma Map_wf_Set [simp]: "Map_wf m \<Longrightarrow> Map_wf (Map_Set k v m)"
  by (simp add: Map_wf_def Map_Set_def)

lemma Map_wf_new [simp]: "Map_wf Map_new"
  by (simp add: Map_wf_def Map_new_def)

lemma Map_Get_new [simp]: "Map_Get Map_new k = None"
  by (simp add: Map_Get_def Map_new_def)

lemma Map_Size_new [simp]: "Map_Size Map_new = 0"
  by (simp add: Map_Size_def Map_new_def)

lemma Map_Get_Set [simp]: "Map_Get (Map_Set k v m) l = (if l = k then Some v else Map_Get m l)"
  by (simp add: Map_Get_def Map_Set_def gomap_get_put)

lemma Map_dom_Set [simp]: "dom (Map_Get (Map_Set k v m)) = insert k (dom (Map_Get m))"
  by (auto simp: dom_def)

lemma Map_Get_Delete:
  "Map_Get (Map_Delete k m) = (Map_Get m)(k := None)"
proof
  fix l
  show "Map_Get (Map_Delete k m) l = ((Map_Get m)(k := None)) l"
    by (cases "sm_data m") (simp_all add: Map_Get_def Map_Delete_def gomap_get_def delete_conv')
qed

lemma Map_wf_Delete [simp]: "Map_wf m \<Longrightarrow> Map_wf (Map_Delete k m)"
  by (cases "sm_data m") (simp_all add: Map_wf_def Map_Delete_def gomap_wf_def distinct_delete)

lemma Map_dom: "dom (Map_Get m) = fst ` set (gomap_entries (sm_data m))"
  by (force simp: Map_Get_def gomap_get_def dom_def map_of_eq_None_iff
      simp flip: not_None_eq dest: map_of_SomeD)

lemma Map_finite_dom [simp]: "finite (dom (Map_Get m))"
  by (simp add: Map_dom)

lemma Map_Size_card: "Map_wf m \<Longrightarrow> Map_Size m = card (dom (Map_Get m))"
proof -
  assume "Map_wf m"
  then have "distinct (map fst (gomap_entries (sm_data m)))"
    by (simp add: Map_wf_def gomap_wf_def)
  then have "card (set (map fst (gomap_entries (sm_data m)))) = Map_Size m"
    by (metis Map_Size_def distinct_card length_map)
  then show ?thesis by (simp add: Map_dom)
qed

interpretation smap: go_map Map_new Map_Get Map_Set Map_Delete Map_Size Map_wf
  by unfold_locales (auto simp: Map_Size_card Map_Get_Delete fun_eq_iff)

interpretation smap2: go_map_pair Map_new Map_Get Map_Set Map_Delete Map_Size Map_wf
    Map_new Map_Get Map_Set Map_Delete Map_Size Map_wf
  by unfold_locales

section \<open>Iteration\<close>

lemma each_loop_True:
  "(\<And>k v s. fst (fn k v s)) \<Longrightarrow> each_loop fn es s = fold (\<lambda>(k, v) s. snd (fn k v s)) es s"
proof (induction es arbitrary: s)
  case (Cons e es)
  obtain k v where e: "e = (k, v)" by (cases e)
  obtain s' where "fn k v s = (True, s')"
    using Cons.prems [of k v s] by (cases "fn k v s") auto
  with Cons e show ?case by simp
qed simp

text \<open>An invariant of the closure's state that every call of the callback keeps.\<close>

lemma each_loop_invariant:
  "I s \<Longrightarrow> (\<And>k v s. (k, v) \<in> set es \<Longrightarrow> I s \<Longrightarrow> I (snd (fn k v s))) \<Longrightarrow> I (each_loop fn es s)"
proof (induction es arbitrary: s)
  case (Cons e es)
  obtain k v where e: "e = (k, v)" by (cases e)
  obtain goon s' where fn: "fn k v s = (goon, s')" by fastforce
  have s': "I s'" using Cons.prems(1) Cons.prems(2) [of k v s] e fn by simp
  moreover have "I (each_loop fn es s')"
    by (rule Cons.IH [OF s']) (simp add: Cons.prems(2))
  ultimately show ?case using e fn by simp
qed simp

lemma range_entries_get: "(k, v) \<in> set (range_entries ord xs) \<Longrightarrow> map_of xs k = Some v"
  by (auto simp: range_entries_def split: option.splits)

lemma Map_Each_invariant:
  assumes "I s" "\<And>k v s. Map_Get m k = Some v \<Longrightarrow> I s \<Longrightarrow> I (snd (fn k v s))"
  shows "I (Map_Each ord fn m s)"
  unfolding Map_Each_def
  by (rule each_loop_invariant)
    (use assms in \<open>auto dest!: range_entries_get simp: Map_Get_def gomap_get_def\<close>)

text \<open>A loop that stops at the first entry that fails a test computes the conjunction.\<close>

lemma each_loop_all:
  "each_loop (\<lambda>k v b. if P k v then (True, b) else (False, False)) es b \<longleftrightarrow>
   b \<and> (\<forall>(k, v) \<in> set es. P k v)" if "b"
  using that by (induction es) (auto split: prod.splits)

lemma each_loop_ex:
  "each_loop (\<lambda>k v b. if P k v then (False, True) else (True, b)) es b \<longleftrightarrow>
   b \<or> (\<exists>(k, v) \<in> set es. P k v)"
  by (induction es) (auto split: prod.splits)

lemma Map_entries_wf: "Map_wf m \<Longrightarrow> distinct (map fst (gomap_entries (sm_data m)))"
  by (simp add: Map_wf_def gomap_wf_def)

lemma Map_entries_get:
  "Map_wf m \<Longrightarrow> (k, v) \<in> set (gomap_entries (sm_data m)) \<longleftrightarrow> Map_Get m k = Some v"
  by (simp add: Map_Get_def gomap_get_def Map_wf_def gomap_wf_def map_of_eq_Some_iff)

lemma Map_range_ball:
  assumes "range_order ord" "Map_wf m"
  shows "(\<forall>x\<in>set (range_entries ord (gomap_entries (sm_data m))). P (fst x) (snd x)) \<longleftrightarrow>
    (\<forall>k v. Map_Get m k = Some v \<longrightarrow> P k v)"
proof -
  have "set (range_entries ord (gomap_entries (sm_data m))) = {(k, v). Map_Get m k = Some v}"
    using assms by (auto simp: range_entries_set Map_entries_wf Map_entries_get)
  then show ?thesis by auto
qed

lemma Map_Each_all:
  assumes "range_order ord" "Map_wf m"
  shows "Map_Each ord (\<lambda>k v b. if P k v then (True, b) else (False, False)) m True \<longleftrightarrow>
    (\<forall>k v. Map_Get m k = Some v \<longrightarrow> P k v)"
  using assms
  by (auto simp: Map_Each_def each_loop_all range_entries_set Map_entries_wf Map_entries_get)

lemma Map_Each_ex:
  assumes "range_order ord" "Map_wf m"
  shows "Map_Each ord (\<lambda>k v b. if P k v then (False, True) else (True, b)) m False \<longleftrightarrow>
    (\<exists>k v. Map_Get m k = Some v \<and> P k v)"
  using assms
  by (auto simp: Map_Each_def each_loop_ex range_entries_set Map_entries_wf Map_entries_get) blast

lemma update_same_keys:
  "distinct (map fst d) \<Longrightarrow> (k, v) \<in> set d \<Longrightarrow>
   AList.update k w d = map (\<lambda>(l, u). (l, if l = k then w else u)) d"
proof (induction d)
  case (Cons p d)
  obtain l u where p: "p = (l, u)" by (cases p)
  show ?case
  proof (cases "l = k")
    case True
    with Cons.prems p have "k \<notin> fst ` set d" by auto
    then have "map (\<lambda>(l, u). (l, if l = k then w else u)) d = d"
      by (intro map_idI) force
    with True p show ?thesis by simp
  next
    case False
    with Cons p show ?thesis by auto
  qed
qed simp

lemma fold_update_values:
  "distinct (map fst d) \<Longrightarrow> distinct (map fst es) \<Longrightarrow> set es \<subseteq> set d \<Longrightarrow>
   fold (\<lambda>(k, v) d. AList.update k (f v) d) es d =
   map (\<lambda>(k, v). (k, if k \<in> fst ` set es then f v else v)) d"
proof (induction es rule: rev_induct)
  case (snoc e es)
  obtain k v where e: "e = (k, v)" by (cases e)
  let ?d = "map (\<lambda>(l, u). (l, if l \<in> fst ` set es then f u else u)) d"
  have IH: "fold (\<lambda>(k, v) d. AList.update k (f v) d) es d = ?d"
    using snoc by simp
  have "distinct (map fst ?d)"
    using snoc.prems(1) by (simp add: comp_def case_prod_beta)
  moreover
  have kv: "(k, v) \<in> set d" "k \<notin> fst ` set es"
    using snoc.prems e by auto
  have "(k, v) \<in> set ?d"
    using kv by (auto simp: image_iff intro!: bexI [of _ "(k, v)"])
  ultimately have "AList.update k (f v) ?d = map (\<lambda>(l, u). (l, if l = k then f v else u)) ?d"
    by (rule update_same_keys)
  also have "\<dots> = map (\<lambda>(l, u). (l, if l \<in> fst ` set (es @ [e]) then f u else u)) d"
    using kv snoc.prems(1) e by (auto dest: eq_key_imp_eq_value [of d k v])
  finally show ?case using IH e by simp
qed simp

text \<open>
  When the callback goes on for every entry and only changes the object behind its own entry, the
  order of the iteration does not matter.
\<close>

lemma Map_Each_update_values:
  assumes "range_order ord" "Map_wf m"
  shows "Map_Each ord (\<lambda>k v s. (True, Map_Set k (f v) s)) m m = Map_update_values f m"
proof -
  let ?es = "range_entries ord (gomap_entries (sm_data m))"
  have "fold (\<lambda>(k, v) s. Map_Set k (f v) s) es s =
      s\<lparr>sm_data := if es = [] then sm_data s
         else Some (fold (\<lambda>(k, v) d. AList.update k (f v) d) es (gomap_entries (sm_data s)))\<rparr>"
    for es and s :: "('a, 'b) syncmap"
    by (induction es arbitrary: s) (auto simp: Map_Set_def gomap_put_def)
  note step = this [of ?es m]
  have vals: "fold (\<lambda>(k, v) d. AList.update k (f v) d) ?es (gomap_entries (sm_data m)) =
      map (\<lambda>(k, v). (k, f v)) (gomap_entries (sm_data m))"
    using assms by (subst fold_update_values)
      (force simp: Map_entries_wf range_entries_distinct range_entries_set)+
  have "set ?es = set (gomap_entries (sm_data m))"
    using assms by (simp add: Map_entries_wf range_entries_set)
  then have empty: "?es = [] \<longleftrightarrow> gomap_entries (sm_data m) = []" by auto
  have "Map_Each ord (\<lambda>k v s. (True, Map_Set k (f v) s)) m m =
      fold (\<lambda>(k, v) s. Map_Set k (f v) s) ?es m"
    by (simp add: Map_Each_def each_loop_True)
  also have "\<dots> = m\<lparr>sm_data := if gomap_entries (sm_data m) = [] then sm_data m
      else Some (map (\<lambda>(k, v). (k, f v)) (gomap_entries (sm_data m)))\<rparr>"
    by (simp only: step vals empty)
  also have "\<dots> = Map_update_values f m"
    by (cases "sm_data m") (auto simp: Map_update_values_def)
  finally show ?thesis .
qed

text \<open>The same, with a callback that also accumulates something over the entries.\<close>

lemma fold_pair:
  "fold (\<lambda>x s. (g x (fst s), h x (snd s))) xs (a, b) = (fold g xs a, fold h xs b)"
  by (induction xs arbitrary: a b) simp_all

lemma Map_Each_update_acc:
  assumes "range_order ord" "Map_wf m"
  shows "Map_Each ord (\<lambda>k v s. (True, (g k v (fst s), Map_Set k (f v) (snd s)))) m (a, m) =
    (fold (\<lambda>x. g (fst x) (snd x)) (range_entries ord (gomap_entries (sm_data m))) a, Map_update_values f m)"
proof -
  let ?es = "range_entries ord (gomap_entries (sm_data m))"
  have "Map_Each ord (\<lambda>k v s. (True, (g k v (fst s), Map_Set k (f v) (snd s)))) m (a, m) =
      fold (\<lambda>x s. (g (fst x) (snd x) (fst s), Map_Set (fst x) (f (snd x)) (snd s))) ?es (a, m)"
    by (simp add: Map_Each_def each_loop_True case_prod_beta')
  also have "\<dots> = (fold (\<lambda>x. g (fst x) (snd x)) ?es a, fold (\<lambda>x. Map_Set (fst x) (f (snd x))) ?es m)"
    by (rule fold_pair)
  also have "fold (\<lambda>x. Map_Set (fst x) (f (snd x))) ?es m = Map_update_values f m"
    using Map_Each_update_values [OF assms, of f]
    by (simp add: Map_Each_def each_loop_True case_prod_beta')
  finally show ?thesis .
qed

lemma Map_update_values_Get [simp]:
  "Map_Get (Map_update_values f m) k = map_option f (Map_Get m k)"
  by (cases "sm_data m")
    (simp_all add: Map_Get_def Map_update_values_def gomap_get_def map_of_map)

lemma Map_update_values_wf [simp]: "Map_wf (Map_update_values f m) = Map_wf m"
  by (simp add: Map_wf_def Map_update_values_def gomap_wf_def gomap_entries_map_option
      comp_def case_prod_beta)

lemma Map_update_values_Size [simp]: "Map_Size (Map_update_values f m) = Map_Size m"
  by (simp add: Map_Size_def Map_update_values_def gomap_entries_map_option)

lemma Map_update_values_comp:
  "Map_update_values f (Map_update_values g m) = Map_update_values (f \<circ> g) m"
  by (cases "sm_data m") (simp_all add: Map_update_values_def comp_def case_prod_beta)

end
