(* ===== verification/Health_Core.thy ===== *)
theory Health_Core
  imports Go_Prelude
begin

text \<open>
  The root package: \<^verbatim>\<open>check.go\<close> (statuses and check results), \<^verbatim>\<open>checker.go\<close> (the options of a
  check and its frequency flags) and \<^verbatim>\<open>logger.go\<close>.  A pointer to a result that may be nil is an
  option; an open integer enumeration keeps a constructor for the values it does not name.
\<close>

unbundle bit_operations_syntax

section \<open>Statuses and results\<close>

datatype Status = StatusHealthy | StatusDegraded | StatusUnhealthy | StatusOther int

fun Status_String :: "Status \<Rightarrow> string" where
  "Status_String StatusHealthy = ''healthy''"
| "Status_String StatusDegraded = ''degraded''"
| "Status_String StatusUnhealthy = ''unhealthy''"
| "Status_String (StatusOther n) = ''unknown''"

record CheckResult =
  hc_Name :: string
  hc_Status :: Status
  hc_AffectsLiveness :: bool
  hc_AffectsReadiness :: bool
  hc_AffectsStartup :: bool
  hc_Group :: string
  hc_ComponentType :: string
  hc_DependsOn :: "string list"
  hc_Error :: "go_error option"
  hc_ErrorSince :: instant
  hc_Duration :: duration
  hc_Metadata :: "(string, string) gomap"
  hc_Timestamp :: instant

text \<open>The composite literal without fields.\<close>

definition CheckResult_zero :: CheckResult where
  "CheckResult_zero = \<lparr>hc_Name = [], hc_Status = StatusHealthy, hc_AffectsLiveness = False,
     hc_AffectsReadiness = False, hc_AffectsStartup = False, hc_Group = [], hc_ComponentType = [],
     hc_DependsOn = [], hc_Error = None, hc_ErrorSince = 0, hc_Duration = 0, hc_Metadata = None,
     hc_Timestamp = 0\<rparr>"

text \<open>
  What a call of \<^verbatim>\<open>Checker.Check\<close> can do: return a result, return nil, or panic with a value
  (kept as its \<^verbatim>\<open>%v\<close> text).
\<close>

datatype check_outcome = Returned "CheckResult option" | Panicked string

type_synonym 'c Checker_Check = "ctx \<Rightarrow> 'c \<Rightarrow> check_outcome \<times> 'c"

text \<open>A \<^verbatim>\<open>CheckerFunc\<close> is called as it is.\<close>

definition CheckerFunc_Check :: "(ctx \<Rightarrow> check_outcome) Checker_Check" where
  "CheckerFunc_Check c cf = (cf c, cf)"

section \<open>Options of a check\<close>

type_synonym CheckFrequency = uint64

definition CheckOnce :: CheckFrequency where
  "CheckOnce = push_bit 0 1"

definition CheckAtInterval :: CheckFrequency where
  "CheckAtInterval = push_bit 1 1"

definition CheckAfter :: CheckFrequency where
  "CheckAfter = push_bit 2 1"

definition freq_has :: "CheckFrequency \<Rightarrow> CheckFrequency \<Rightarrow> bool" where
  "freq_has f b \<longleftrightarrow> f AND b = b"

record AddCheckOptions =
  opt_Frequency :: CheckFrequency
  opt_Delay :: duration
  opt_Interval :: duration
  opt_AffectsLiveness :: bool
  opt_AffectsReadiness :: bool
  opt_AffectsStartup :: bool
  opt_Group :: string
  opt_ComponentType :: string
  opt_DependsOn :: "string list"

definition AddCheckOptions_zero :: AddCheckOptions where
  "AddCheckOptions_zero = \<lparr>opt_Frequency = 0, opt_Delay = 0, opt_Interval = 0,
     opt_AffectsLiveness = False, opt_AffectsReadiness = False, opt_AffectsStartup = False,
     opt_Group = [], opt_ComponentType = [], opt_DependsOn = []\<rparr>"

type_synonym AddCheckOption = "AddCheckOptions \<Rightarrow> AddCheckOptions"

definition WithCheckFrequency :: "CheckFrequency \<Rightarrow> duration \<Rightarrow> duration \<Rightarrow> AddCheckOption" where
  "WithCheckFrequency f interval delay o' =
     o'\<lparr>opt_Frequency := f, opt_Interval := interval, opt_Delay := delay\<rparr>"

definition WithLivenessImpact :: AddCheckOption where
  "WithLivenessImpact o' = o'\<lparr>opt_AffectsLiveness := True\<rparr>"

definition WithReadinessImpact :: AddCheckOption where
  "WithReadinessImpact o' = o'\<lparr>opt_AffectsReadiness := True\<rparr>"

definition WithStartupImpact :: AddCheckOption where
  "WithStartupImpact o' = o'\<lparr>opt_AffectsStartup := True\<rparr>"

definition WithGroup :: "string \<Rightarrow> AddCheckOption" where
  "WithGroup g o' = o'\<lparr>opt_Group := g\<rparr>"

definition WithComponentType :: "string \<Rightarrow> AddCheckOption" where
  "WithComponentType ct o' = o'\<lparr>opt_ComponentType := ct\<rparr>"

definition WithDependsOn :: "string list \<Rightarrow> AddCheckOption" where
  "WithDependsOn deps o' = o'\<lparr>opt_DependsOn := opt_DependsOn o' @ deps\<rparr>"

lemmas option_defs [go_defs] = WithCheckFrequency_def WithLivenessImpact_def WithReadinessImpact_def
  WithStartupImpact_def WithGroup_def WithComponentType_def WithDependsOn_def

section \<open>Loggers\<close>

datatype log_level = LevelDebug | LevelInfo | LevelWarn | LevelError

datatype log_value = LogString string | LogError go_error | LogDuration duration

record log_entry =
  log_level :: log_level
  log_msg :: string
  log_args :: "(string \<times> log_value) list"

text \<open>\<^verbatim>\<open>NoOpLogger\<close> drops every record; a \<^verbatim>\<open>slog\<close> logger keeps them (newest last).\<close>

datatype Logger = NoOpLogger | SlogLogger "log_entry list"

definition DefaultLogger :: Logger where
  "DefaultLogger = SlogLogger []"

fun Logger_log :: "log_level \<Rightarrow> string \<Rightarrow> (string \<times> log_value) list \<Rightarrow> Logger \<Rightarrow> Logger" where
  "Logger_log l msg args NoOpLogger = NoOpLogger"
| "Logger_log l msg args (SlogLogger es) =
     SlogLogger (es @ [\<lparr>log_level = l, log_msg = msg, log_args = args\<rparr>])"

section \<open>Facts about the flags and options\<close>

lemma freq_bits [simp]:
  "CheckOnce = 1" "CheckAtInterval = 2" "CheckAfter = 4"
  by (simp_all add: CheckOnce_def CheckAtInterval_def CheckAfter_def)

lemma freq_has_OR: "freq_has f b \<Longrightarrow> freq_has (f OR g) b"
  by (auto simp: freq_has_def bit_eq_iff bit_simps)

text \<open>Each \<^verbatim>\<open>With\<dots>\<close> option other than \<^verbatim>\<open>WithDependsOn\<close> is idempotent and \<^verbatim>\<open>WithDependsOn\<close> accumulates.\<close>

lemma WithDependsOn_append: "WithDependsOn ds (WithDependsOn es o') = WithDependsOn (es @ ds) o'"
  by (simp add: WithDependsOn_def)

end
