(* ===== verification/Reporter_Interface.thy ===== *)
theory Reporter_Interface
  imports Health_Core
begin

text \<open>
  The interface \<^verbatim>\<open>health.Reporter\<close> of \<^verbatim>\<open>health.go\<close>: a reporter is a state and the six methods that
  the manager calls on it.  The locale \<open>reporter\<close> states what the manager relies on: a reporter
  has three probes, each setter sets its probe and leaves the two others alone, and running,
  stopping and updating the checks leave all three alone.  \<open>reporter_store\<close> adds what becomes of
  the results relayed to it.  Every reporter of the repository is an interpretation, in its theory.
\<close>

record 'r Reporter_ops =
  r_Run :: "ctx \<Rightarrow> 'r \<Rightarrow> go_error option \<times> 'r"
  r_Stop :: "ctx \<Rightarrow> 'r \<Rightarrow> go_error option \<times> 'r"
  r_SetLiveness :: "ctx \<Rightarrow> bool \<Rightarrow> 'r \<Rightarrow> 'r"
  r_SetReadiness :: "ctx \<Rightarrow> bool \<Rightarrow> 'r \<Rightarrow> 'r"
  r_SetStartup :: "ctx \<Rightarrow> bool \<Rightarrow> 'r \<Rightarrow> 'r"
  r_UpdateHealthChecks :: "ctx \<Rightarrow> (string \<times> CheckResult) list \<Rightarrow> 'r \<Rightarrow> 'r"

record probes =
  p_live :: bool
  p_ready :: bool
  p_startup :: bool

definition probes_down :: probes where
  "probes_down = \<lparr>p_live = False, p_ready = False, p_startup = False\<rparr>"

text \<open>A call of one of the methods of a reporter, to speak about sequences of calls.\<close>

datatype reporter_call =
  CallRun | CallStop | CallLive bool | CallReady bool | CallStartup bool
  | CallUpdate "(string \<times> CheckResult) list"

fun do_call :: "'r Reporter_ops \<Rightarrow> ctx \<Rightarrow> reporter_call \<Rightarrow> 'r \<Rightarrow> 'r" where
  "do_call ops c CallRun r = snd (r_Run ops c r)"
| "do_call ops c CallStop r = snd (r_Stop ops c r)"
| "do_call ops c (CallLive b) r = r_SetLiveness ops c b r"
| "do_call ops c (CallReady b) r = r_SetReadiness ops c b r"
| "do_call ops c (CallStartup b) r = r_SetStartup ops c b r"
| "do_call ops c (CallUpdate m) r = r_UpdateHealthChecks ops c m r"

locale reporter =
  fixes ops :: "'r Reporter_ops"
    and view :: "'r \<Rightarrow> probes"
  assumes view_Run: "view (snd (r_Run ops c r)) = view r"
    and view_Stop: "view (snd (r_Stop ops c r)) = view r"
    and view_SetLiveness: "view (r_SetLiveness ops c b r) = (view r)\<lparr>p_live := b\<rparr>"
    and view_SetReadiness: "view (r_SetReadiness ops c b r) = (view r)\<lparr>p_ready := b\<rparr>"
    and view_SetStartup: "view (r_SetStartup ops c b r) = (view r)\<lparr>p_startup := b\<rparr>"
    and view_UpdateHealthChecks: "view (r_UpdateHealthChecks ops c m r) = view r"
begin

lemmas view_laws = view_Run view_Stop view_SetLiveness view_SetReadiness view_SetStartup
  view_UpdateHealthChecks

text \<open>Setters of different probes commute as far as the probes go; a setter called twice keeps the last value.\<close>

lemma view_set_twice:
  "view (r_SetLiveness ops c b (r_SetLiveness ops c' b' r)) = view (r_SetLiveness ops c b r)"
  by (simp add: view_laws)

end

text \<open>
  A reporter that stores the results: \<open>accepts\<close> is the state in which it takes updates (some
  drop them while they are not running).
\<close>

locale reporter_store = reporter ops view
  for ops :: "'r Reporter_ops" and view +
  fixes stored :: "'r \<Rightarrow> string \<Rightarrow> CheckResult option"
    and accepts :: "'r \<Rightarrow> bool"
  assumes stored_Update:
      "accepts r \<Longrightarrow> stored (r_UpdateHealthChecks ops c [(k, hc)] r) = (stored r)(k \<mapsto> hc)"
    and stored_SetLiveness: "stored (r_SetLiveness ops c b r) = stored r"
    and stored_SetReadiness: "stored (r_SetReadiness ops c b r) = stored r"
    and stored_SetStartup: "stored (r_SetStartup ops c b r) = stored r"
    and accepts_Run: "fst (r_Run ops c r) = None \<Longrightarrow> accepts (snd (r_Run ops c r))"
    and accepts_Update: "accepts (r_UpdateHealthChecks ops c m r) = accepts r"
    and accepts_SetLiveness: "accepts (r_SetLiveness ops c b r) = accepts r"
    and accepts_SetReadiness: "accepts (r_SetReadiness ops c b r) = accepts r"
    and accepts_SetStartup: "accepts (r_SetStartup ops c b r) = accepts r"
begin

lemmas store_laws = stored_SetLiveness stored_SetReadiness stored_SetStartup
  accepts_Update accepts_SetLiveness accepts_SetReadiness accepts_SetStartup

end

end
