(* ===== verification/Manager_Std.thy ===== *)
theory Manager_Std
  imports Sync_Map Reporter_Interface
begin

text \<open>
  \<^verbatim>\<open>manager/std/manager.go\<close>: the state of the manager and every method, in the order and with
  the control flow of the source.  The methods are state transformers.  A reporter registered
  under a name is the value of that name in \<open>reporters\<close>, so a call that changes the reporter
  writes the changed value back; the checkers' and reporters' own code are arguments
  (\<^typ>\<open>'r Reporter_ops\<close>, \<^typ>\<open>check_outcome\<close>).  \<open>ord\<close> is the iteration order of the maps.
\<close>

section \<open>Data\<close>

record 'c wrapper =
  w_opts :: AddCheckOptions
  w_checker :: 'c

record result =
  cancelLive :: bool
  cancelReady :: bool

text \<open>A channel is its capacity and its buffered values, oldest first.\<close>

record 'a chan =
  ch_cap :: nat
  ch_buf :: "'a list"

definition make_chan :: "nat \<Rightarrow> 'a chan" where
  "make_chan n = \<lparr>ch_cap = n, ch_buf = []\<rparr>"

record ('c, 'r) Manager =
  reporters :: "(string, 'r) syncmap"
  checkers :: "(string, 'c wrapper) syncmap"
  checkResults :: "(string, result) syncmap"
  checkFunnel :: "CheckResult option chan option"
  errChan :: "go_error chan option"
  runningPtr :: uint32
  livePtr :: uint32
  readyPtr :: uint32
  startupPtr :: uint32
  allChecksRan :: uint32
  initialReady :: uint32
  startupDone :: uint32
  m_Logger :: "Logger option"

definition Manager_zero :: "('c, 'r) Manager" where
  "Manager_zero = \<lparr>reporters = Map_new, checkers = Map_new, checkResults = Map_new,
     checkFunnel = None, errChan = None, runningPtr = 0, livePtr = 0, readyPtr = 0,
     startupPtr = 0, allChecksRan = 0, initialReady = 0, startupDone = 0, m_Logger = None\<rparr>"

definition isLive :: "('c, 'r) Manager \<Rightarrow> bool" where
  "isLive m \<longleftrightarrow> livePtr m = 1"

definition isReady :: "('c, 'r) Manager \<Rightarrow> bool" where
  "isReady m \<longleftrightarrow> readyPtr m = 1"

definition running :: "('c, 'r) Manager \<Rightarrow> bool" where
  "running m \<longleftrightarrow> runningPtr m = 1"

text \<open>A call of a logger method; the logger is set before the first one is made.\<close>

definition mgr_log :: "log_level \<Rightarrow> string \<Rightarrow> (string \<times> log_value) list \<Rightarrow> ('c, 'r) Manager \<Rightarrow> ('c, 'r) Manager" where
  "mgr_log l msg args m = m\<lparr>m_Logger := map_option (Logger_log l msg args) (m_Logger m)\<rparr>"

section \<open>Registration\<close>

definition health_error :: "string \<Rightarrow> go_error" where
  "health_error msg = WrapError (''health'' @ msg) [Sentinel ErrHealth]"

definition AddCheck ::
    "string \<Rightarrow> 'c \<Rightarrow> AddCheckOption list \<Rightarrow> ('c, 'r) Manager \<Rightarrow> go_error option \<times> ('c, 'r) Manager" where
  "AddCheck name checker opts m =
     (if running m
      then (Some (health_error ''.manager.std: cannot add a health check to a running health instance''), m)
      else
        let o1 = fold (\<lambda>opt o'. opt o') opts AddCheckOptions_zero;
            o2 = (if opt_Frequency o1 = 0 then o1\<lparr>opt_Frequency := CheckOnce\<rparr> else o1)
        in (None, m\<lparr>checkers := Map_Set name \<lparr>w_opts = o2, w_checker = checker\<rparr> (checkers m)\<rparr>))"

definition AddReporter :: "string \<Rightarrow> 'r \<Rightarrow> ('c, 'r) Manager \<Rightarrow> go_error option \<times> ('c, 'r) Manager" where
  "AddReporter name r m =
     (if running m
      then (Some (health_error ''.manager.std: cannot add a reporter to a running health instance''), m)
      else (None, m\<lparr>reporters := Map_Set name r (reporters m)\<rparr>))"

section \<open>Setting the probes\<close>

text \<open>\<^verbatim>\<open>m.reporters.Each\<close> with a callback that calls one method of every reporter.\<close>

definition notify :: "string rorder \<Rightarrow> ('r \<Rightarrow> 'r) \<Rightarrow> ('c, 'r) Manager \<Rightarrow> ('c, 'r) Manager" where
  "notify ord f m =
     m\<lparr>reporters := Map_Each ord (\<lambda>k r rs. (True, Map_Set k (f r) rs)) (reporters m) (reporters m)\<rparr>"

definition setLive ::
    "'r Reporter_ops \<Rightarrow> string rorder \<Rightarrow> ctx \<Rightarrow> bool \<Rightarrow> ('c, 'r) Manager \<Rightarrow> bool \<times> ('c, 'r) Manager" where
  "setLive ops ord c b m =
     (let v = flag b;
          old = livePtr m;
          m1 = m\<lparr>livePtr := v\<rparr>;
          changed = (old \<noteq> v)
      in (changed, if changed then notify ord (r_SetLiveness ops c (v = 1)) m1 else m1))"

definition setReady ::
    "'r Reporter_ops \<Rightarrow> string rorder \<Rightarrow> ctx \<Rightarrow> bool \<Rightarrow> ('c, 'r) Manager \<Rightarrow> bool \<times> ('c, 'r) Manager" where
  "setReady ops ord c b m =
     (if b \<and> allChecksRan m = 0 then (False, m)
      else if b \<and> startupDone m = 0 then (False, m)
      else
        let v = flag b;
            old = readyPtr m;
            m1 = m\<lparr>readyPtr := v\<rparr>;
            changed = (old \<noteq> v)
        in (changed, if changed then notify ord (r_SetReadiness ops c (v = 1)) m1 else m1))"

definition setStartup ::
    "'r Reporter_ops \<Rightarrow> string rorder \<Rightarrow> ctx \<Rightarrow> bool \<Rightarrow> ('c, 'r) Manager \<Rightarrow> bool \<times> ('c, 'r) Manager" where
  "setStartup ops ord c b m =
     (let v = flag b;
          old = startupPtr m;
          m1 = m\<lparr>startupPtr := v\<rparr>;
          changed = (old \<noteq> v)
      in (changed, if changed then notify ord (r_SetStartup ops c (v = 1)) m1 else m1))"

section \<open>Processing a result\<close>

text \<open>The \<^verbatim>\<open>switch hc.Status\<close> of \<^verbatim>\<open>processHealthCheck\<close>.\<close>

definition tally :: "CheckResult \<Rightarrow> result" where
  "tally hc =
     (case hc_Status hc of
        StatusUnhealthy \<Rightarrow>
          (if hc_AffectsLiveness hc then \<lparr>cancelLive = True, cancelReady = True\<rparr>
           else if hc_AffectsReadiness hc then \<lparr>cancelLive = False, cancelReady = True\<rparr>
           else \<lparr>cancelLive = False, cancelReady = False\<rparr>)
      | _ \<Rightarrow> \<lparr>cancelLive = False, cancelReady = False\<rparr>)"

text \<open>The deferred function: store the tally, then see whether all checks have reported.\<close>

definition store_result :: "string \<Rightarrow> result \<Rightarrow> ('c, 'r) Manager \<Rightarrow> ('c, 'r) Manager" where
  "store_result name r m =
     (let m1 = m\<lparr>checkResults := Map_Set name r (checkResults m)\<rparr>
      in if allChecksRan m1 = 0 \<and> Map_Size (checkResults m1) = Map_Size (checkers m1)
         then m1\<lparr>allChecksRan := 1\<rparr> else m1)"

definition processHealthCheck ::
    "'r Reporter_ops \<Rightarrow> string rorder \<Rightarrow> ctx \<Rightarrow> CheckResult option \<Rightarrow> ('c, 'r) Manager \<Rightarrow> ('c, 'r) Manager" where
  "processHealthCheck ops ord c hco m =
     (case hco of
        None \<Rightarrow> mgr_log LevelError ''received nil health check result'' [] m
      | Some hc \<Rightarrow>
          if ctx_done c then m
          else
            let m1 = (case hc_Error hc of
                        None \<Rightarrow> m
                      | Some e \<Rightarrow> mgr_log LevelError ''health check returned an error''
                                   [(''check'', LogString (hc_Name hc)), (''error'', LogError e)] m);
                m2 = (if hc_Status hc = StatusDegraded
                      then mgr_log LevelWarn ''health check degraded'' [(''check'', LogString (hc_Name hc))] m1
                      else m1);
                m3 = notify ord (r_UpdateHealthChecks ops c [(hc_Name hc, hc)]) m2
            in store_result (hc_Name hc) (tally hc) m3)"

section \<open>Evaluating the fitness\<close>

definition evaluateStartup ::
    "'r Reporter_ops \<Rightarrow> string rorder \<Rightarrow> ctx \<Rightarrow> ('c, 'r) Manager \<Rightarrow> bool \<times> ('c, 'r) Manager" where
  "evaluateStartup ops ord c m =
     (if startupDone m \<noteq> 0 then (True, m)
      else
        let startupPassed =
              Map_Each ord
                (\<lambda>name w passed.
                   if \<not> opt_AffectsStartup (w_opts w) then (True, passed)
                   else case Map_Get (checkResults m) name of
                          None \<Rightarrow> (False, False)
                        | Some r \<Rightarrow> if cancelLive r \<or> cancelReady r then (False, False) else (True, passed))
                (checkers m) True
        in if \<not> startupPassed then (False, m)
           else
             let m1 = snd (setStartup ops ord c True (m\<lparr>startupDone := 1\<rparr>))
             in (True, mgr_log LevelInfo ''startup complete'' [] m1))"

definition aggregateResults :: "string rorder \<Rightarrow> ('c, 'r) Manager \<Rightarrow> bool \<times> bool" where
  "aggregateResults ord m =
     Map_Each ord
       (\<lambda>_ r (live, ready). (True, (live \<and> \<not> cancelLive r, ready \<and> \<not> cancelReady r)))
       (checkResults m) (True, True)"

definition applyLivenessChange ::
    "'r Reporter_ops \<Rightarrow> string rorder \<Rightarrow> ctx \<Rightarrow> bool \<Rightarrow> ('c, 'r) Manager \<Rightarrow> ('c, 'r) Manager" where
  "applyLivenessChange ops ord c actuallyLive m =
     (if isLive m = actuallyLive then m
      else
        let m1 = (if \<not> actuallyLive then mgr_log LevelError ''liveness set false'' [] m
                  else mgr_log LevelInfo ''liveness set true'' [] m)
        in snd (setLive ops ord c actuallyLive m1))"

definition applyReadinessChange ::
    "'r Reporter_ops \<Rightarrow> string rorder \<Rightarrow> ctx \<Rightarrow> bool \<Rightarrow> bool \<Rightarrow> ('c, 'r) Manager \<Rightarrow> ('c, 'r) Manager" where
  "applyReadinessChange ops ord c reportedReadiness actuallyReady m =
     (if reportedReadiness = actuallyReady then m
      else
        let m1 = (if \<not> actuallyReady then mgr_log LevelWarn ''readiness set false'' [] m
                  else mgr_log LevelInfo ''readiness set true'' [] m)
        in snd (setReady ops ord c actuallyReady m1))"

definition evaluateFitness ::
    "'r Reporter_ops \<Rightarrow> string rorder \<Rightarrow> ctx \<Rightarrow> ('c, 'r) Manager \<Rightarrow> ('c, 'r) Manager" where
  "evaluateFitness ops ord c m =
     (if \<not> running m then m
      else if allChecksRan m = 0 then m
      else
        case evaluateStartup ops ord c m of
          (False, m1) \<Rightarrow> m1
        | (True, m1) \<Rightarrow>
            let (actuallyLive, actuallyReady) = aggregateResults ord m1;
                reportedReadiness = isReady m1;
                (cell, swapped) = CompareAndSwapUint32 (initialReady m1) 0 1;
                (reported, m2) =
                  (if actuallyReady \<and> swapped
                   then (True, snd (setReady ops ord c True (m1\<lparr>initialReady := cell\<rparr>)))
                   else (reportedReadiness, m1));
                actuallyReady' = (actuallyReady \<and> actuallyLive);
                m3 = applyLivenessChange ops ord c actuallyLive m2
            in applyReadinessChange ops ord c reported actuallyReady' m3)"

section \<open>Starting and stopping\<close>

definition initInternals :: "('c, 'r) Manager \<Rightarrow> ('c, 'r) Manager" where
  "initInternals m =
     (let m1 = (case m_Logger m of None \<Rightarrow> m\<lparr>m_Logger := Some NoOpLogger\<rparr> | Some _ \<Rightarrow> m);
          m2 = (case checkFunnel m1 of
                  None \<Rightarrow> m1\<lparr>checkFunnel := Some (make_chan (Map_Size (checkers m1)))\<rparr> | Some _ \<Rightarrow> m1)
      in case errChan m2 of None \<Rightarrow> m2\<lparr>errChan := Some (make_chan 1)\<rparr> | Some _ \<Rightarrow> m2)"

definition dispatchReporters ::
    "'r Reporter_ops \<Rightarrow> string rorder \<Rightarrow> ctx \<Rightarrow> ('c, 'r) Manager \<Rightarrow> go_error option \<times> ('c, 'r) Manager" where
  "dispatchReporters ops ord c m =
     (case Map_Each ord
             (\<lambda>k r (outErr, rs).
                case r_Run ops c r of
                  (Some startErr, r') \<Rightarrow> (False, (Some startErr, Map_Set k r' rs))
                | (None, r') \<Rightarrow> (True, (outErr, Map_Set k r' rs)))
             (reporters m) (None, reporters m)
      of (outErr, rs) \<Rightarrow> (outErr, m\<lparr>reporters := rs\<rparr>))"

text \<open>
  A checker goroutine.  It first sleeps when \<^verbatim>\<open>CheckAfter\<close> is set (\<open>GDelay\<close>); the interval kind
  then makes a ticker and loops (\<open>GTick\<close>), the one-time kind runs once.  \<open>GSend\<close> is the blocking send of a
  result into the funnel; \<open>GPanic\<close> is a panic that nothing recovers, which ends the process.
\<close>

datatype g_kind = IntervalCheck | OneTimeCheck

datatype g_pc = GInit | GDelay | GStart | GTick | GSend CheckResult | GExit | GPanic string

record 'c goroutine =
  g_name :: string
  g_wrapper :: "'c wrapper"
  g_kind :: g_kind
  g_pc :: g_pc

definition spawn_check :: "string \<Rightarrow> 'c wrapper \<Rightarrow> 'c goroutine" where
  "spawn_check key w =
     \<lparr>g_name = key, g_wrapper = w,
      g_kind = (if freq_has (opt_Frequency (w_opts w)) CheckAtInterval then IntervalCheck else OneTimeCheck),
      g_pc = GInit\<rparr>"

definition dispatchHealthChecks ::
    "string rorder \<Rightarrow> ctx \<Rightarrow> ('c, 'r) Manager \<Rightarrow> go_error option \<times> 'c goroutine list" where
  "dispatchHealthChecks ord c m =
     (if ctx_done c then (ctx_err c, [])
      else (None, Map_Each ord (\<lambda>key w gs. (True, gs @ [spawn_check key w])) (checkers m) []))"

definition validateAndStart ::
    "'r Reporter_ops \<Rightarrow> string rorder \<Rightarrow> ctx \<Rightarrow> ('c, 'r) Manager \<Rightarrow>
     go_error option \<times> 'c goroutine list \<times> ('c, 'r) Manager" where
  "validateAndStart ops ord c m =
     (if Map_Size (checkers m) = 0
      then (Some (health_error ''.manager.std: there are no checkers specified for this manager''), [], m)
      else if Map_Size (reporters m) = 0
      then (Some (health_error ''.manager.std: there are no reporters specified for this manager''), [], m)
      else
        case dispatchReporters ops ord c m of
          (Some err, m1) \<Rightarrow> (Some err, [], m1)
        | (None, m1) \<Rightarrow> (case dispatchHealthChecks ord c m1 of (err, gs) \<Rightarrow> (err, gs, m1)))"

definition initStartupState ::
    "'r Reporter_ops \<Rightarrow> string rorder \<Rightarrow> ctx \<Rightarrow> ('c, 'r) Manager \<Rightarrow> ('c, 'r) Manager" where
  "initStartupState ops ord c m =
     (let hasStartupChecks =
            Map_Each ord
              (\<lambda>_ w found. if opt_AffectsStartup (w_opts w) then (False, True) else (True, found))
              (checkers m) False
      in if \<not> hasStartupChecks
         then snd (setStartup ops ord c True (m\<lparr>startupDone := 1\<rparr>))
         else m)"

text \<open>
  \<^verbatim>\<open>Run\<close> up to and including the start of the goroutines, with its early returns.  The send of a
  start error into \<^verbatim>\<open>errChan\<close> blocks when the channel is full (\<open>RunBlocked\<close>); the deferred reset
  of \<open>runningPtr\<close> happens only when \<^verbatim>\<open>Run\<close> returns.
\<close>

datatype 'c run_result =
  RunAlready | RunFailed go_error | RunBlocked go_error | RunStarted "'c goroutine list"

definition Run_start ::
    "'r Reporter_ops \<Rightarrow> string rorder \<Rightarrow> ctx \<Rightarrow> ('c, 'r) Manager \<Rightarrow> 'c run_result \<times> ('c, 'r) Manager" where
  "Run_start ops ord c m =
     (case CompareAndSwapUint32 (runningPtr m) 0 1 of
        (_, False) \<Rightarrow> (RunAlready, m)
      | (cell, True) \<Rightarrow>
          (let m1 = initInternals (m\<lparr>runningPtr := cell\<rparr>)
           in case validateAndStart ops ord c m1 of
                (Some err, _, m2) \<Rightarrow>
                  (case errChan m2 of
                     Some ch \<Rightarrow>
                       if length (ch_buf ch) < ch_cap ch
                       then (RunFailed err,
                             m2\<lparr>errChan := Some (ch\<lparr>ch_buf := ch_buf ch @ [err]\<rparr>), runningPtr := 0\<rparr>)
                       else (RunBlocked err, m2)
                   | None \<Rightarrow> (RunBlocked err, m2))
              | (None, gs, m2) \<Rightarrow> (RunStarted gs, m2)))"

text \<open>The tail of \<^verbatim>\<open>Run\<close>, which runs beside the goroutines it started.\<close>

definition Run_finish ::
    "'r Reporter_ops \<Rightarrow> string rorder \<Rightarrow> ctx \<Rightarrow> ('c, 'r) Manager \<Rightarrow> ('c, 'r) Manager" where
  "Run_finish ops ord c m = snd (setLive ops ord c True (initStartupState ops ord c m))"

definition Manager_Run ::
    "'r Reporter_ops \<Rightarrow> string rorder \<Rightarrow> ctx \<Rightarrow> ('c, 'r) Manager \<Rightarrow> 'c run_result \<times> ('c, 'r) Manager" where
  "Manager_Run ops ord c m =
     (case Run_start ops ord c m of
        (RunStarted gs, m1) \<Rightarrow> (RunStarted gs, Run_finish ops ord c m1)
      | other \<Rightarrow> other)"

definition Manager_Stop ::
    "'r Reporter_ops \<Rightarrow> string rorder \<Rightarrow> ctx \<Rightarrow> ('c, 'r) Manager \<Rightarrow> go_error option \<times> ('c, 'r) Manager" where
  "Manager_Stop ops ord c m =
     (case CompareAndSwapUint32 (runningPtr m) 1 0 of
        (_, False) \<Rightarrow> (None, m)
      | (cell, True) \<Rightarrow>
          let m1 = snd (setReady ops ord c False (m\<lparr>runningPtr := cell\<rparr>));
              (errs, rs) =
                Map_Each ord
                  (\<lambda>key r (errs, rs).
                     case r_Stop ops c r of
                       (rErr, r') \<Rightarrow>
                         (True,
                          (case rErr of
                             None \<Rightarrow> errs
                           | Some e \<Rightarrow>
                               if errors_Is e Canceled then errs
                               else errs @ [Errorf_w (''reporter '' @ [CHR 0x27] @ key @ [CHR 0x27] @ '' failed to stop: '') e],
                           Map_Set key r' rs)))
                  (reporters m1) ([], reporters m1)
          in (if errs \<noteq> []
              then Some (WrapError (''health.manager.std: '' @ error_text (errors_Join errs))
                          [Sentinel ErrHealth, errors_Join errs])
              else None,
              m1\<lparr>reporters := rs\<rparr>))"

section \<open>Running a check\<close>

text \<open>\<^verbatim>\<open>safeCheck\<close>, given what the checker's \<^verbatim>\<open>Check\<close> did and the time a recovered panic is stamped with.\<close>

definition safeCheck ::
    "string \<Rightarrow> instant \<Rightarrow> check_outcome \<Rightarrow> ('c, 'r) Manager \<Rightarrow> CheckResult option \<times> ('c, 'r) Manager" where
  "safeCheck name now out m =
     (case out of
        Panicked r \<Rightarrow>
          (Some (CheckResult_zero\<lparr>hc_Name := name, hc_Status := StatusUnhealthy,
                   hc_Error := Some (ErrorString (''checker panicked: '' @ r)), hc_Timestamp := now\<rparr>),
           mgr_log LevelError ''checker panicked'' [(''checker'', LogString name), (''panic'', LogString r)] m)
      | Returned None \<Rightarrow>
          (None, mgr_log LevelError ''checker returned nil result'' [(''checker'', LogString name)] m)
      | Returned (Some hc) \<Rightarrow> (Some hc, m))"

definition applyCheckOptions :: "CheckResult \<Rightarrow> string \<Rightarrow> AddCheckOptions \<Rightarrow> CheckResult" where
  "applyCheckOptions hc name opts =
     hc\<lparr>hc_Name := name,
        hc_AffectsLiveness := opt_AffectsLiveness opts,
        hc_AffectsReadiness := opt_AffectsReadiness opts,
        hc_AffectsStartup := opt_AffectsStartup opts,
        hc_Group := opt_Group opts,
        hc_ComponentType := opt_ComponentType opts,
        hc_DependsOn := opt_DependsOn opts\<rparr>"

text \<open>
  One step of \<^verbatim>\<open>dispatchIntervalCheck\<close> from its current point: the end of the sleep, the ticker
  (\<^verbatim>\<open>time.NewTicker\<close> panics unless the interval is positive), and the \<^verbatim>\<open>select\<close> of the loop, where
  the event tells which case it takes.  The send is a step of its own.
\<close>

datatype g_event = GSlept | GProceed | GDone | GTicked

fun dispatchIntervalCheck ::
    "'c Checker_Check \<Rightarrow> ctx \<Rightarrow> instant \<Rightarrow> g_event \<Rightarrow> 'c goroutine \<Rightarrow> ('c, 'r) Manager \<Rightarrow>
     'c goroutine \<times> ('c, 'r) Manager" where
  "dispatchIntervalCheck chk c now ev g m =
     (case (g_pc g, ev) of
        (GInit, GProceed) \<Rightarrow>
          if freq_has (opt_Frequency (w_opts (g_wrapper g))) CheckAfter
          then (g\<lparr>g_pc := GDelay\<rparr>,
                mgr_log LevelDebug ''delaying checker''
                  [(''checker'', LogString (g_name g)), (''delay'', LogDuration (opt_Delay (w_opts (g_wrapper g))))] m)
          else (g\<lparr>g_pc := GStart\<rparr>, m)
      | (GDelay, GSlept) \<Rightarrow> (g\<lparr>g_pc := GStart\<rparr>, m)
      | (GStart, GProceed) \<Rightarrow>
          if opt_Interval (w_opts (g_wrapper g)) \<le> 0
          then (g\<lparr>g_pc := GPanic ''non-positive interval for NewTicker''\<rparr>, m)
          else (g\<lparr>g_pc := GTick\<rparr>, 
                mgr_log LevelDebug ''running interval checker''
                  [(''checker'', LogString (g_name g)), (''interval'', LogDuration (opt_Interval (w_opts (g_wrapper g))))] m)
      | (GTick, GDone) \<Rightarrow> if ctx_done c then (g\<lparr>g_pc := GExit\<rparr>, m) else (g, m)
      | (GTick, GTicked) \<Rightarrow>
          (case chk c (w_checker (g_wrapper g)) of
             (out, w') \<Rightarrow>
               let g1 = g\<lparr>g_wrapper := (g_wrapper g)\<lparr>w_checker := w'\<rparr>\<rparr>
               in case safeCheck (g_name g) now out m of
                    (None, m1) \<Rightarrow> (g1, m1)
                  | (Some hc, m1) \<Rightarrow>
                      (g1\<lparr>g_pc := GSend (applyCheckOptions hc (g_name g) (w_opts (g_wrapper g)))\<rparr>, m1))
      | _ \<Rightarrow> (g, m))"

fun dispatchOneTimeCheck ::
    "'c Checker_Check \<Rightarrow> ctx \<Rightarrow> instant \<Rightarrow> g_event \<Rightarrow> 'c goroutine \<Rightarrow> ('c, 'r) Manager \<Rightarrow>
     'c goroutine \<times> ('c, 'r) Manager" where
  "dispatchOneTimeCheck chk c now ev g m =
     (case (g_pc g, ev) of
        (GInit, GProceed) \<Rightarrow>
          if freq_has (opt_Frequency (w_opts (g_wrapper g))) CheckAfter
          then (g\<lparr>g_pc := GDelay\<rparr>,
                mgr_log LevelDebug ''delaying checker''
                  [(''checker'', LogString (g_name g)), (''delay'', LogDuration (opt_Delay (w_opts (g_wrapper g))))] m)
          else (g\<lparr>g_pc := GStart\<rparr>, m)
      | (GDelay, GSlept) \<Rightarrow> (g\<lparr>g_pc := GStart\<rparr>, m)
      | (GStart, GProceed) \<Rightarrow>
          let m0 = mgr_log LevelDebug ''running one-time checker'' [(''checker'', LogString (g_name g))] m
          in if ctx_done c then (g\<lparr>g_pc := GExit\<rparr>, m0)
             else
               (case chk c (w_checker (g_wrapper g)) of
                  (out, w') \<Rightarrow>
                    let g1 = g\<lparr>g_wrapper := (g_wrapper g)\<lparr>w_checker := w'\<rparr>\<rparr>
                    in case safeCheck (g_name g) now out m0 of
                         (None, m1) \<Rightarrow> (g1\<lparr>g_pc := GExit\<rparr>, m1)
                       | (Some hc, m1) \<Rightarrow>
                           (g1\<lparr>g_pc := GSend (applyCheckOptions hc (g_name g) (w_opts (g_wrapper g)))\<rparr>, m1))
      | _ \<Rightarrow> (g, m))"

text \<open>Where a goroutine is after its send went through.\<close>

definition after_send :: "'c goroutine \<Rightarrow> 'c goroutine" where
  "after_send g = g\<lparr>g_pc := (case g_kind g of IntervalCheck \<Rightarrow> GTick | OneTimeCheck \<Rightarrow> GExit)\<rparr>"

text \<open>The body of the manager's loop for one received result.\<close>

definition loop_body ::
    "'r Reporter_ops \<Rightarrow> string rorder \<Rightarrow> ctx \<Rightarrow> CheckResult option \<Rightarrow> ('c, 'r) Manager \<Rightarrow> ('c, 'r) Manager" where
  "loop_body ops ord c hc m = evaluateFitness ops ord c (processHealthCheck ops ord c hc m)"

end
