(* ===== verification/Manager_Fitness.thy ===== *)
theory Manager_Fitness
  imports Manager_Std
begin

text \<open>
  The manager's methods one by one: closed forms that no longer mention iteration, what each
  method leaves alone, the invariant of the manager and that every method keeps it, and what
  \<^verbatim>\<open>evaluateFitness\<close> computes.
\<close>

section \<open>Predicates\<close>

definition mgr_wf :: "('c, 'r) Manager \<Rightarrow> bool" where
  "mgr_wf m \<longleftrightarrow> Map_wf (reporters m) \<and> Map_wf (checkers m) \<and> Map_wf (checkResults m)"

definition is_flag :: "uint32 \<Rightarrow> bool" where
  "is_flag v \<longleftrightarrow> v = 0 \<or> v = 1"

definition flags_ok :: "('c, 'r) Manager \<Rightarrow> bool" where
  "flags_ok m \<longleftrightarrow> list_all is_flag [runningPtr m, livePtr m, readyPtr m, startupPtr m,
     allChecksRan m, initialReady m, startupDone m]"

text \<open>No stored tally takes liveness away without readiness.\<close>

definition tallies_ok :: "('c, 'r) Manager \<Rightarrow> bool" where
  "tallies_ok m \<longleftrightarrow> (\<forall>k r. Map_Get (checkResults m) k = Some r \<longrightarrow> cancelLive r \<longrightarrow> cancelReady r)"

text \<open>What the manager keeps true between two calls of its methods.\<close>

definition mgr_inv :: "('c, 'r) Manager \<Rightarrow> bool" where
  "mgr_inv m \<longleftrightarrow> mgr_wf m \<and> flags_ok m \<and> tallies_ok m \<and>
     startupPtr m = startupDone m \<and>
     (isReady m \<longrightarrow> allChecksRan m = 1 \<and> startupDone m = 1 \<and> isLive m) \<and>
     (running m \<longrightarrow> m_Logger m \<noteq> None \<and> checkFunnel m \<noteq> None \<and> errChan m \<noteq> None)"

definition all_live :: "('c, 'r) Manager \<Rightarrow> bool" where
  "all_live m \<longleftrightarrow> (\<forall>k r. Map_Get (checkResults m) k = Some r \<longrightarrow> \<not> cancelLive r)"

definition all_ready :: "('c, 'r) Manager \<Rightarrow> bool" where
  "all_ready m \<longleftrightarrow> (\<forall>k r. Map_Get (checkResults m) k = Some r \<longrightarrow> \<not> cancelReady r)"

text \<open>Every check that affects startup has reported, and its last tally cancels nothing.\<close>

definition startup_ok :: "('c, 'r) Manager \<Rightarrow> bool" where
  "startup_ok m \<longleftrightarrow>
     (\<forall>k w. Map_Get (checkers m) k = Some w \<longrightarrow> opt_AffectsStartup (w_opts w) \<longrightarrow>
        (\<exists>r. Map_Get (checkResults m) k = Some r \<and> \<not> cancelLive r \<and> \<not> cancelReady r))"

definition gate_open :: "('c, 'r) Manager \<Rightarrow> bool" where
  "gate_open m \<longleftrightarrow> running m \<and> allChecksRan m \<noteq> 0 \<and> (startupDone m \<noteq> 0 \<or> startup_ok m)"

definition tell :: "bool \<Rightarrow> ('r \<Rightarrow> 'r) \<Rightarrow> (string, 'r) syncmap \<Rightarrow> (string, 'r) syncmap" where
  "tell changed f rs = (if changed then Map_update_values f rs else rs)"

section \<open>Closed forms\<close>

lemma tell_simps [simp]:
  "tell False f rs = rs" "tell True f rs = Map_update_values f rs"
  "Map_wf (tell b f rs) = Map_wf rs" "Map_Size (tell b f rs) = Map_Size rs"
  "Map_Get (tell b f rs) k = (if b then map_option f (Map_Get rs k) else Map_Get rs k)"
  by (simp_all add: tell_def)

lemma is_flag_simps [simp]: "is_flag 0" "is_flag 1" "is_flag (flag b)"
  by (simp_all add: is_flag_def flag_def)

lemma is_flag_eq: "is_flag v \<Longrightarrow> v = flag (v = 1)"
  by (auto simp: is_flag_def)

lemma notify_eq:
  "range_order ord \<Longrightarrow> Map_wf (reporters m) \<Longrightarrow>
   notify ord f m = m\<lparr>reporters := Map_update_values f (reporters m)\<rparr>"
  by (simp add: notify_def Map_Each_update_values)

lemma setLive_eq:
  "range_order ord \<Longrightarrow> Map_wf (reporters m) \<Longrightarrow>
   setLive ops ord c b m =
     (livePtr m \<noteq> flag b,
      m\<lparr>livePtr := flag b, reporters := tell (livePtr m \<noteq> flag b) (r_SetLiveness ops c b) (reporters m)\<rparr>)"
  by (simp add: setLive_def Let_def notify_eq tell_def)

lemma setStartup_eq:
  "range_order ord \<Longrightarrow> Map_wf (reporters m) \<Longrightarrow>
   setStartup ops ord c b m =
     (startupPtr m \<noteq> flag b,
      m\<lparr>startupPtr := flag b, reporters := tell (startupPtr m \<noteq> flag b) (r_SetStartup ops c b) (reporters m)\<rparr>)"
  by (simp add: setStartup_def Let_def notify_eq tell_def)

lemma setReady_eq:
  "range_order ord \<Longrightarrow> Map_wf (reporters m) \<Longrightarrow>
   setReady ops ord c b m =
     (if b \<and> (allChecksRan m = 0 \<or> startupDone m = 0) then (False, m)
      else (readyPtr m \<noteq> flag b,
        m\<lparr>readyPtr := flag b, reporters := tell (readyPtr m \<noteq> flag b) (r_SetReadiness ops c b) (reporters m)\<rparr>))"
  by (auto simp add: setReady_def Let_def notify_eq tell_def)

lemmas set_eqs = setLive_eq setReady_eq setStartup_eq

lemma mgr_log_fields [simp]:
  "reporters (mgr_log l s a m) = reporters m" "checkers (mgr_log l s a m) = checkers m"
  "checkResults (mgr_log l s a m) = checkResults m" "checkFunnel (mgr_log l s a m) = checkFunnel m"
  "errChan (mgr_log l s a m) = errChan m" "runningPtr (mgr_log l s a m) = runningPtr m"
  "livePtr (mgr_log l s a m) = livePtr m" "readyPtr (mgr_log l s a m) = readyPtr m"
  "startupPtr (mgr_log l s a m) = startupPtr m" "allChecksRan (mgr_log l s a m) = allChecksRan m"
  "initialReady (mgr_log l s a m) = initialReady m" "startupDone (mgr_log l s a m) = startupDone m"
  "m_Logger (mgr_log l s a m) = None \<longleftrightarrow> m_Logger m = None"
  "isLive (mgr_log l s a m) = isLive m" "isReady (mgr_log l s a m) = isReady m"
  "running (mgr_log l s a m) = running m"
  by (simp_all add: mgr_log_def isLive_def isReady_def running_def)

lemma startup_each:
  assumes "range_order ord" "Map_wf (checkers m)"
  shows "Map_Each ord
      (\<lambda>name w passed.
         if \<not> opt_AffectsStartup (w_opts w) then (True, passed)
         else case Map_Get (checkResults m) name of
                None \<Rightarrow> (False, False)
              | Some r \<Rightarrow> if cancelLive r \<or> cancelReady r then (False, False) else (True, passed))
      (checkers m) True \<longleftrightarrow> startup_ok m"
proof -
  let ?P = "\<lambda>k w. opt_AffectsStartup (w_opts w) \<longrightarrow>
      (\<exists>r. Map_Get (checkResults m) k = Some r \<and> \<not> cancelLive r \<and> \<not> cancelReady r)"
  have eq: "(\<lambda>name w passed.
         if \<not> opt_AffectsStartup (w_opts w) then (True, passed)
         else case Map_Get (checkResults m) name of
                None \<Rightarrow> (False, False)
              | Some r \<Rightarrow> if cancelLive r \<or> cancelReady r then (False, False) else (True, passed)) =
      (\<lambda>k w b. if ?P k w then (True, b) else (False, False))"
    by (auto simp: fun_eq_iff split: option.splits)
  show ?thesis
    unfolding eq Map_Each_all [OF assms] by (auto simp: startup_ok_def)
qed

lemma evaluateStartup_eq:
  assumes "range_order ord" "mgr_wf m"
  shows "evaluateStartup ops ord c m =
    (if startupDone m \<noteq> 0 then (True, m)
     else if startup_ok m
     then (True, mgr_log LevelInfo ''startup complete'' []
             (m\<lparr>startupDone := 1, startupPtr := 1,
                reporters := tell (startupPtr m \<noteq> 1) (r_SetStartup ops c True) (reporters m)\<rparr>))
     else (False, m))"
  using assms by (simp add: evaluateStartup_def startup_each mgr_wf_def setStartup_eq)

lemma fold_conj2:
  "fold (\<lambda>x s. (fst s \<and> P (snd x), snd s \<and> Q (snd x))) es (a, b) =
   (a \<and> (\<forall>x\<in>set es. P (snd x)), b \<and> (\<forall>x\<in>set es. Q (snd x)))"
  by (induction es arbitrary: a b) auto

lemma aggregateResults_eq:
  assumes "range_order ord" "mgr_wf m"
  shows "aggregateResults ord m = (all_live m, all_ready m)"
proof -
  have wf: "Map_wf (checkResults m)" using assms(2) by (simp add: mgr_wf_def)
  let ?es = "range_entries ord (gomap_entries (sm_data (checkResults m)))"
  have "aggregateResults ord m =
      fold (\<lambda>x s. (fst s \<and> \<not> cancelLive (snd x), snd s \<and> \<not> cancelReady (snd x))) ?es (True, True)"
    by (simp add: aggregateResults_def Map_Each_def each_loop_True case_prod_beta')
  also have "\<dots> = ((\<forall>x\<in>set ?es. \<not> cancelLive (snd x)), (\<forall>x\<in>set ?es. \<not> cancelReady (snd x)))"
    by (subst fold_conj2 [where P = "\<lambda>r. \<not> cancelLive r" and Q = "\<lambda>r. \<not> cancelReady r"]) simp
  also have "\<dots> = (all_live m, all_ready m)"
    using Map_range_ball [OF assms(1) wf, of "\<lambda>_ r. \<not> cancelLive r"]
      Map_range_ball [OF assms(1) wf, of "\<lambda>_ r. \<not> cancelReady r"]
    by (simp add: all_live_def all_ready_def)
  finally show ?thesis .
qed

section \<open>What evaluateFitness does\<close>

text \<open>No method reads the log, so equations are stated up to it.\<close>

definition core :: "('c, 'r) Manager \<Rightarrow> ('c, 'r) Manager" where
  "core m = m\<lparr>m_Logger := None\<rparr>"

lemma core_fields [simp]:
  "reporters (core m) = reporters m" "checkers (core m) = checkers m"
  "checkResults (core m) = checkResults m" "checkFunnel (core m) = checkFunnel m"
  "errChan (core m) = errChan m" "runningPtr (core m) = runningPtr m"
  "livePtr (core m) = livePtr m" "readyPtr (core m) = readyPtr m"
  "startupPtr (core m) = startupPtr m" "allChecksRan (core m) = allChecksRan m"
  "initialReady (core m) = initialReady m" "startupDone (core m) = startupDone m"
  "core (mgr_log l s a m) = core m" "core (core m) = core m"
  by (simp_all add: core_def mgr_log_def)

lemma core_update [simp]:
  "core (m\<lparr>livePtr := v\<rparr>) = (core m)\<lparr>livePtr := v\<rparr>"
  "core (m\<lparr>readyPtr := v\<rparr>) = (core m)\<lparr>readyPtr := v\<rparr>"
  "core (m\<lparr>startupPtr := v\<rparr>) = (core m)\<lparr>startupPtr := v\<rparr>"
  "core (m\<lparr>startupDone := v\<rparr>) = (core m)\<lparr>startupDone := v\<rparr>"
  "core (m\<lparr>initialReady := v\<rparr>) = (core m)\<lparr>initialReady := v\<rparr>"
  "core (m\<lparr>allChecksRan := v\<rparr>) = (core m)\<lparr>allChecksRan := v\<rparr>"
  "core (m\<lparr>runningPtr := v\<rparr>) = (core m)\<lparr>runningPtr := v\<rparr>"
  "core (m\<lparr>reporters := rs\<rparr>) = (core m)\<lparr>reporters := rs\<rparr>"
  "core (m\<lparr>checkers := cs\<rparr>) = (core m)\<lparr>checkers := cs\<rparr>"
  "core (m\<lparr>checkResults := xs\<rparr>) = (core m)\<lparr>checkResults := xs\<rparr>"
  "core (m\<lparr>checkFunnel := ch\<rparr>) = (core m)\<lparr>checkFunnel := ch\<rparr>"
  "core (m\<lparr>errChan := ec\<rparr>) = (core m)\<lparr>errChan := ec\<rparr>"
  by (simp_all add: core_def)

lemma Manager_same [simp]:
  "m\<lparr>livePtr := livePtr m\<rparr> = m" "m\<lparr>readyPtr := readyPtr m\<rparr> = m"
  "m\<lparr>reporters := reporters m\<rparr> = m"
  for m :: "('c, 'r) Manager"
  by simp_all

lemma applyLivenessChange_core:
  assumes "range_order ord" "Map_wf (reporters m)" "is_flag (livePtr m)"
  shows "core (applyLivenessChange ops ord c b m) =
    (core m)\<lparr>livePtr := flag b, reporters := tell (isLive m \<noteq> b) (r_SetLiveness ops c b) (reporters m)\<rparr>"
proof -
  have "livePtr m = flag (isLive m)"
    using assms(3) by (auto simp: is_flag_def isLive_def)
  with assms(1,2) show ?thesis
    by (auto simp: applyLivenessChange_def setLive_eq tell_def core_def)
qed

lemma applyReadinessChange_core:
  assumes "range_order ord" "Map_wf (reporters m)" "readyPtr m = flag reported"
    "allChecksRan m \<noteq> 0" "startupDone m \<noteq> 0"
  shows "core (applyReadinessChange ops ord c reported b m) =
    (core m)\<lparr>readyPtr := flag b, reporters := tell (reported \<noteq> b) (r_SetReadiness ops c b) (reporters m)\<rparr>"
  using assms by (auto simp: applyReadinessChange_def setReady_eq tell_def core_def)

text \<open>
  The whole of \<^verbatim>\<open>evaluateFitness\<close> in one equation.  \<open>up\<close>: startup completes in this call;
  \<open>first\<close>: this is the call that flips readiness for the first time.
\<close>

definition fitness_result ::
    "'r Reporter_ops \<Rightarrow> ctx \<Rightarrow> ('c, 'r) Manager \<Rightarrow> ('c, 'r) Manager" where
  "fitness_result ops c m =
     (let up = (startupDone m = 0);
          L = all_live m;
          R = (all_ready m \<and> all_live m);
          first = (all_ready m \<and> initialReady m = 0)
      in m\<lparr>startupDone := (if up then 1 else startupDone m),
           startupPtr := (if up then 1 else startupPtr m),
           initialReady := (if first then 1 else initialReady m),
           livePtr := flag L,
           readyPtr := flag R,
           reporters :=
             tell ((first \<or> isReady m) \<noteq> R) (r_SetReadiness ops c R)
              (tell (isLive m \<noteq> L) (r_SetLiveness ops c L)
                (tell (first \<and> \<not> isReady m) (r_SetReadiness ops c True)
                  (tell (up \<and> startupPtr m \<noteq> 1) (r_SetStartup ops c True) (reporters m))))\<rparr>)"

lemma all_live_cong: "checkResults m = checkResults m' \<Longrightarrow> all_live m = all_live m'"
  by (simp add: all_live_def)

lemma all_ready_cong: "checkResults m = checkResults m' \<Longrightarrow> all_ready m = all_ready m'"
  by (simp add: all_ready_def)

lemma flags_okD:
  assumes "flags_ok m"
  shows "is_flag (livePtr m)" "is_flag (readyPtr m)" "is_flag (startupDone m)" "is_flag (startupPtr m)"
    "is_flag (allChecksRan m)" "is_flag (initialReady m)" "is_flag (runningPtr m)"
  using assms by (simp_all add: flags_ok_def)

text \<open>The part of \<^verbatim>\<open>evaluateFitness\<close> after the startup gate.\<close>

lemma fitness_tail_core:
  assumes ord: "range_order ord" and wf: "mgr_wf m" and fl: "flags_ok m"
    and run: "running m" and ran: "allChecksRan m \<noteq> 0" and sdone: "startupDone m \<noteq> 0"
  shows "core (evaluateFitness ops ord c m) = core (fitness_result ops c m)"
proof -
  let ?L = "all_live m" and ?R = "all_ready m"
  let ?first = "?R \<and> initialReady m = 0"
  define m2 where "m2 = (if ?first
    then m\<lparr>initialReady := 1, readyPtr := 1,
           reporters := tell (\<not> isReady m) (r_SetReadiness ops c True) (reporters m)\<rparr> else m)"
  have rdy: "readyPtr m = flag (isReady m)"
    using flags_okD(2) [OF fl] by (auto simp: is_flag_def isReady_def)
  have init: "initialReady m \<noteq> 0 \<Longrightarrow> initialReady m = 1"
    using flags_okD(6) [OF fl] by (auto simp: is_flag_def)
  have "evaluateFitness ops ord c m =
      applyReadinessChange ops ord c (?first \<or> isReady m) (?R \<and> ?L) (applyLivenessChange ops ord c ?L m2)"
    using assms rdy
    by (auto simp: evaluateFitness_def evaluateStartup_eq aggregateResults_eq CompareAndSwapUint32_def
        setReady_eq mgr_wf_def m2_def isReady_def Let_def)
  moreover have m2: "Map_wf (reporters m2)" "livePtr m2 = livePtr m" "isLive m2 = isLive m"
      "readyPtr m2 = flag (?first \<or> isReady m)" "allChecksRan m2 = allChecksRan m"
      "startupDone m2 = startupDone m"
    using wf rdy by (auto simp: m2_def mgr_wf_def isLive_def)
  let ?m3 = "applyLivenessChange ops ord c ?L m2"
  have m3: "core ?m3 = (core m2)\<lparr>livePtr := flag ?L,
      reporters := tell (isLive m \<noteq> ?L) (r_SetLiveness ops c ?L) (reporters m2)\<rparr>"
    using applyLivenessChange_core [OF ord m2(1)] flags_okD(1) [OF fl] m2(2,3) by simp
  have m3f: "readyPtr ?m3 = flag (?first \<or> isReady m)" "allChecksRan ?m3 = allChecksRan m"
      "startupDone ?m3 = startupDone m"
      "reporters ?m3 = tell (isLive m \<noteq> ?L) (r_SetLiveness ops c ?L) (reporters m2)"
    using arg_cong [OF m3, of readyPtr] arg_cong [OF m3, of allChecksRan]
      arg_cong [OF m3, of startupDone] arg_cong [OF m3, of reporters] m2 by simp_all
  have "core (applyReadinessChange ops ord c (?first \<or> isReady m) (?R \<and> ?L) ?m3) =
      (core ?m3)\<lparr>readyPtr := flag (?R \<and> ?L),
        reporters := tell ((?first \<or> isReady m) \<noteq> (?R \<and> ?L)) (r_SetReadiness ops c (?R \<and> ?L)) (reporters ?m3)\<rparr>"
    by (rule applyReadinessChange_core) (use ord m3f m2(1) ran sdone in simp_all)
  ultimately show ?thesis
    unfolding m3 m3f(4) using sdone
    by (auto simp: fitness_result_def Let_def m2_def tell_def core_def)
qed

lemma evaluateFitness_core:
  assumes ord: "range_order ord" and wf: "mgr_wf m" and fl: "flags_ok m"
  shows "core (evaluateFitness ops ord c m) =
    (if gate_open m then core (fitness_result ops c m) else core m)"
proof (cases "gate_open m \<and> startupDone m = 0")
  case True
  let ?m1 = "mgr_log LevelInfo ''startup complete'' []
     (m\<lparr>startupDone := 1, startupPtr := 1,
        reporters := tell (startupPtr m \<noteq> 1) (r_SetStartup ops c True) (reporters m)\<rparr>)"
  have A: "evaluateFitness ops ord c m = evaluateFitness ops ord c ?m1"
    using True wf ord
    by (simp add: evaluateFitness_def evaluateStartup_eq gate_open_def mgr_wf_def running_def)
  have B: "core (evaluateFitness ops ord c ?m1) = core (fitness_result ops c ?m1)"
    using True wf fl
    by (intro fitness_tail_core [OF ord]) (simp_all add: mgr_wf_def flags_ok_def gate_open_def running_def)
  have C: "core (fitness_result ops c ?m1) = core (fitness_result ops c m)"
    using True by (simp add: fitness_result_def Let_def all_live_def all_ready_def core_def mgr_log_def
        isReady_def isLive_def)
  show ?thesis unfolding A B C using True by simp
next
  case False
  show ?thesis
  proof (cases "gate_open m")
    case True
    with False fitness_tail_core [OF ord wf fl] show ?thesis by (auto simp: gate_open_def)
  next
    case gate: False
    then show ?thesis
      using wf ord by (auto simp: evaluateFitness_def evaluateStartup_eq gate_open_def)
  qed
qed

section \<open>The logger is never unset\<close>

lemma logger_set [simp]:
  "m_Logger (notify ord f m) = m_Logger m"
  "m_Logger (snd (setLive ops ord c b m)) = m_Logger m"
  "m_Logger (snd (setReady ops ord c b m)) = m_Logger m"
  "m_Logger (snd (setStartup ops ord c b m)) = m_Logger m"
  by (simp_all add: notify_def setLive_def setReady_def setStartup_def Let_def)

lemma logger_apply [simp]:
  "m_Logger (applyLivenessChange ops ord c b m) = None \<longleftrightarrow> m_Logger m = None"
  "m_Logger (applyReadinessChange ops ord c b' b m) = None \<longleftrightarrow> m_Logger m = None"
  "m_Logger (snd (evaluateStartup ops ord c m)) = None \<longleftrightarrow> m_Logger m = None"
  by (simp_all add: applyLivenessChange_def applyReadinessChange_def evaluateStartup_def Let_def)

lemma logger_evaluateFitness [simp]:
  "m_Logger (evaluateFitness ops ord c m) = None \<longleftrightarrow> m_Logger m = None"
proof -
  obtain ok m1 where "evaluateStartup ops ord c m = (ok, m1)" by fastforce
  moreover from this have "m_Logger m1 = None \<longleftrightarrow> m_Logger m = None"
    using logger_apply(3) [of ops ord c m] by simp
  ultimately show ?thesis
    by (auto simp: evaluateFitness_def Let_def split: prod.splits if_splits bool.splits)
qed

section \<open>The invariant is kept\<close>

text \<open>\<^const>\<open>mgr_inv\<close> depends on the log only through its last clause.\<close>

lemma mgr_inv_cong:
  assumes "core m = core m'" "m_Logger m = None \<longleftrightarrow> m_Logger m' = None"
  shows "mgr_inv m = mgr_inv m'"
proof -
  have "reporters m = reporters m'" "checkers m = checkers m'" "checkResults m = checkResults m'"
    "checkFunnel m = checkFunnel m'" "errChan m = errChan m'" "runningPtr m = runningPtr m'"
    "livePtr m = livePtr m'" "readyPtr m = readyPtr m'" "startupPtr m = startupPtr m'"
    "allChecksRan m = allChecksRan m'" "initialReady m = initialReady m'" "startupDone m = startupDone m'"
    using assms(1) by (metis core_fields)+
  with assms(2) show ?thesis
    by (simp add: mgr_inv_def mgr_wf_def flags_ok_def tallies_ok_def isReady_def isLive_def running_def)
qed

lemma mgr_invD:
  assumes "mgr_inv m"
  shows "mgr_wf m" "flags_ok m" "tallies_ok m" "startupPtr m = startupDone m"
    "Map_wf (reporters m)" "Map_wf (checkers m)" "Map_wf (checkResults m)"
  using assms by (simp_all add: mgr_inv_def mgr_wf_def)

lemma mgr_inv_zero [simp]: "mgr_inv Manager_zero"
  by (simp add: mgr_inv_def mgr_wf_def flags_ok_def tallies_ok_def Manager_zero_def isReady_def running_def)

lemma mgr_inv_log [simp]: "mgr_inv (mgr_log l s a m) = mgr_inv m"
  by (rule mgr_inv_cong) simp_all

lemma all_ready_imp_live: "tallies_ok m \<Longrightarrow> all_ready m \<Longrightarrow> all_live m"
  by (auto simp: tallies_ok_def all_ready_def all_live_def)

lemma mgr_inv_fitness_result:
  assumes "mgr_inv m" "gate_open m"
  shows "mgr_inv (fitness_result ops c m)"
proof -
  have "is_flag (allChecksRan m)" "is_flag (startupDone m)"
    using assms(1) by (simp_all add: mgr_inv_def flags_ok_def)
  then show ?thesis
    using assms
    by (auto simp: mgr_inv_def mgr_wf_def flags_ok_def tallies_ok_def fitness_result_def Let_def
        isReady_def isLive_def running_def gate_open_def is_flag_def)
qed

lemma mgr_inv_evaluateFitness [simp]:
  assumes "range_order ord" "mgr_inv m"
  shows "mgr_inv (evaluateFitness ops ord c m)"
proof -
  have eq: "core (evaluateFitness ops ord c m) =
      (if gate_open m then core (fitness_result ops c m) else core m)"
    using assms by (simp add: evaluateFitness_core mgr_invD)
  show ?thesis
  proof (cases "gate_open m")
    case True
    have "mgr_inv (evaluateFitness ops ord c m) = mgr_inv (fitness_result ops c m)"
      by (rule mgr_inv_cong) (simp_all add: eq True, simp add: fitness_result_def Let_def)
    with True assms show ?thesis by (simp add: mgr_inv_fitness_result)
  next
    case False
    have "mgr_inv (evaluateFitness ops ord c m) = mgr_inv m"
      by (rule mgr_inv_cong) (simp_all add: eq False)
    with assms show ?thesis by simp
  qed
qed

lemma tally_ok [simp]: "cancelLive (tally hc) \<Longrightarrow> cancelReady (tally hc)"
  by (auto simp: tally_def split: Status.splits if_splits)

lemma mgr_inv_store_result [simp]: "mgr_inv m \<Longrightarrow> mgr_inv (store_result name (tally hc) m)"
  by (auto simp: mgr_inv_def store_result_def Let_def mgr_wf_def flags_ok_def tallies_ok_def
      isReady_def isLive_def running_def)

lemma mgr_inv_notify [simp]: "range_order ord \<Longrightarrow> mgr_inv m \<Longrightarrow> mgr_inv (notify ord f m)"
  by (simp add: notify_eq mgr_invD)
    (simp add: mgr_inv_def mgr_wf_def flags_ok_def tallies_ok_def isReady_def isLive_def running_def)

lemma mgr_inv_processHealthCheck [simp]:
  "range_order ord \<Longrightarrow> mgr_inv m \<Longrightarrow> mgr_inv (processHealthCheck ops ord c hco m)"
  by (simp add: processHealthCheck_def Let_def split: option.split)

lemma mgr_inv_loop_body [simp]:
  "range_order ord \<Longrightarrow> mgr_inv m \<Longrightarrow> mgr_inv (loop_body ops ord c hc m)"
  by (simp add: loop_body_def)

lemma mgr_inv_AddCheck [simp]: "mgr_inv m \<Longrightarrow> mgr_inv (snd (AddCheck name ch opts m))"
  by (simp add: AddCheck_def Let_def)
    (simp add: mgr_inv_def mgr_wf_def flags_ok_def tallies_ok_def isReady_def isLive_def running_def)

lemma mgr_inv_AddReporter [simp]: "mgr_inv m \<Longrightarrow> mgr_inv (snd (AddReporter name r m))"
  by (simp add: AddReporter_def Let_def)
    (simp add: mgr_inv_def mgr_wf_def flags_ok_def tallies_ok_def isReady_def isLive_def running_def)

lemma mgr_inv_setReady_False:
  "range_order ord \<Longrightarrow> mgr_inv m \<Longrightarrow> mgr_inv (snd (setReady ops ord c False m))"
  by (simp add: setReady_eq mgr_invD)
    (simp add: mgr_inv_def mgr_wf_def flags_ok_def tallies_ok_def isReady_def isLive_def running_def)

lemma mgr_inv_setLive_True:
  "range_order ord \<Longrightarrow> mgr_inv m \<Longrightarrow> mgr_inv (snd (setLive ops ord c True m))"
  by (simp add: setLive_eq mgr_invD)
    (simp add: mgr_inv_def mgr_wf_def flags_ok_def tallies_ok_def isReady_def isLive_def running_def)

lemma initStartupState_eq:
  assumes "range_order ord" "mgr_wf m"
  shows "initStartupState ops ord c m =
    (if \<exists>k w. Map_Get (checkers m) k = Some w \<and> opt_AffectsStartup (w_opts w) then m
     else m\<lparr>startupDone := 1, startupPtr := 1,
            reporters := tell (startupPtr m \<noteq> 1) (r_SetStartup ops c True) (reporters m)\<rparr>)"
proof -
  have "Map_wf (checkers m)" "Map_wf (reporters m)"
    using assms(2) by (simp_all add: mgr_wf_def)
  then show ?thesis
    using assms(1)
    by (auto simp: initStartupState_def Map_Each_ex [where P = "\<lambda>_ w. opt_AffectsStartup (w_opts w)"]
        setStartup_eq)
qed

lemma mgr_inv_initStartupState [simp]:
  "range_order ord \<Longrightarrow> mgr_inv m \<Longrightarrow> mgr_inv (initStartupState ops ord c m)"
  by (simp add: initStartupState_eq mgr_invD)
    (auto simp add: mgr_inv_def mgr_wf_def flags_ok_def tallies_ok_def isReady_def isLive_def running_def)

lemma mgr_inv_reporters:
  "mgr_inv m \<Longrightarrow> Map_wf rs \<Longrightarrow> mgr_inv (m\<lparr>reporters := rs\<rparr>)"
  by (simp add: mgr_inv_def mgr_wf_def flags_ok_def tallies_ok_def isReady_def isLive_def running_def)

lemma mgr_inv_checkFunnel [simp]: "mgr_inv m \<Longrightarrow> mgr_inv (m\<lparr>checkFunnel := Some ch\<rparr>)"
  by (simp add: mgr_inv_def mgr_wf_def flags_ok_def tallies_ok_def isReady_def isLive_def running_def)

text \<open>The reporters after \<^verbatim>\<open>dispatchReporters\<close>: the same names, each run at most once.\<close>

lemma dispatchReporters_reporters:
  assumes "Map_wf (reporters m)"
  shows "\<exists>rs. snd (dispatchReporters ops ord c m) = m\<lparr>reporters := rs\<rparr> \<and> Map_wf rs \<and>
    (\<forall>k. Map_Get rs k = None \<longleftrightarrow> Map_Get (reporters m) k = None) \<and>
    (\<forall>k r'. Map_Get rs k = Some r' \<longrightarrow>
       (\<exists>r. Map_Get (reporters m) k = Some r \<and> (r' = r \<or> r' = snd (r_Run ops c r))))"
proof -
  let ?fn = "\<lambda>k r (outErr, rs). case r_Run ops c r of
      (Some startErr, r') \<Rightarrow> (False, (Some startErr, Map_Set k r' rs))
    | (None, r') \<Rightarrow> (True, (outErr, Map_Set k r' rs))"
  let ?I = "\<lambda>s. Map_wf (snd s) \<and> (\<forall>k. Map_Get (snd s) k = None \<longleftrightarrow> Map_Get (reporters m) k = None) \<and>
    (\<forall>k r'. Map_Get (snd s) k = Some r' \<longrightarrow>
       (\<exists>r. Map_Get (reporters m) k = Some r \<and> (r' = r \<or> r' = snd (r_Run ops c r))))"
  have "?I (Map_Each ord ?fn (reporters m) (None, reporters m))"
    by (rule Map_Each_invariant)
      (use assms in \<open>auto split: prod.splits option.splits if_splits\<close>)
  then show ?thesis
    by (intro exI [of _ "snd (Map_Each ord ?fn (reporters m) (None, reporters m))"])
      (auto simp: dispatchReporters_def split: prod.splits)
qed

section \<open>Stopping and starting\<close>

text \<open>What one reporter's \<^verbatim>\<open>Stop\<close> contributes to the error of the manager's.\<close>

definition stop_error :: "string \<Rightarrow> go_error option \<Rightarrow> go_error list" where
  "stop_error key rErr =
     (case rErr of
        None \<Rightarrow> []
      | Some e \<Rightarrow> if errors_Is e Canceled then []
                  else [Errorf_w (''reporter '' @ [CHR 0x27] @ key @ [CHR 0x27] @ '' failed to stop: '') e])"

definition stop_errors :: "'r Reporter_ops \<Rightarrow> string rorder \<Rightarrow> ctx \<Rightarrow> (string, 'r) syncmap \<Rightarrow> go_error list" where
  "stop_errors ops ord c rs =
     concat (map (\<lambda>x. stop_error (fst x) (fst (r_Stop ops c (snd x)))) (range_entries ord (gomap_entries (sm_data rs))))"

lemma fold_append_concat: "fold (\<lambda>x acc. acc @ f x) xs a = a @ concat (map f xs)"
  by (induction xs arbitrary: a) simp_all

lemma Map_update_values_Stop_entries:
  "range_order ord \<Longrightarrow> Map_wf rs \<Longrightarrow>
   Map_Each ord
     (\<lambda>key r (errs, rs).
        case r_Stop ops c r of
          (rErr, r') \<Rightarrow>
            (True,
             (case rErr of
                None \<Rightarrow> errs
              | Some e \<Rightarrow>
                  if errors_Is e Canceled then errs
                  else errs @ [Errorf_w (''reporter '' @ [CHR 0x27] @ key @ [CHR 0x27] @ '' failed to stop: '') e],
              Map_Set key r' rs)))
     rs ([], rs) =
   (stop_errors ops ord c rs, Map_update_values (\<lambda>r. snd (r_Stop ops c r)) rs)"
proof -
  assume ord: "range_order ord" and wf: "Map_wf rs"
  have fn: "(\<lambda>key r (errs, rs).
        case r_Stop ops c r of
          (rErr, r') \<Rightarrow>
            (True,
             (case rErr of
                None \<Rightarrow> errs
              | Some e \<Rightarrow>
                  if errors_Is e Canceled then errs
                  else errs @ [Errorf_w (''reporter '' @ [CHR 0x27] @ key @ [CHR 0x27] @ '' failed to stop: '') e],
              Map_Set key r' rs))) =
      (\<lambda>key r s. (True, (fst s @ stop_error key (fst (r_Stop ops c r)),
         Map_Set key (snd (r_Stop ops c r)) (snd s))))"
    by (auto simp: fun_eq_iff stop_error_def split: prod.splits option.splits)
  show ?thesis
    unfolding fn
    using Map_Each_update_acc [OF ord wf, of "\<lambda>key r errs. errs @ stop_error key (fst (r_Stop ops c r))"
        "\<lambda>r. snd (r_Stop ops c r)" "[]"]
    by (simp add: stop_errors_def fold_append_concat)
qed

text \<open>\<^verbatim>\<open>Stop\<close> in closed form.\<close>

lemma Manager_Stop_eq:
  assumes "range_order ord" "Map_wf (reporters m)"
  shows "Manager_Stop ops ord c m =
    (if \<not> running m then (None, m)
     else
       let rs = tell (readyPtr m \<noteq> 0) (r_SetReadiness ops c False) (reporters m);
           errs = stop_errors ops ord c rs
       in (if errs = [] then None
           else Some (WrapError (''health.manager.std: '' @ error_text (errors_Join errs))
                       [Sentinel ErrHealth, errors_Join errs]),
           m\<lparr>runningPtr := 0, readyPtr := 0,
             reporters := Map_update_values (\<lambda>r. snd (r_Stop ops c r)) rs\<rparr>))"
  using assms
  by (simp add: Manager_Stop_def CompareAndSwapUint32_def running_def Let_def setReady_eq
      Map_update_values_Stop_entries)

lemma mgr_inv_Stop [simp]:
  "range_order ord \<Longrightarrow> mgr_inv m \<Longrightarrow> mgr_inv (snd (Manager_Stop ops ord c m))"
  by (simp add: Manager_Stop_eq mgr_invD Let_def)
    (auto simp: mgr_inv_def mgr_wf_def flags_ok_def tallies_ok_def isReady_def isLive_def running_def)

lemma initInternals_fields [simp]:
  "reporters (initInternals m) = reporters m" "checkers (initInternals m) = checkers m"
  "checkResults (initInternals m) = checkResults m" "runningPtr (initInternals m) = runningPtr m"
  "livePtr (initInternals m) = livePtr m" "readyPtr (initInternals m) = readyPtr m"
  "startupPtr (initInternals m) = startupPtr m" "allChecksRan (initInternals m) = allChecksRan m"
  "initialReady (initInternals m) = initialReady m" "startupDone (initInternals m) = startupDone m"
  "m_Logger (initInternals m) \<noteq> None" "checkFunnel (initInternals m) \<noteq> None"
  "errChan (initInternals m) \<noteq> None"
  by (simp_all add: initInternals_def Let_def split: option.splits)

lemma mgr_inv_initInternals:
  "mgr_inv m \<Longrightarrow> mgr_inv (initInternals (m\<lparr>runningPtr := v\<rparr>))" if "is_flag v"
  using that
  by (simp add: mgr_inv_def mgr_wf_def flags_ok_def tallies_ok_def isReady_def isLive_def running_def)

text \<open>\<^verbatim>\<open>Run\<close> up to the start of the goroutines changes the reporters and the internals only.\<close>

lemma validateAndStart_mgr:
  assumes "Map_wf (reporters m)"
  shows "\<exists>rs. snd (snd (validateAndStart ops ord c m)) = m\<lparr>reporters := rs\<rparr> \<and> Map_wf rs \<and>
    (\<forall>k. Map_Get rs k = None \<longleftrightarrow> Map_Get (reporters m) k = None) \<and>
    (\<forall>k r'. Map_Get rs k = Some r' \<longrightarrow>
       (\<exists>r. Map_Get (reporters m) k = Some r \<and> (r' = r \<or> r' = snd (r_Run ops c r))))"
proof (cases "Map_Size (checkers m) = 0 \<or> Map_Size (reporters m) = 0")
  case True
  then show ?thesis
    using assms by (intro exI [of _ "reporters m"]) (auto simp: validateAndStart_def)
next
  case False
  then have "snd (snd (validateAndStart ops ord c m)) = snd (dispatchReporters ops ord c m)"
    by (auto simp: validateAndStart_def split: prod.splits option.splits)
  with dispatchReporters_reporters [OF assms] show ?thesis by simp
qed

lemma Run_start_cases:
  assumes "Map_wf (reporters m)"
  obtains (already) "runningPtr m \<noteq> 0" "Run_start ops ord c m = (RunAlready, m)"
  | (failed) err rs ch m1 where "runningPtr m = 0"
      "m1 = (initInternals (m\<lparr>runningPtr := 1\<rparr>))\<lparr>reporters := rs\<rparr>"
      "Run_start ops ord c m = (RunFailed err, m1\<lparr>errChan := Some (ch\<lparr>ch_buf := ch_buf ch @ [err]\<rparr>), runningPtr := 0\<rparr>)"
      "errChan m1 = Some ch" "length (ch_buf ch) < ch_cap ch" "Map_wf rs"
      "\<And>k. Map_Get rs k = None \<longleftrightarrow> Map_Get (reporters m) k = None"
      "\<And>k r'. Map_Get rs k = Some r' \<Longrightarrow>
        \<exists>r. Map_Get (reporters m) k = Some r \<and> (r' = r \<or> r' = snd (r_Run ops c r))"
  | (blocked) err rs where "runningPtr m = 0"
      "Run_start ops ord c m = (RunBlocked err, (initInternals (m\<lparr>runningPtr := 1\<rparr>))\<lparr>reporters := rs\<rparr>)"
      "Map_wf rs" "\<And>k. Map_Get rs k = None \<longleftrightarrow> Map_Get (reporters m) k = None"
      "\<And>k r'. Map_Get rs k = Some r' \<Longrightarrow>
        \<exists>r. Map_Get (reporters m) k = Some r \<and> (r' = r \<or> r' = snd (r_Run ops c r))"
  | (started) gs rs where "runningPtr m = 0"
      "Run_start ops ord c m = (RunStarted gs, (initInternals (m\<lparr>runningPtr := 1\<rparr>))\<lparr>reporters := rs\<rparr>)"
      "validateAndStart ops ord c (initInternals (m\<lparr>runningPtr := 1\<rparr>)) =
         (None, gs, (initInternals (m\<lparr>runningPtr := 1\<rparr>))\<lparr>reporters := rs\<rparr>)"
      "Map_wf rs" "\<And>k. Map_Get rs k = None \<longleftrightarrow> Map_Get (reporters m) k = None"
      "\<And>k r'. Map_Get rs k = Some r' \<Longrightarrow>
        \<exists>r. Map_Get (reporters m) k = Some r \<and> (r' = r \<or> r' = snd (r_Run ops c r))"
proof (cases "runningPtr m = 0")
  case False
  then show ?thesis using already by (simp add: Run_start_def)
next
  case True
  let ?m0 = "initInternals (m\<lparr>runningPtr := 1\<rparr>)"
  obtain rs where rs: "snd (snd (validateAndStart ops ord c ?m0)) = ?m0\<lparr>reporters := rs\<rparr>" "Map_wf rs"
      "\<And>k. Map_Get rs k = None \<longleftrightarrow> Map_Get (reporters m) k = None"
      "\<And>k r'. Map_Get rs k = Some r' \<Longrightarrow>
         \<exists>r. Map_Get (reporters m) k = Some r \<and> (r' = r \<or> r' = snd (r_Run ops c r))"
    using validateAndStart_mgr [of ?m0 ops ord c] assms by auto
  then obtain oe gs where v: "validateAndStart ops ord c ?m0 = (oe, gs, ?m0\<lparr>reporters := rs\<rparr>)"
    by (metis prod.collapse)
  show ?thesis
  proof (cases oe)
    case None
    show ?thesis
      by (rule started [of gs rs]) (use True v None rs in \<open>simp_all add: Run_start_def\<close>)
  next
    case (Some err)
    obtain ch where ch: "errChan ?m0 = Some ch"
      using initInternals_fields(13) by blast
    show ?thesis
    proof (cases "length (ch_buf ch) < ch_cap ch")
      case True
      show ?thesis
        by (rule failed [of "?m0\<lparr>reporters := rs\<rparr>" rs err ch])
          (use \<open>runningPtr m = 0\<close> True v Some rs ch in \<open>simp_all add: Run_start_def\<close>)
    next
      case False
      show ?thesis
        by (rule blocked [of err rs])
          (use \<open>runningPtr m = 0\<close> False v Some rs ch in \<open>simp_all add: Run_start_def\<close>)
    qed
  qed
qed

lemma mgr_inv_Run_start [simp]:
  assumes "mgr_inv m"
  shows "mgr_inv (snd (Run_start ops ord c m))"
  using mgr_invD(5) [OF assms]
proof (cases rule: Run_start_cases [where ops = ops and ord = ord and c = c])
  case (failed err rs ch m1)
  have "mgr_inv m1"
    unfolding failed(2) using failed(6) assms
    by (simp add: mgr_inv_reporters mgr_inv_initInternals)
  with failed(3) show ?thesis
    by (simp add: mgr_inv_def mgr_wf_def flags_ok_def tallies_ok_def isReady_def isLive_def running_def)
qed (use assms in \<open>simp_all add: mgr_inv_reporters mgr_inv_initInternals\<close>)

lemma mgr_inv_Run_finish [simp]:
  "range_order ord \<Longrightarrow> mgr_inv m \<Longrightarrow> mgr_inv (Run_finish ops ord c m)"
  by (simp add: Run_finish_def mgr_inv_setLive_True)

lemma safeCheck_core [simp]: "core (snd (safeCheck name now out m)) = core m"
  "m_Logger (snd (safeCheck name now out m)) = None \<longleftrightarrow> m_Logger m = None"
  by (auto simp: safeCheck_def split: check_outcome.splits option.splits)

lemma mgr_inv_safeCheck [simp]: "mgr_inv (snd (safeCheck name now out m)) = mgr_inv m"
  by (rule mgr_inv_cong) simp_all

end
