(* ===== verification/Manager_Spec.thy ===== *)
theory Manager_Spec
  imports Manager_Fitness
begin

text \<open>
  What the manager promises about its probes, as a specification with no flags, tallies or
  iteration, and the refinement: the body of the manager's loop, applied to a received result,
  simulates the specification's report of that result.
\<close>

section \<open>The specification\<close>

record probe_spec =
  sp_checks :: "string \<Rightarrow> AddCheckOptions option"
  sp_latest :: "string \<Rightarrow> CheckResult option"
  sp_reported :: bool
  sp_started :: bool
  sp_live :: bool
  sp_ready :: bool

definition fails_live :: "CheckResult \<Rightarrow> bool" where
  "fails_live hc \<longleftrightarrow> hc_Status hc = StatusUnhealthy \<and> hc_AffectsLiveness hc"

definition fails_ready :: "CheckResult \<Rightarrow> bool" where
  "fails_ready hc \<longleftrightarrow> hc_Status hc = StatusUnhealthy \<and> (hc_AffectsLiveness hc \<or> hc_AffectsReadiness hc)"

definition latest_live :: "(string \<Rightarrow> CheckResult option) \<Rightarrow> bool" where
  "latest_live latest \<longleftrightarrow> (\<forall>k hc. latest k = Some hc \<longrightarrow> \<not> fails_live hc)"

definition latest_ready :: "(string \<Rightarrow> CheckResult option) \<Rightarrow> bool" where
  "latest_ready latest \<longleftrightarrow> (\<forall>k hc. latest k = Some hc \<longrightarrow> \<not> fails_ready hc)"

definition latest_startup ::
    "(string \<Rightarrow> AddCheckOptions option) \<Rightarrow> (string \<Rightarrow> CheckResult option) \<Rightarrow> bool" where
  "latest_startup checks latest \<longleftrightarrow>
     (\<forall>k opts. checks k = Some opts \<longrightarrow> opt_AffectsStartup opts \<longrightarrow>
        (\<exists>hc. latest k = Some hc \<and> \<not> fails_ready hc))"

text \<open>
  A report: the result becomes its check's latest; from the moment every check has reported, the
  startup gate is tried until it opens; behind the open gate the probes follow the latest results.
\<close>

definition spec_store :: "CheckResult \<Rightarrow> probe_spec \<Rightarrow> probe_spec" where
  "spec_store hc s =
     (let latest = (sp_latest s)(hc_Name hc \<mapsto> hc)
      in s\<lparr>sp_latest := latest, sp_reported := (sp_reported s \<or> dom latest = dom (sp_checks s))\<rparr>)"

definition spec_eval :: "probe_spec \<Rightarrow> probe_spec" where
  "spec_eval s =
     (if sp_reported s \<and> (sp_started s \<or> latest_startup (sp_checks s) (sp_latest s))
      then s\<lparr>sp_started := True, sp_live := latest_live (sp_latest s), sp_ready := latest_ready (sp_latest s)\<rparr>
      else s)"

definition spec_report :: "CheckResult \<Rightarrow> probe_spec \<Rightarrow> probe_spec" where
  "spec_report hc s = spec_eval (spec_store hc s)"

definition mgr_sim :: "('c, 'r) Manager \<Rightarrow> probe_spec \<Rightarrow> bool" where
  "mgr_sim m s \<longleftrightarrow>
     mgr_inv m \<and> running m \<and> dom (sp_latest s) \<subseteq> dom (sp_checks s) \<and>
     (\<forall>k. sp_checks s k = map_option w_opts (Map_Get (checkers m) k)) \<and>
     (\<forall>k. Map_Get (checkResults m) k = map_option tally (sp_latest s k)) \<and>
     (sp_reported s \<longleftrightarrow> allChecksRan m = 1) \<and> (sp_started s \<longleftrightarrow> startupDone m = 1) \<and>
     (sp_live s \<longleftrightarrow> isLive m) \<and> (sp_ready s \<longleftrightarrow> isReady m)"

section \<open>Tallies and latest results\<close>

lemma tally_cancel [simp]:
  "cancelLive (tally hc) \<longleftrightarrow> fails_live hc" "cancelReady (tally hc) \<longleftrightarrow> fails_ready hc"
  by (auto simp: tally_def fails_live_def fails_ready_def split: Status.splits)

lemma fails_live_ready: "fails_live hc \<Longrightarrow> fails_ready hc"
  by (auto simp: fails_live_def fails_ready_def)

lemma latest_ready_live: "latest_ready l \<Longrightarrow> latest_live l"
  by (auto simp: latest_ready_def latest_live_def dest: fails_live_ready)

lemma all_live_latest:
  "(\<forall>k. Map_Get (checkResults m) k = map_option tally (latest k)) \<Longrightarrow> all_live m = latest_live latest"
  by (fastforce simp: all_live_def latest_live_def)

lemma all_ready_latest:
  "(\<forall>k. Map_Get (checkResults m) k = map_option tally (latest k)) \<Longrightarrow> all_ready m = latest_ready latest"
  by (fastforce simp: all_ready_def latest_ready_def)

lemma startup_ok_latest:
  assumes "\<forall>k. checks k = map_option w_opts (Map_Get (checkers m) k)"
    and "\<forall>k. Map_Get (checkResults m) k = map_option tally (latest k)"
  shows "startup_ok m = latest_startup checks latest"
  using assms by (fastforce simp: startup_ok_def latest_startup_def dest: fails_live_ready)

section \<open>The two halves of the loop body\<close>

text \<open>After \<^verbatim>\<open>processHealthCheck\<close>, up to the log and the relayed reports.\<close>

lemma processHealthCheck_core:
  assumes "range_order ord" "mgr_wf m" "\<not> ctx_done c"
  shows "core (processHealthCheck ops ord c (Some hc) m) =
    (core m)\<lparr>reporters := Map_update_values (r_UpdateHealthChecks ops c [(hc_Name hc, hc)]) (reporters m),
       checkResults := Map_Set (hc_Name hc) (tally hc) (checkResults m),
       allChecksRan :=
         (if allChecksRan m = 0 \<and>
             Map_Size (Map_Set (hc_Name hc) (tally hc) (checkResults m)) = Map_Size (checkers m)
          then 1 else allChecksRan m)\<rparr>"
  using assms
  by (simp add: processHealthCheck_def Let_def notify_eq mgr_wf_def store_result_def split: option.split)

lemma all_reported_iff:
  assumes "Map_wf rs" "Map_wf cs" "dom (Map_Get rs) \<subseteq> dom (Map_Get cs)"
  shows "Map_Size rs = Map_Size cs \<longleftrightarrow> dom (Map_Get rs) = dom (Map_Get cs)"
  using assms smap2.same_size_same_keys [of cs rs] by (auto simp: Map_Size_card)

text \<open>Fields of a manager that is equal up to the log.\<close>

lemma core_eqD:
  assumes "core m = core m'"
  shows "checkers m = checkers m'" "checkResults m = checkResults m'" "runningPtr m = runningPtr m'"
    "livePtr m = livePtr m'" "readyPtr m = readyPtr m'" "allChecksRan m = allChecksRan m'"
    "startupDone m = startupDone m'" "reporters m = reporters m'" "startupPtr m = startupPtr m'"
    "initialReady m = initialReady m'" "checkFunnel m = checkFunnel m'" "errChan m = errChan m'"
  using assms by (metis core_fields)+

section \<open>Refinement\<close>

lemma mgr_simD:
  assumes "mgr_sim m s"
  shows "mgr_inv m" "running m" "dom (sp_latest s) \<subseteq> dom (sp_checks s)"
    "\<forall>k. sp_checks s k = map_option w_opts (Map_Get (checkers m) k)"
    "\<forall>k. Map_Get (checkResults m) k = map_option tally (sp_latest s k)"
    "sp_reported s \<longleftrightarrow> allChecksRan m = 1" "sp_started s \<longleftrightarrow> startupDone m = 1"
    "sp_live s \<longleftrightarrow> isLive m" "sp_ready s \<longleftrightarrow> isReady m"
  using assms by (simp_all add: mgr_sim_def)

lemma processHealthCheck_sim:
  assumes ord: "range_order ord" and sim: "mgr_sim m s" and act: "\<not> ctx_done c"
    and reg: "hc_Name hc \<in> dom (sp_checks s)"
  shows "mgr_sim (processHealthCheck ops ord c (Some hc) m) (spec_store hc s)"
proof -
  let ?m1 = "processHealthCheck ops ord c (Some hc) m"
  let ?latest = "(sp_latest s)(hc_Name hc \<mapsto> hc)"
  let ?rs = "Map_Set (hc_Name hc) (tally hc) (checkResults m)"
  note inv = mgr_simD(1) [OF sim]
  have inv1: "mgr_inv ?m1" using ord inv by simp
  note c1 = core_eqD [OF processHealthCheck_core [OF ord mgr_invD(1) [OF inv] act, of ops hc, folded core_update]]
  have dom_cs: "dom (Map_Get (checkers m)) = dom (sp_checks s)"
    using mgr_simD(4) [OF sim] by (auto simp: dom_def)
  have dom_rs: "dom (Map_Get ?rs) = dom ?latest"
    using mgr_simD(5) [OF sim] by (auto simp: dom_def)
  have sub: "dom ?latest \<subseteq> dom (sp_checks s)"
    using mgr_simD(3) [OF sim] reg by auto
  have size: "Map_Size ?rs = Map_Size (checkers m) \<longleftrightarrow> dom ?latest = dom (sp_checks s)"
    unfolding dom_rs [symmetric] dom_cs [symmetric]
    by (rule all_reported_iff) (use inv sub dom_cs dom_rs in \<open>simp_all only: Map_wf_Set mgr_invD\<close>)
  have "allChecksRan ?m1 =
      (if allChecksRan m = 0 \<and> Map_Size ?rs = Map_Size (checkers m) then 1 else allChecksRan m)"
    using c1(6) by simp
  moreover have "is_flag (allChecksRan m)" using inv by (simp add: mgr_invD flags_okD)
  ultimately have "allChecksRan ?m1 = 1 \<longleftrightarrow> sp_reported s \<or> dom ?latest = dom (sp_checks s)"
    unfolding size mgr_simD(6) [OF sim] by (auto simp: is_flag_def)
  with inv1 sub show ?thesis
    unfolding mgr_sim_def using c1 mgr_simD [OF sim]
    by (simp add: spec_store_def Let_def running_def isLive_def isReady_def)
qed

lemma gate_open_sim:
  assumes "mgr_sim m s"
  shows "gate_open m \<longleftrightarrow> sp_reported s \<and> (sp_started s \<or> latest_startup (sp_checks s) (sp_latest s))"
proof -
  have "is_flag (allChecksRan m)" "is_flag (startupDone m)"
    using mgr_simD(1) [OF assms] by (simp_all add: mgr_invD flags_okD)
  then show ?thesis
    using mgr_simD(2,6,7) [OF assms] startup_ok_latest [OF mgr_simD(4,5) [OF assms]]
    by (auto simp: gate_open_def is_flag_def)
qed

lemma evaluateFitness_sim:
  assumes ord: "range_order ord" and sim: "mgr_sim m s"
  shows "mgr_sim (evaluateFitness ops ord c m) (spec_eval s)"
proof -
  let ?m2 = "evaluateFitness ops ord c m"
  note inv = mgr_simD(1) [OF sim]
  have inv2: "mgr_inv ?m2" using ord inv by simp
  have "core ?m2 = core (if gate_open m then fitness_result ops c m else m)"
    using ord inv by (simp add: evaluateFitness_core mgr_invD)
  note f2 = core_eqD [OF this]
  have lives: "all_live m = latest_live (sp_latest s)" "all_ready m = latest_ready (sp_latest s)"
    using mgr_simD(5) [OF sim] by (simp_all add: all_live_latest all_ready_latest)
  have flag: "is_flag (startupDone m)" using inv by (simp add: mgr_invD flags_okD)
  show ?thesis
  proof (cases "gate_open m")
    case True
    then have eval: "spec_eval s = s\<lparr>sp_started := True, sp_live := latest_live (sp_latest s),
        sp_ready := latest_ready (sp_latest s)\<rparr>"
      using gate_open_sim [OF sim] by (simp add: spec_eval_def)
    show ?thesis
      unfolding mgr_sim_def eval
      using True inv2 f2 mgr_simD [OF sim] flag lives latest_ready_live [of "sp_latest s"]
      by (auto simp: fitness_result_def Let_def running_def isLive_def isReady_def is_flag_def)
  next
    case False
    then have eval: "spec_eval s = s"
      using gate_open_sim [OF sim] by (auto simp: spec_eval_def)
    show ?thesis
      unfolding mgr_sim_def eval
      using False inv2 f2 mgr_simD [OF sim] by (simp add: running_def isLive_def isReady_def)
  qed
qed

lemma loop_body_sim:
  "range_order ord \<Longrightarrow> mgr_sim m s \<Longrightarrow> \<not> ctx_done c \<Longrightarrow> hc_Name hc \<in> dom (sp_checks s) \<Longrightarrow>
   mgr_sim (loop_body ops ord c (Some hc) m) (spec_report hc s)"
  by (simp add: loop_body_def spec_report_def evaluateFitness_sim processHealthCheck_sim)

lemma spec_report_checks [simp]: "sp_checks (spec_report hc s) = sp_checks s"
  by (simp add: spec_report_def spec_eval_def spec_store_def Let_def)

lemma loop_run_sim:
  assumes "range_order ord" "mgr_sim m s" "\<not> ctx_done c"
    and "\<forall>hc\<in>set hcs. hc_Name hc \<in> dom (sp_checks s)"
  shows "mgr_sim (fold (\<lambda>hc. loop_body ops ord c (Some hc)) hcs m) (fold spec_report hcs s)"
  using assms
proof (induction hcs arbitrary: m s)
  case (Cons hc hcs)
  have "mgr_sim (loop_body ops ord c (Some hc) m) (spec_report hc s)"
    using Cons.prems by (simp add: loop_body_sim)
  with Cons show ?case by simp
qed simp

section \<open>Runs of the specification\<close>

text \<open>The last result of every check in a sequence of results.\<close>

definition latest_of :: "CheckResult list \<Rightarrow> string \<Rightarrow> CheckResult option" where
  "latest_of hcs = map_of (rev (map (\<lambda>hc. (hc_Name hc, hc)) hcs))"

lemma latest_of_snoc: "latest_of (hcs @ [hc]) = (latest_of hcs)(hc_Name hc \<mapsto> hc)"
  by (simp add: latest_of_def)

lemma dom_latest_of: "dom (latest_of hcs) = hc_Name ` set hcs"
  by (simp add: latest_of_def dom_map_of_conv_image_fst image_image)

lemma spec_report_fields:
  "sp_latest (spec_report hc s) = (sp_latest s)(hc_Name hc \<mapsto> hc)"
  "sp_reported (spec_report hc s) \<longleftrightarrow>
     sp_reported s \<or> insert (hc_Name hc) (dom (sp_latest s)) = dom (sp_checks s)"
  by (simp_all add: spec_report_def spec_eval_def spec_store_def Let_def)

lemma latest_of_Nil [simp]: "latest_of [] = Map.empty"
  by (simp add: latest_of_def)

lemma spec_run_latest: "sp_latest (fold spec_report hcs s) = sp_latest s ++ latest_of hcs"
proof (induction hcs rule: rev_induct)
  case (snoc hc hcs)
  then show ?case by (simp only: fold_append fold.simps comp_def id_apply latest_of_snoc
        spec_report_fields map_add_upd)
qed simp

lemma spec_run_checks [simp]: "sp_checks (fold spec_report hcs s) = sp_checks s"
  by (induction hcs rule: rev_induct) simp_all

lemma spec_run_started: "sp_started s \<Longrightarrow> sp_started (fold spec_report hcs s)"
  by (induction hcs rule: rev_induct) (auto simp: spec_report_def spec_eval_def spec_store_def Let_def)

text \<open>
  A run after which every check has reported, and which has started or ends with results that pass
  startup, ends with the probes of the latest results.
\<close>

lemma spec_run_probes:
  assumes start: "sp_started s \<or> latest_startup (sp_checks s) (sp_latest s ++ latest_of hcs)"
    and "hcs \<noteq> []" and all: "dom (sp_latest s ++ latest_of hcs) = dom (sp_checks s)"
  shows "sp_live (fold spec_report hcs s) = latest_live (sp_latest s ++ latest_of hcs)"
    and "sp_ready (fold spec_report hcs s) = latest_ready (sp_latest s ++ latest_of hcs)"
    and "sp_started (fold spec_report hcs s)"
proof -
  obtain hs h where hcs: "hcs = hs @ [h]" using assms(2) by (metis rev_exhaust)
  let ?s = "fold spec_report hs s"
  have lat: "sp_latest (spec_report h ?s) = sp_latest s ++ latest_of hcs"
    using spec_run_latest [of hcs s] hcs by simp
  have st: "sp_started ?s \<or> latest_startup (sp_checks ?s) (sp_latest s ++ latest_of hcs)"
    using start spec_run_started by auto
  have rep: "sp_reported (spec_report h ?s)"
  proof -
    have "insert (hc_Name h) (dom (sp_latest ?s)) = dom (sp_latest (spec_report h ?s))"
      by (simp add: spec_report_fields)
    also have "\<dots> = dom (sp_checks ?s)"
      unfolding lat all by simp
    finally show ?thesis by (simp add: spec_report_fields)
  qed
  have "sp_latest (spec_store h ?s) = sp_latest s ++ latest_of hcs"
    using lat by (simp add: spec_report_def spec_eval_def split: if_splits)
  moreover have "sp_reported (spec_store h ?s)" "sp_checks (spec_store h ?s) = sp_checks ?s"
      "sp_started (spec_store h ?s) = sp_started ?s"
    using rep by (simp_all add: spec_report_def spec_eval_def spec_store_def Let_def split: if_splits)
  ultimately have "spec_report h ?s = (spec_store h ?s)\<lparr>sp_started := True,
      sp_live := latest_live (sp_latest s ++ latest_of hcs), sp_ready := latest_ready (sp_latest s ++ latest_of hcs)\<rparr>"
    using st by (simp add: spec_report_def spec_eval_def)
  then show "sp_live (fold spec_report hcs s) = latest_live (sp_latest s ++ latest_of hcs)"
    and "sp_ready (fold spec_report hcs s) = latest_ready (sp_latest s ++ latest_of hcs)"
    and "sp_started (fold spec_report hcs s)"
    using hcs by simp_all
qed

text \<open>The specification's state of a manager that has been started and has no results yet.\<close>

definition spec_fresh :: "('c, 'r) Manager \<Rightarrow> probe_spec" where
  "spec_fresh m =
     \<lparr>sp_checks = (\<lambda>k. map_option w_opts (Map_Get (checkers m) k)), sp_latest = Map.empty,
      sp_reported = False, sp_started = (startupDone m = 1), sp_live = isLive m, sp_ready = isReady m\<rparr>"

lemma mgr_sim_fresh:
  "mgr_inv m \<Longrightarrow> running m \<Longrightarrow> Map_Get (checkResults m) = Map.empty \<Longrightarrow> allChecksRan m = 0 \<Longrightarrow>
   mgr_sim m (spec_fresh m)"
  by (simp add: mgr_sim_def spec_fresh_def)

end
