(* ===== verification/Manager_Sync.thy ===== *)
theory Manager_Sync
  imports Manager_Spec
begin

text \<open>
  The manager as a client of the reporter interface: inside the locale \<open>reporter\<close>, every method
  of the manager keeps all registered reporters in step with the manager's own three probes; and
  inside \<open>reporter_store\<close>, a processed result is what every reporter holds for its check.
\<close>

definition mgr_probes :: "('c, 'r) Manager \<Rightarrow> probes" where
  "mgr_probes m = \<lparr>p_live = isLive m, p_ready = isReady m, p_startup = (startupPtr m = 1)\<rparr>"

definition synced :: "('r \<Rightarrow> probes) \<Rightarrow> ('c, 'r) Manager \<Rightarrow> bool" where
  "synced view m \<longleftrightarrow> (\<forall>k r. Map_Get (reporters m) k = Some r \<longrightarrow> view r = mgr_probes m)"

lemma synced_cong:
  "reporters m = reporters m' \<Longrightarrow> livePtr m = livePtr m' \<Longrightarrow> readyPtr m = readyPtr m' \<Longrightarrow>
   startupPtr m = startupPtr m' \<Longrightarrow> synced view m = synced view m'"
  by (simp add: synced_def mgr_probes_def isLive_def isReady_def)

lemma synced_core: "core m = core m' \<Longrightarrow> synced view m = synced view m'"
  by (rule synced_cong) (auto dest: core_eqD)

lemma synced_log [simp]: "synced view (mgr_log l s a m) = synced view m"
  by (rule synced_cong) simp_all

lemma synced_zero [simp]: "synced view Manager_zero"
  by (simp add: synced_def Manager_zero_def)

lemma synced_AddCheck [simp]: "synced view (snd (AddCheck n ch opts m)) = synced view m"
  by (rule synced_cong) (simp_all add: AddCheck_def Let_def)

lemma synced_AddReporter:
  "synced view m \<Longrightarrow> view r = mgr_probes m \<Longrightarrow> synced view (snd (AddReporter n r m))"
  by (auto simp: synced_def AddReporter_def mgr_probes_def isLive_def isReady_def)

context reporter
begin

text \<open>Telling all reporters the value that a probe just took.\<close>

lemma synced_fitness_result:
  assumes "synced view m" "mgr_inv m"
  shows "synced view (fitness_result ops c m)"
proof -
  have "is_flag (startupPtr m)" using assms(2) by (simp add: mgr_invD flags_okD)
  moreover have "startupPtr m = startupDone m" using assms(2) by (simp add: mgr_invD)
  ultimately show ?thesis
    using assms(1)
    by (auto simp: synced_def fitness_result_def Let_def mgr_probes_def view_laws isLive_def isReady_def
        is_flag_def)
qed

lemma synced_evaluateFitness:
  assumes "range_order ord" "synced view m" "mgr_inv m"
  shows "synced view (evaluateFitness ops ord c m)"
proof -
  have "core (evaluateFitness ops ord c m) = core (if gate_open m then fitness_result ops c m else m)"
    using assms by (simp add: evaluateFitness_core mgr_invD)
  then have "synced view (evaluateFitness ops ord c m) =
      synced view (if gate_open m then fitness_result ops c m else m)"
    by (rule synced_core)
  then show ?thesis using assms by (simp add: synced_fitness_result)
qed

lemma synced_processHealthCheck:
  assumes "range_order ord" "synced view m" "mgr_inv m"
  shows "synced view (processHealthCheck ops ord c hco m)"
proof (cases "hco = None \<or> ctx_done c")
  case True
  then show ?thesis using assms by (auto simp: processHealthCheck_def split: option.splits)
next
  case False
  then obtain hc where hc: "hco = Some hc" by auto
  have "core (processHealthCheck ops ord c hco m) = core (store_result (hc_Name hc) (tally hc)
      (m\<lparr>reporters := Map_update_values (r_UpdateHealthChecks ops c [(hc_Name hc, hc)]) (reporters m)\<rparr>))"
    using False hc processHealthCheck_core [OF assms(1) mgr_invD(1) [OF assms(3)]]
    by (simp add: store_result_def Let_def)
  moreover have "synced view (store_result (hc_Name hc) (tally hc)
      (m\<lparr>reporters := Map_update_values (r_UpdateHealthChecks ops c [(hc_Name hc, hc)]) (reporters m)\<rparr>))"
    using assms(2)
    by (auto simp: synced_def store_result_def Let_def mgr_probes_def view_laws isLive_def isReady_def)
  ultimately show ?thesis using synced_core by blast
qed

lemma synced_loop_body:
  "range_order ord \<Longrightarrow> synced view m \<Longrightarrow> mgr_inv m \<Longrightarrow> synced view (loop_body ops ord c hco m)"
  by (simp add: loop_body_def synced_evaluateFitness synced_processHealthCheck)

lemma synced_Stop:
  assumes "range_order ord" "synced view m" "mgr_inv m"
  shows "synced view (snd (Manager_Stop ops ord c m))"
proof -
  have "is_flag (readyPtr m)" using assms(3) by (simp add: mgr_invD flags_okD)
  then show ?thesis
    using assms
    by (auto simp: Manager_Stop_eq mgr_invD Let_def synced_def mgr_probes_def view_laws isLive_def isReady_def
        is_flag_def)
qed

lemma synced_initStartupState:
  assumes "range_order ord" "synced view m" "mgr_inv m"
  shows "synced view (initStartupState ops ord c m)"
  using assms
  by (auto simp: initStartupState_eq mgr_invD synced_def mgr_probes_def view_laws isLive_def isReady_def)

lemma synced_setLive:
  assumes "range_order ord" "synced view m" "mgr_inv m"
  shows "synced view (snd (setLive ops ord c b m))"
proof -
  have "is_flag (livePtr m)" using assms(3) by (simp add: mgr_invD flags_okD)
  then show ?thesis
    using assms
    by (auto simp: setLive_eq mgr_invD synced_def mgr_probes_def view_laws isLive_def isReady_def is_flag_def)
qed

text \<open>Starting changes no probe, whichever reporters it got to run.\<close>

lemma synced_Run_start:
  assumes "synced view m" "mgr_inv m"
  shows "synced view (snd (Run_start ops ord c m))"
proof -
  have upd: "synced view (m'\<lparr>reporters := rs\<rparr>)"
    if "livePtr m' = livePtr m" "readyPtr m' = readyPtr m" "startupPtr m' = startupPtr m"
      "\<And>k r'. Map_Get rs k = Some r' \<Longrightarrow>
        \<exists>r. Map_Get (reporters m) k = Some r \<and> (r' = r \<or> r' = snd (r_Run ops c r))" for m' rs
    using that assms(1) by (fastforce simp: synced_def mgr_probes_def isLive_def isReady_def view_laws)
  show ?thesis
    using mgr_invD(5) [OF assms(2)]
  proof (cases rule: Run_start_cases [where ops = ops and ord = ord and c = c])
    case (failed err rs ch m1)
    have "synced view m1" unfolding failed(2) by (rule upd) (simp_all add: failed(8))
    with failed(3) show ?thesis by (simp add: synced_def mgr_probes_def isLive_def isReady_def)
  qed (use assms(1) in \<open>simp_all add: upd\<close>)
qed

end

context reporter_store
begin

lemma stored_after_process:
  assumes "range_order ord" "mgr_inv m" "\<not> ctx_done c" "Map_Get (reporters m) k = Some r" "accepts r"
  shows "\<exists>r'. Map_Get (reporters (processHealthCheck ops ord c (Some hc) m)) k = Some r' \<and>
    accepts r' \<and> stored r' = (stored r)(hc_Name hc \<mapsto> hc)"
proof -
  have "reporters (processHealthCheck ops ord c (Some hc) m) =
      Map_update_values (r_UpdateHealthChecks ops c [(hc_Name hc, hc)]) (reporters m)"
    using core_eqD(8) [OF processHealthCheck_core [OF assms(1) mgr_invD(1) [OF assms(2)] assms(3), folded core_update]]
    by simp
  then show ?thesis using assms(4,5) by (simp add: stored_Update store_laws)
qed

lemma stored_tell:
  assumes "\<And>r. stored (f r) = stored r" "\<And>r. accepts (f r) = accepts r" "Map_Get rs k = Some r"
  shows "\<exists>r'. Map_Get (tell b f rs) k = Some r' \<and> stored r' = stored r \<and> accepts r' = accepts r"
  using assms by (cases b) auto

lemma stored_fitness:
  assumes "Map_Get (reporters m) k = Some r"
  shows "\<exists>r'. Map_Get (reporters (fitness_result ops c m)) k = Some r' \<and>
    stored r' = stored r \<and> accepts r' = accepts r"
  using assms by (auto simp: fitness_result_def Let_def store_laws)

lemma stored_after_loop_body:
  assumes "range_order ord" "mgr_inv m" "\<not> ctx_done c" "Map_Get (reporters m) k = Some r" "accepts r"
  shows "\<exists>r'. Map_Get (reporters (loop_body ops ord c (Some hc) m)) k = Some r' \<and>
    accepts r' \<and> stored r' = (stored r)(hc_Name hc \<mapsto> hc)"
proof -
  let ?m1 = "processHealthCheck ops ord c (Some hc) m"
  obtain r1 where r1: "Map_Get (reporters ?m1) k = Some r1" "accepts r1"
      "stored r1 = (stored r)(hc_Name hc \<mapsto> hc)"
    using stored_after_process [OF assms] by blast
  have "core (evaluateFitness ops ord c ?m1) = core (if gate_open ?m1 then fitness_result ops c ?m1 else ?m1)"
    using assms by (simp add: evaluateFitness_core mgr_invD)
  then have "reporters (loop_body ops ord c (Some hc) m) =
      reporters (if gate_open ?m1 then fitness_result ops c ?m1 else ?m1)"
    unfolding loop_body_def by (rule core_eqD(8))
  then show ?thesis
    using r1 stored_fitness [OF r1(1), of c] by (cases "gate_open ?m1") auto
qed

end

end
