(* ===== verification/Manager_System.thy ===== *)
theory Manager_System
  imports Manager_Sync
begin

text \<open>
  The manager with its goroutines: the user's calls, the manager's loop, the checker goroutines
  and the cancellation of the context, interleaved in any order.  An event is one call of a method
  or one step of a goroutine; the body of the loop and each method of the user's are one step, but
  \<^verbatim>\<open>Run\<close> is three, since it goes on beside the goroutines it starts.  \<open>s_runs\<close> counts the calls of
  \<^verbatim>\<open>Run\<close> that started the manager and \<open>s_blocked\<close> records that a failing \<^verbatim>\<open>Run\<close> once blocked on a full
  error channel; both are there only to speak about the history.
\<close>

section \<open>States and events\<close>

datatype user_pc = UIdle | URunStartup | URunLive | UBlocked go_error

record ('c, 'r) sys =
  s_mgr :: "('c, 'r) Manager"
  s_ctx :: ctx
  s_user :: user_pc
  s_loops :: nat
  s_gs :: "'c goroutine list"
  s_runs :: nat
  s_blocked :: bool

datatype ('c, 'r) event =
    EAddCheck string 'c "AddCheckOption list"
  | EAddReporter string 'r
  | ERun "string rorder"
  | ERunStartup "string rorder"
  | ERunLive "string rorder"
  | EUnblock
  | EDrain
  | EStop "string rorder"
  | ECancel
  | EGo nat g_event instant
  | ESend nat
  | EHandoff nat "string rorder"
  | ERecv "string rorder"
  | ELoopStop "string rorder"

definition sys_init :: "Logger option \<Rightarrow> ('c, 'r) sys" where
  "sys_init lg = \<lparr>s_mgr = Manager_zero\<lparr>m_Logger := lg\<rparr>, s_ctx = CtxActive, s_user = UIdle,
     s_loops = 0, s_gs = [], s_runs = 0, s_blocked = False\<rparr>"

fun is_panic :: "g_pc \<Rightarrow> bool" where
  "is_panic (GPanic _) = True"
| "is_panic _ = False"

text \<open>An unrecovered panic in any goroutine ends the process.\<close>

definition crashed :: "('c, 'r) sys \<Rightarrow> bool" where
  "crashed s \<longleftrightarrow> list_ex (\<lambda>g. is_panic (g_pc g)) (s_gs s)"

definition go_step ::
    "'c Checker_Check \<Rightarrow> ctx \<Rightarrow> instant \<Rightarrow> g_event \<Rightarrow> 'c goroutine \<Rightarrow> ('c, 'r) Manager \<Rightarrow>
     'c goroutine \<times> ('c, 'r) Manager" where
  "go_step chk c now ev g m =
     (case g_kind g of
        IntervalCheck \<Rightarrow> dispatchIntervalCheck chk c now ev g m
      | OneTimeCheck \<Rightarrow> dispatchOneTimeCheck chk c now ev g m)"

fun sys_event ::
    "'r Reporter_ops \<Rightarrow> 'c Checker_Check \<Rightarrow> ('c, 'r) event \<Rightarrow> ('c, 'r) sys \<Rightarrow> ('c, 'r) sys option" where
  "sys_event ops chk (EAddCheck n ch opts) s =
     (if s_user s = UIdle then Some (s\<lparr>s_mgr := snd (AddCheck n ch opts (s_mgr s))\<rparr>) else None)"
| "sys_event ops chk (EAddReporter n r) s =
     (if s_user s = UIdle then Some (s\<lparr>s_mgr := snd (AddReporter n r (s_mgr s))\<rparr>) else None)"
| "sys_event ops chk (ERun ord) s =
     (if s_user s = UIdle
      then (case Run_start ops ord (s_ctx s) (s_mgr s) of
              (RunStarted gs, m) \<Rightarrow>
                Some (s\<lparr>s_mgr := m, s_user := URunStartup, s_loops := Suc (s_loops s),
                        s_gs := s_gs s @ gs, s_runs := Suc (s_runs s)\<rparr>)
            | (RunBlocked e, m) \<Rightarrow> 
                Some (s\<lparr>s_mgr := m, s_user := UBlocked e, s_blocked := True\<rparr>)
            | (_, m) \<Rightarrow> Some (s\<lparr>s_mgr := m\<rparr>))
      else None)"
| "sys_event ops chk (ERunStartup ord) s =
     (if s_user s = URunStartup
      then Some (s\<lparr>s_mgr := initStartupState ops ord (s_ctx s) (s_mgr s), s_user := URunLive\<rparr>)
      else None)"
| "sys_event ops chk (ERunLive ord) s =
     (if s_user s = URunLive
      then Some (s\<lparr>s_mgr := snd (setLive ops ord (s_ctx s) True (s_mgr s)), s_user := UIdle\<rparr>)
      else None)"
| "sys_event ops chk EUnblock s =
     (case (s_user s, errChan (s_mgr s)) of
        (UBlocked e, Some ch) \<Rightarrow>
          if length (ch_buf ch) < ch_cap ch
          then Some (s\<lparr>s_mgr := (s_mgr s)\<lparr>errChan := Some (ch\<lparr>ch_buf := ch_buf ch @ [e]\<rparr>), runningPtr := 0\<rparr>,
                       s_user := UIdle\<rparr>)
          else None
      | _ \<Rightarrow> None)"
| "sys_event ops chk EDrain s =
     (case errChan (s_mgr s) of
        Some ch \<Rightarrow>
          (case ch_buf ch of
             [] \<Rightarrow> None
           | e # es \<Rightarrow> Some (s\<lparr>s_mgr := (s_mgr s)\<lparr>errChan := Some (ch\<lparr>ch_buf := es\<rparr>)\<rparr>\<rparr>))
      | None \<Rightarrow> None)"
| "sys_event ops chk (EStop ord) s =
     (if s_user s = UIdle
      then Some (s\<lparr>s_mgr := snd (Manager_Stop ops ord (s_ctx s) (s_mgr s))\<rparr>) else None)"
| "sys_event ops chk ECancel s = Some (s\<lparr>s_ctx := CtxDone (Sentinel Canceled)\<rparr>)"
| "sys_event ops chk (EGo i ev now) s =
     (if i < length (s_gs s)
      then (case go_step chk (s_ctx s) now ev (s_gs s ! i) (s_mgr s) of
              (g, m) \<Rightarrow> Some (s\<lparr>s_mgr := m, s_gs := (s_gs s)[i := g]\<rparr>))
      else None)"
| "sys_event ops chk (ESend i) s =
     (if i < length (s_gs s)
      then (case (g_pc (s_gs s ! i), checkFunnel (s_mgr s)) of
              (GSend hc, Some ch) \<Rightarrow>
                if length (ch_buf ch) < ch_cap ch
                then Some (s\<lparr>s_mgr := (s_mgr s)\<lparr>checkFunnel := Some (ch\<lparr>ch_buf := ch_buf ch @ [Some hc]\<rparr>)\<rparr>,
                             s_gs := (s_gs s)[i := after_send (s_gs s ! i)]\<rparr>)
                else None
            | _ \<Rightarrow> None)
      else None)"
| "sys_event ops chk (EHandoff i ord) s =
     (if i < length (s_gs s) \<and> s_loops s > 0
      then (case (g_pc (s_gs s ! i), checkFunnel (s_mgr s)) of
              (GSend hc, Some ch) \<Rightarrow>
                if ch_cap ch = 0
                then Some (s\<lparr>s_mgr := loop_body ops ord (s_ctx s) (Some hc) (s_mgr s),
                             s_gs := (s_gs s)[i := after_send (s_gs s ! i)]\<rparr>)
                else None
            | _ \<Rightarrow> None)
      else None)"
| "sys_event ops chk (ERecv ord) s =
     (if s_loops s > 0
      then (case checkFunnel (s_mgr s) of
              Some ch \<Rightarrow>
                (case ch_buf ch of
                   [] \<Rightarrow> None
                 | hc # hcs \<Rightarrow>
                     Some (s\<lparr>s_mgr := loop_body ops ord (s_ctx s) hc
                              ((s_mgr s)\<lparr>checkFunnel := Some (ch\<lparr>ch_buf := hcs\<rparr>)\<rparr>)\<rparr>))
            | None \<Rightarrow> None)
      else None)"
| "sys_event ops chk (ELoopStop ord) s =
     (if s_loops s > 0 \<and> ctx_done (s_ctx s)
      then Some (s\<lparr>s_mgr := snd (Manager_Stop ops ord (s_ctx s) (s_mgr s)), s_loops := s_loops s - 1\<rparr>)
      else None)"

definition sys_do ::
    "'r Reporter_ops \<Rightarrow> 'c Checker_Check \<Rightarrow> ('c, 'r) event \<Rightarrow> ('c, 'r) sys \<Rightarrow> ('c, 'r) sys option" where
  "sys_do ops chk e s = (if crashed s then None else sys_event ops chk e s)"

fun sys_run ::
    "'r Reporter_ops \<Rightarrow> 'c Checker_Check \<Rightarrow> ('c, 'r) event list \<Rightarrow> ('c, 'r) sys \<Rightarrow> ('c, 'r) sys option" where
  "sys_run ops chk [] s = Some s"
| "sys_run ops chk (e # es) s =
     (case sys_do ops chk e s of None \<Rightarrow> None | Some t \<Rightarrow> sys_run ops chk es t)"

text \<open>The orders of an event are orders of \<^verbatim>\<open>range\<close>, and the reporters that get registered are fresh.\<close>

fun event_ok :: "('r \<Rightarrow> bool) \<Rightarrow> ('c, 'r) event \<Rightarrow> bool" where
  "event_ok fresh (EAddReporter n r) = fresh r"
| "event_ok fresh (ERun ord) = range_order ord"
| "event_ok fresh (ERunStartup ord) = range_order ord"
| "event_ok fresh (ERunLive ord) = range_order ord"
| "event_ok fresh (EStop ord) = range_order ord"
| "event_ok fresh (EHandoff i ord) = range_order ord"
| "event_ok fresh (ERecv ord) = range_order ord"
| "event_ok fresh (ELoopStop ord) = range_order ord"
| "event_ok fresh _ = True"

inductive reach ::
    "'r Reporter_ops \<Rightarrow> 'c Checker_Check \<Rightarrow> ('r \<Rightarrow> bool) \<Rightarrow> ('c, 'r) sys \<Rightarrow> bool"
  for ops chk fresh where
  init: "reach ops chk fresh (sys_init lg)"
| step: "reach ops chk fresh s \<Longrightarrow> event_ok fresh e \<Longrightarrow> sys_do ops chk e s = Some t \<Longrightarrow>
    reach ops chk fresh t"

inductive_cases reach_elim: "reach ops chk fresh s"

lemma reach_run:
  "reach ops chk fresh s \<Longrightarrow> list_all (event_ok fresh) es \<Longrightarrow> sys_run ops chk es s = Some t \<Longrightarrow>
   reach ops chk fresh t"
  by (induction es arbitrary: s) (auto split: option.splits intro: reach.step)

end
