(* ===== verification/Manager_Safety.thy ===== *)
theory Manager_Safety
  imports Manager_System
begin

text \<open>
  Invariants of the manager with its goroutines, by rule induction over the reachable states:
  what readiness means, where results can come from, that the funnel stays within its capacity,
  and, for the first session, that readiness waits for every check and reporters stay in step.
\<close>

section \<open>Frames\<close>

lemma evaluateFitness_frame:
  assumes "range_order ord" "mgr_inv m"
  shows "checkers (evaluateFitness ops ord c m) = checkers m"
    "checkResults (evaluateFitness ops ord c m) = checkResults m"
    "checkFunnel (evaluateFitness ops ord c m) = checkFunnel m"
    "errChan (evaluateFitness ops ord c m) = errChan m"
    "runningPtr (evaluateFitness ops ord c m) = runningPtr m"
    "allChecksRan (evaluateFitness ops ord c m) = allChecksRan m"
    "readyPtr (evaluateFitness ops ord c m) =
       (if gate_open m then flag (all_ready m \<and> all_live m) else readyPtr m)"
    "livePtr (evaluateFitness ops ord c m) = (if gate_open m then flag (all_live m) else livePtr m)"
    "startupDone (evaluateFitness ops ord c m) =
       (if gate_open m \<and> startupDone m = 0 then 1 else startupDone m)"
proof -
  have "core (evaluateFitness ops ord c m) = core (if gate_open m then fitness_result ops c m else m)"
    using assms by (simp add: evaluateFitness_core mgr_invD)
  note f = core_eqD [OF this]
  show "checkers (evaluateFitness ops ord c m) = checkers m"
    "checkResults (evaluateFitness ops ord c m) = checkResults m"
    "checkFunnel (evaluateFitness ops ord c m) = checkFunnel m"
    "errChan (evaluateFitness ops ord c m) = errChan m"
    "runningPtr (evaluateFitness ops ord c m) = runningPtr m"
    "allChecksRan (evaluateFitness ops ord c m) = allChecksRan m"
    "readyPtr (evaluateFitness ops ord c m) =
       (if gate_open m then flag (all_ready m \<and> all_live m) else readyPtr m)"
    "livePtr (evaluateFitness ops ord c m) = (if gate_open m then flag (all_live m) else livePtr m)"
    "startupDone (evaluateFitness ops ord c m) =
       (if gate_open m \<and> startupDone m = 0 then 1 else startupDone m)"
    using f by (simp_all add: fitness_result_def Let_def)
qed

lemma notify_frame [simp]:
  "checkers (notify ord f m) = checkers m" "checkResults (notify ord f m) = checkResults m"
  "checkFunnel (notify ord f m) = checkFunnel m" "errChan (notify ord f m) = errChan m"
  "runningPtr (notify ord f m) = runningPtr m" "readyPtr (notify ord f m) = readyPtr m"
  "startupDone (notify ord f m) = startupDone m" "allChecksRan (notify ord f m) = allChecksRan m"
  "livePtr (notify ord f m) = livePtr m" "startupPtr (notify ord f m) = startupPtr m"
  by (simp_all add: notify_def)

text \<open>The message a received value carries: none when it is nil or the context is done.\<close>

definition accepted :: "ctx \<Rightarrow> CheckResult option \<Rightarrow> CheckResult option" where
  "accepted c hco = (if ctx_done c then None else hco)"

lemma processHealthCheck_frame:
  "checkers (processHealthCheck ops ord c hco m) = checkers m"
  "checkFunnel (processHealthCheck ops ord c hco m) = checkFunnel m"
  "errChan (processHealthCheck ops ord c hco m) = errChan m"
  "runningPtr (processHealthCheck ops ord c hco m) = runningPtr m"
  "readyPtr (processHealthCheck ops ord c hco m) = readyPtr m"
  "livePtr (processHealthCheck ops ord c hco m) = livePtr m"
  "startupDone (processHealthCheck ops ord c hco m) = startupDone m"
  "checkResults (processHealthCheck ops ord c hco m) =
     (case accepted c hco of None \<Rightarrow> checkResults m
      | Some hc \<Rightarrow> Map_Set (hc_Name hc) (tally hc) (checkResults m))"
  "allChecksRan (processHealthCheck ops ord c hco m) =
     (case accepted c hco of None \<Rightarrow> allChecksRan m
      | Some hc \<Rightarrow>
          if allChecksRan m = 0 \<and>
             Map_Size (Map_Set (hc_Name hc) (tally hc) (checkResults m)) = Map_Size (checkers m)
          then 1 else allChecksRan m)"
  by (auto simp: processHealthCheck_def Let_def store_result_def accepted_def split: option.split)

lemmas loop_frames = evaluateFitness_frame processHealthCheck_frame

lemma loop_body_frame:
  assumes "range_order ord" "mgr_inv m"
  shows "checkers (loop_body ops ord c hco m) = checkers m"
    "checkFunnel (loop_body ops ord c hco m) = checkFunnel m"
    "errChan (loop_body ops ord c hco m) = errChan m"
    "runningPtr (loop_body ops ord c hco m) = runningPtr m"
    "checkResults (loop_body ops ord c hco m) = checkResults (processHealthCheck ops ord c hco m)"
    "allChecksRan (loop_body ops ord c hco m) = allChecksRan (processHealthCheck ops ord c hco m)"
  using assms by (simp_all add: loop_body_def loop_frames)

lemma Stop_frame:
  assumes "range_order ord" "mgr_inv m"
  shows "checkers (snd (Manager_Stop ops ord c m)) = checkers m"
    "checkResults (snd (Manager_Stop ops ord c m)) = checkResults m"
    "checkFunnel (snd (Manager_Stop ops ord c m)) = checkFunnel m"
    "errChan (snd (Manager_Stop ops ord c m)) = errChan m"
    "allChecksRan (snd (Manager_Stop ops ord c m)) = allChecksRan m"
    "\<not> running (snd (Manager_Stop ops ord c m))"
    "readyPtr (snd (Manager_Stop ops ord c m)) = (if running m then 0 else readyPtr m)"
    "livePtr (snd (Manager_Stop ops ord c m)) = livePtr m"
    "startupPtr (snd (Manager_Stop ops ord c m)) = startupPtr m"
  using assms by (auto simp: Manager_Stop_eq mgr_invD Let_def running_def)

lemma setLive_frame:
  "checkers (snd (setLive ops ord c b m)) = checkers m"
  "checkResults (snd (setLive ops ord c b m)) = checkResults m"
  "checkFunnel (snd (setLive ops ord c b m)) = checkFunnel m"
  "errChan (snd (setLive ops ord c b m)) = errChan m"
  "runningPtr (snd (setLive ops ord c b m)) = runningPtr m"
  "readyPtr (snd (setLive ops ord c b m)) = readyPtr m"
  "allChecksRan (snd (setLive ops ord c b m)) = allChecksRan m"
  by (simp_all add: setLive_def Let_def)

lemma initStartupState_frame:
  "checkers (initStartupState ops ord c m) = checkers m"
  "checkResults (initStartupState ops ord c m) = checkResults m"
  "checkFunnel (initStartupState ops ord c m) = checkFunnel m"
  "errChan (initStartupState ops ord c m) = errChan m"
  "runningPtr (initStartupState ops ord c m) = runningPtr m"
  "readyPtr (initStartupState ops ord c m) = readyPtr m"
  "allChecksRan (initStartupState ops ord c m) = allChecksRan m"
  by (simp_all add: initStartupState_def setStartup_def Let_def)

section \<open>Readiness is sound\<close>

definition ready_sound :: "('c, 'r) Manager \<Rightarrow> bool" where
  "ready_sound m \<longleftrightarrow> (isReady m \<longrightarrow> running m \<and> all_ready m)"

lemma ready_sound_cong:
  "readyPtr m = readyPtr m' \<Longrightarrow> runningPtr m = runningPtr m' \<Longrightarrow> checkResults m = checkResults m' \<Longrightarrow>
   ready_sound m = ready_sound m'"
  by (simp add: ready_sound_def isReady_def running_def all_ready_def)

lemma ready_sound_loop_body:
  assumes "range_order ord" "mgr_inv m" "ready_sound m"
  shows "ready_sound (loop_body ops ord c hco m)"
proof -
  let ?m1 = "processHealthCheck ops ord c hco m"
  have inv1: "mgr_inv ?m1" using assms by simp
  show ?thesis
  proof (cases "gate_open ?m1")
    case True
    then have "running ?m1" by (simp add: gate_open_def)
    with True assms(1) inv1 show ?thesis
      by (auto simp: ready_sound_def loop_body_def evaluateFitness_frame isReady_def running_def all_ready_def)
  next
    case False
    have "\<not> isReady m"
    proof
      assume r: "isReady m"
      with assms(2) have "allChecksRan m = 1" "startupDone m = 1" by (simp_all add: mgr_inv_def)
      then have "allChecksRan ?m1 = 1" "startupDone ?m1 = 1"
        by (auto simp: processHealthCheck_frame split: option.splits)
      moreover have "running ?m1"
        using r assms(3) by (simp add: ready_sound_def running_def processHealthCheck_frame)
      ultimately show False using False by (simp add: gate_open_def)
    qed
    with False assms(1) inv1 show ?thesis
      by (simp add: ready_sound_def loop_body_def evaluateFitness_frame isReady_def processHealthCheck_frame)
  qed
qed

lemma ready_sound_Run_start:
  assumes "mgr_inv m" "ready_sound m"
  shows "ready_sound (snd (Run_start ops ord c m))"
  using mgr_invD(5) [OF assms(1)]
proof (cases rule: Run_start_cases [where ops = ops and ord = ord and c = c])
  case already
  then show ?thesis using assms by simp
next
  case (failed err rs ch m1)
  then show ?thesis using assms by (simp add: ready_sound_def isReady_def running_def)
next
  case (blocked err rs)
  then show ?thesis using assms by (simp add: ready_sound_def isReady_def running_def)
next
  case (started gs rs)
  then show ?thesis using assms by (simp add: ready_sound_def isReady_def running_def)
qed

section \<open>Goroutines\<close>

text \<open>A step of a checker goroutine writes the log only, and what it sends bears its registration.\<close>

lemma go_step_facts:
  assumes "go_step chk c now ev g m = (g', m')"
  shows "core m' = core m" "m_Logger m' = None \<longleftrightarrow> m_Logger m = None"
    "g_name g' = g_name g" "g_kind g' = g_kind g" "w_opts (g_wrapper g') = w_opts (g_wrapper g)"
    "g_pc g' = GSend hc \<Longrightarrow>
       g_pc g = GSend hc \<or> (\<exists>hc0. hc = applyCheckOptions hc0 (g_name g) (w_opts (g_wrapper g)))"
proof -
  have safe: "\<And>n out r m1. safeCheck n now out m = (r, m1) \<Longrightarrow>
      core m1 = core m \<and> (m_Logger m1 = None \<longleftrightarrow> m_Logger m = None)"
    using safeCheck_core by (metis snd_conv)
  have safe': "\<And>n out r m1 l t a. safeCheck n now out (mgr_log l t a m) = (r, m1) \<Longrightarrow>
      core m1 = core m \<and> (m_Logger m1 = None \<longleftrightarrow> m_Logger m = None)"
    using safeCheck_core by (metis core_fields(13) mgr_log_fields(13) snd_conv)
  have "core m' = core m \<and> (m_Logger m' = None \<longleftrightarrow> m_Logger m = None) \<and>
    g_name g' = g_name g \<and> g_kind g' = g_kind g \<and> w_opts (g_wrapper g') = w_opts (g_wrapper g) \<and>
    (g_pc g' = GSend hc \<longrightarrow>
       g_pc g = GSend hc \<or> (\<exists>hc0. hc = applyCheckOptions hc0 (g_name g) (w_opts (g_wrapper g))))"
  proof (cases "g_kind g")
    case IntervalCheck
    with assms show ?thesis
      by (auto simp: go_step_def Let_def split: g_pc.splits g_event.splits if_splits prod.splits
          option.splits dest!: safe)
  next
    case OneTimeCheck
    with assms show ?thesis
      by (auto simp: go_step_def Let_def split: g_pc.splits g_event.splits if_splits prod.splits
          option.splits dest!: safe')
  qed
  then show "core m' = core m" "m_Logger m' = None \<longleftrightarrow> m_Logger m = None"
    "g_name g' = g_name g" "g_kind g' = g_kind g" "w_opts (g_wrapper g') = w_opts (g_wrapper g)"
    "g_pc g' = GSend hc \<Longrightarrow>
       g_pc g = GSend hc \<or> (\<exists>hc0. hc = applyCheckOptions hc0 (g_name g) (w_opts (g_wrapper g)))"
    by blast+
qed

lemma dispatchReporters_checkers [simp]:
  "checkers (snd (dispatchReporters ops ord c m)) = checkers m"
  by (simp add: dispatchReporters_def split: prod.splits)

lemma dispatchHealthChecks_names:
  assumes "dispatchHealthChecks ord c m = (None, gs)" "g \<in> set gs"
  shows "g_name g \<in> dom (Map_Get (checkers m))" "g_pc g = GInit"
proof -
  let ?I = "\<lambda>gs. \<forall>g\<in>set gs. g_name g \<in> dom (Map_Get (checkers m)) \<and> g_pc g = GInit"
  have "?I (Map_Each ord (\<lambda>key w gs. (True, gs @ [spawn_check key w])) (checkers m) [])"
    by (rule Map_Each_invariant) (auto simp: spawn_check_def)
  moreover have "gs = Map_Each ord (\<lambda>key w gs. (True, gs @ [spawn_check key w])) (checkers m) [] \<or> gs = []"
    using assms(1) by (auto simp: dispatchHealthChecks_def split: if_splits)
  ultimately show "g_name g \<in> dom (Map_Get (checkers m))" "g_pc g = GInit"
    using assms(2) by auto
qed

lemma validateAndStart_names:
  assumes "validateAndStart ops ord c m = (None, gs, m')" "g \<in> set gs"
  shows "g_name g \<in> dom (Map_Get (checkers m))" "g_pc g = GInit"
proof -
  obtain m1 where "dispatchReporters ops ord c m = (None, m1)" "dispatchHealthChecks ord c m1 = (None, gs)"
    using assms(1) by (auto simp: validateAndStart_def split: if_splits prod.splits option.splits)
  moreover from this(1) have "checkers m1 = checkers m"
    using dispatchReporters_checkers [of ops ord c m] by simp
  ultimately show "g_name g \<in> dom (Map_Get (checkers m))" "g_pc g = GInit"
    using dispatchHealthChecks_names assms(2) by metis+
qed

section \<open>The invariant of the system\<close>

definition chan_ok :: "'a chan option \<Rightarrow> bool" where
  "chan_ok ch \<longleftrightarrow> (\<forall>x. ch = Some x \<longrightarrow> length (ch_buf x) \<le> ch_cap x)"

definition names_ok :: "('c, 'r) sys \<Rightarrow> bool" where
  "names_ok s \<longleftrightarrow>
     (let D = dom (Map_Get (checkers (s_mgr s)))
      in dom (Map_Get (checkResults (s_mgr s))) \<subseteq> D \<and>
         (\<forall>ch hc. checkFunnel (s_mgr s) = Some ch \<longrightarrow> Some hc \<in> set (ch_buf ch) \<longrightarrow> hc_Name hc \<in> D) \<and>
         (\<forall>g\<in>set (s_gs s). g_name g \<in> D \<and> (\<forall>hc. g_pc g = GSend hc \<longrightarrow> hc_Name hc = g_name g)))"

text \<open>
  The first session: before it nothing has been reported; while it runs, the flag that says that
  all checks have reported tells the truth.
\<close>

definition session_ok :: "('c, 'r) sys \<Rightarrow> bool" where
  "session_ok s \<longleftrightarrow>
     (s_runs s = 0 \<longrightarrow> s_user s = UIdle \<and> \<not> running (s_mgr s) \<and> s_loops s = 0 \<and> s_gs s = [] \<and>
        allChecksRan (s_mgr s) = 0 \<and> livePtr (s_mgr s) = 0 \<and> readyPtr (s_mgr s) = 0 \<and>
        startupPtr (s_mgr s) = 0) \<and>
     (s_runs s \<le> 1 \<and> running (s_mgr s) \<and> allChecksRan (s_mgr s) = 1 \<longrightarrow>
        dom (Map_Get (checkResults (s_mgr s))) = dom (Map_Get (checkers (s_mgr s))))"

text \<open>
  A \<^verbatim>\<open>Run\<close> that blocks on the full error channel keeps the running flag until the channel is drained
  and then takes it away, so what depends on the flag is claimed while no \<^verbatim>\<open>Run\<close> has blocked.
\<close>

definition unblocked_ok :: "('c, 'r) sys \<Rightarrow> bool" where
  "unblocked_ok s \<longleftrightarrow>
     (\<not> s_blocked s \<longrightarrow> ready_sound (s_mgr s) \<and> session_ok s \<and> (\<forall>e. s_user s \<noteq> UBlocked e))"

definition sys_inv :: "('c, 'r) sys \<Rightarrow> bool" where
  "sys_inv s \<longleftrightarrow> mgr_inv (s_mgr s) \<and> names_ok s \<and> unblocked_ok s \<and>
     chan_ok (checkFunnel (s_mgr s)) \<and> chan_ok (errChan (s_mgr s))"

lemma sys_invD:
  assumes "sys_inv s"
  shows "mgr_inv (s_mgr s)" "names_ok s" "unblocked_ok s"
    "chan_ok (checkFunnel (s_mgr s))" "chan_ok (errChan (s_mgr s))"
    "\<not> s_blocked s \<Longrightarrow> ready_sound (s_mgr s)" "\<not> s_blocked s \<Longrightarrow> session_ok s"
  using assms by (simp_all add: sys_inv_def unblocked_ok_def)

text \<open>Steps that leave the maps, the channels, readiness and the running flag alone.\<close>

lemma sys_inv_frame:
  assumes "sys_inv s" "mgr_inv m'"
    and "checkers m' = checkers (s_mgr s)" "checkResults m' = checkResults (s_mgr s)"
    and "checkFunnel m' = checkFunnel (s_mgr s)" "errChan m' = errChan (s_mgr s)"
    and "runningPtr m' = runningPtr (s_mgr s)" "readyPtr m' = readyPtr (s_mgr s)"
    and "allChecksRan m' = allChecksRan (s_mgr s)"
    and "\<not> s_blocked s \<Longrightarrow> s_runs s = 0 \<Longrightarrow> livePtr m' = 0 \<and> startupPtr m' = 0 \<and> u = UIdle"
    and "\<And>e. \<not> s_blocked s \<Longrightarrow> u \<noteq> UBlocked e"
  shows "sys_inv (s\<lparr>s_mgr := m', s_user := u\<rparr>)"
  using assms ready_sound_cong [of m' "s_mgr s"]
  by (auto simp: sys_inv_def unblocked_ok_def names_ok_def session_ok_def Let_def running_def)

lemma sys_inv_init [simp]: "sys_inv (sys_init lg)"
proof -
  have "mgr_inv (Manager_zero\<lparr>m_Logger := lg\<rparr>)"
    by (simp add: mgr_inv_def mgr_wf_def flags_ok_def tallies_ok_def Manager_zero_def isReady_def running_def)
  then show ?thesis
    by (simp add: sys_init_def sys_inv_def unblocked_ok_def ready_sound_def names_ok_def session_ok_def chan_ok_def
        Manager_zero_def isReady_def running_def Let_def dom_def)
qed

lemma sys_inv_AddCheck:
  assumes "sys_inv s"
  shows "sys_inv (s\<lparr>s_mgr := snd (AddCheck n ch opts (s_mgr s))\<rparr>)"
proof -
  have inv: "mgr_inv (snd (AddCheck n ch opts (s_mgr s)))"
    using assms by (simp add: sys_invD)
  have dom: "dom (Map_Get (checkers (s_mgr s))) \<subseteq> dom (Map_Get (checkers (snd (AddCheck n ch opts (s_mgr s)))))"
    by (auto simp: AddCheck_def Let_def)
  show ?thesis
    using assms inv dom
    by (auto simp: sys_inv_def unblocked_ok_def names_ok_def session_ok_def Let_def running_def AddCheck_def
        ready_sound_def isReady_def all_ready_def)
qed

lemma sys_inv_AddReporter:
  assumes "sys_inv s"
  shows "sys_inv (s\<lparr>s_mgr := snd (AddReporter n r (s_mgr s))\<rparr>)"
proof -
  have "sys_inv (s\<lparr>s_mgr := snd (AddReporter n r (s_mgr s)), s_user := s_user s\<rparr>)"
    by (rule sys_inv_frame [OF assms mgr_inv_AddReporter [OF sys_invD(1) [OF assms]]])
      (use sys_invD(3) [OF assms] in \<open>auto simp: AddReporter_def session_ok_def unblocked_ok_def\<close>)
  then show ?thesis by simp
qed

text \<open>The body of the loop, with the received value taken out of the funnel or handed over.\<close>

lemma sys_inv_loop_body:
  assumes s: "sys_inv s" and ord: "range_order ord" and loops: "s_loops s > 0"
    and hc: "\<And>x. hc = Some x \<Longrightarrow> hc_Name x \<in> dom (Map_Get (checkers (s_mgr s)))"
  shows "sys_inv (s\<lparr>s_mgr := loop_body ops ord c hc (s_mgr s)\<rparr>)"
proof -
  let ?m = "s_mgr s" and ?m' = "loop_body ops ord c hc (s_mgr s)"
  have inv: "mgr_inv ?m" using s by (simp add: sys_invD)
  have inv': "mgr_inv ?m'" using ord inv by simp
  note fr = loop_body_frame [OF ord inv, of ops c hc]
  have dom': "dom (Map_Get (checkResults ?m')) \<subseteq> dom (Map_Get (checkers ?m))"
    and mono: "dom (Map_Get (checkResults ?m)) \<subseteq> dom (Map_Get (checkResults ?m'))"
    using s hc by (auto simp: fr(5) processHealthCheck_frame accepted_def sys_inv_def names_ok_def Let_def
        split: option.splits if_splits)
  have ran: "dom (Map_Get (checkResults ?m')) = dom (Map_Get (checkers ?m))"
    if "\<not> s_blocked s" "s_runs s \<le> 1" "running ?m" "allChecksRan ?m' = 1"
  proof (cases "allChecksRan ?m = 1")
    case True
    with that s have "dom (Map_Get (checkResults ?m)) = dom (Map_Get (checkers ?m))"
      by (simp add: sys_inv_def unblocked_ok_def session_ok_def)
    with dom' mono show ?thesis by auto
  next
    case False
    with that(4) have "Map_Size (checkResults ?m') = Map_Size (checkers ?m)"
      by (auto simp: fr(5,6) processHealthCheck_frame split: option.splits if_splits)
    with dom' show ?thesis
      using all_reported_iff [of "checkResults ?m'" "checkers ?m"] mgr_invD(6,7) inv inv' by blast
  qed
  have "unblocked_ok (s\<lparr>s_mgr := ?m'\<rparr>)"
  proof (cases "s_blocked s")
    case False
    then have "s_runs s \<noteq> 0" using sys_invD(7) [OF s] loops by (auto simp: session_ok_def)
    with ran ready_sound_loop_body [OF ord inv sys_invD(6) [OF s False]] show ?thesis
      using sys_invD(3) [OF s] fr(1-4) by (simp add: unblocked_ok_def session_ok_def running_def)
  qed (simp add: unblocked_ok_def)
  with dom' inv' show ?thesis
    using s fr(1-4) by (simp add: sys_inv_def names_ok_def Let_def)
qed

text \<open>A goroutine moves: the manager is the same up to its log.\<close>

lemma names_ok_goroutine:
  assumes "names_ok s" "i < length (s_gs s)" "g_name g = g_name (s_gs s ! i)"
    and "\<And>hc. g_pc g = GSend hc \<Longrightarrow> hc_Name hc = g_name g"
  shows "names_ok (s\<lparr>s_gs := (s_gs s)[i := g]\<rparr>)"
proof -
  have "s_gs s ! i \<in> set (s_gs s)" using assms(2) by simp
  then have "g_name g \<in> dom (Map_Get (checkers (s_mgr s)))"
    using assms(1,3) by (simp add: names_ok_def Let_def)
  with assms(1,4) show ?thesis
    by (auto simp: names_ok_def Let_def dest!: set_update_subset_insert [THEN subsetD])
qed

lemma sys_inv_goroutine:
  assumes "sys_inv s" "i < length (s_gs s)" "g_name g = g_name (s_gs s ! i)"
    and "\<And>hc. g_pc g = GSend hc \<Longrightarrow> hc_Name hc = g_name g"
  shows "sys_inv (s\<lparr>s_gs := (s_gs s)[i := g]\<rparr>)"
proof -
  have "names_ok (s\<lparr>s_gs := (s_gs s)[i := g]\<rparr>)"
    using assms by (intro names_ok_goroutine) (simp_all add: sys_invD)
  with assms(1) show ?thesis by (auto simp: sys_inv_def unblocked_ok_def session_ok_def)
qed

lemma sys_inv_core:
  assumes "sys_inv s" "core m' = core (s_mgr s)" "m_Logger m' = None \<longleftrightarrow> m_Logger (s_mgr s) = None"
  shows "sys_inv (s\<lparr>s_mgr := m'\<rparr>)"
proof -
  have "mgr_inv m'" using mgr_inv_cong [OF assms(2,3)] sys_invD(1) [OF assms(1)] by simp
  note fr = core_eqD [OF assms(2)]
  have "sys_inv (s\<lparr>s_mgr := m', s_user := s_user s\<rparr>)"
    by (rule sys_inv_frame [OF assms(1) \<open>mgr_inv m'\<close>])
      (use sys_invD(3) [OF assms(1)] fr in \<open>auto simp: unblocked_ok_def session_ok_def\<close>)
  then show ?thesis by simp
qed

lemma sys_inv_Go:
  assumes s: "sys_inv s" and i: "i < length (s_gs s)"
    and step: "go_step chk (s_ctx s) now ev (s_gs s ! i) (s_mgr s) = (g, m)"
  shows "sys_inv (s\<lparr>s_mgr := m, s_gs := (s_gs s)[i := g]\<rparr>)"
proof -
  have "s_gs s ! i \<in> set (s_gs s)" using i by simp
  then have "g_pc g = GSend hc \<Longrightarrow> hc_Name hc = g_name g" for hc
    using go_step_facts(3) [OF step] go_step_facts(6) [OF step, of hc] sys_invD(2) [OF s]
    by (auto simp: names_ok_def Let_def applyCheckOptions_def)
  moreover have "sys_inv (s\<lparr>s_mgr := m\<rparr>)"
    using go_step_facts(1,2) [OF step] by (rule sys_inv_core [OF s])
  ultimately show ?thesis
    using sys_inv_goroutine [of "s\<lparr>s_mgr := m\<rparr>" i g] i go_step_facts(3) [OF step] by simp
qed

lemma after_send_simps [simp]:
  "g_name (after_send g) = g_name g" "g_pc (after_send g) \<noteq> GSend hc"
  by (simp_all add: after_send_def split: g_kind.split)

text \<open>Changes of the channels only.\<close>

lemma sys_inv_funnel:
  assumes "sys_inv s" "checkFunnel (s_mgr s) = Some ch" "length buf \<le> ch_cap ch"
    and "\<And>hc. Some hc \<in> set buf \<Longrightarrow> hc_Name hc \<in> dom (Map_Get (checkers (s_mgr s)))"
  shows "sys_inv (s\<lparr>s_mgr := (s_mgr s)\<lparr>checkFunnel := Some (ch\<lparr>ch_buf := buf\<rparr>)\<rparr>\<rparr>)"
  using assms
  by (simp add: sys_inv_def unblocked_ok_def mgr_inv_def mgr_wf_def flags_ok_def tallies_ok_def ready_sound_def isReady_def
      isLive_def running_def all_ready_def names_ok_def session_ok_def chan_ok_def Let_def) fastforce

lemma sys_inv_drain:
  assumes "sys_inv s" "errChan (s_mgr s) = Some ch" "length buf \<le> ch_cap ch"
  shows "sys_inv (s\<lparr>s_mgr := (s_mgr s)\<lparr>errChan := Some (ch\<lparr>ch_buf := buf\<rparr>)\<rparr>\<rparr>)"
  using assms
  by (simp add: sys_inv_def unblocked_ok_def mgr_inv_def mgr_wf_def flags_ok_def tallies_ok_def ready_sound_def isReady_def
      isLive_def running_def all_ready_def names_ok_def session_ok_def chan_ok_def Let_def) fastforce

lemma sys_inv_Send:
  assumes s: "sys_inv s" and i: "i < length (s_gs s)" and g: "g_pc (s_gs s ! i) = GSend hc"
    and ch: "checkFunnel (s_mgr s) = Some ch" "length (ch_buf ch) < ch_cap ch"
  shows "sys_inv (s\<lparr>s_mgr := (s_mgr s)\<lparr>checkFunnel := Some (ch\<lparr>ch_buf := ch_buf ch @ [Some hc]\<rparr>)\<rparr>,
     s_gs := (s_gs s)[i := after_send (s_gs s ! i)]\<rparr>)"
proof -
  have "s_gs s ! i \<in> set (s_gs s)" using i by simp
  then have "hc_Name hc \<in> dom (Map_Get (checkers (s_mgr s)))"
    using sys_invD(2) [OF s] g by (auto simp: names_ok_def Let_def)
  then have "sys_inv (s\<lparr>s_mgr := (s_mgr s)\<lparr>checkFunnel := Some (ch\<lparr>ch_buf := ch_buf ch @ [Some hc]\<rparr>)\<rparr>\<rparr>)"
    using sys_invD(2) [OF s] ch
    by (intro sys_inv_funnel [OF s ch(1)]) (auto simp: names_ok_def Let_def)
  from sys_inv_goroutine [OF this, of i "after_send (s_gs s ! i)"] i show ?thesis by simp
qed

lemma sys_inv_Stop:
  assumes s: "sys_inv s" and ord: "range_order ord" and n: "n \<le> s_loops s"
  shows "sys_inv (s\<lparr>s_mgr := snd (Manager_Stop ops ord c (s_mgr s)), s_loops := n\<rparr>)"
proof -
  have inv: "mgr_inv (s_mgr s)" using s by (simp add: sys_invD)
  have inv': "mgr_inv (snd (Manager_Stop ops ord c (s_mgr s)))" using ord inv by simp
  have "\<not> isReady (snd (Manager_Stop ops ord c (s_mgr s)))" if "\<not> s_blocked s"
    using Stop_frame(7) [OF ord inv] sys_invD(6) [OF s that] by (auto simp: isReady_def ready_sound_def)
  with Stop_frame [OF ord inv] inv' show ?thesis
    using s n by (auto simp: sys_inv_def unblocked_ok_def names_ok_def session_ok_def ready_sound_def Let_def)
qed

lemma initInternals_chans:
  "checkFunnel (initInternals m) = Some ch \<Longrightarrow> checkFunnel m = Some ch \<or> ch_buf ch = []"
  "chan_ok (checkFunnel m) \<Longrightarrow> chan_ok (checkFunnel (initInternals m))"
  "chan_ok (errChan m) \<Longrightarrow> chan_ok (errChan (initInternals m))"
  by (auto simp: initInternals_def Let_def make_chan_def chan_ok_def split: option.splits)

lemma Run_start_frame:
  assumes "Map_wf (reporters m)"
  shows "checkers (snd (Run_start ops ord c m)) = checkers m"
    "checkResults (snd (Run_start ops ord c m)) = checkResults m"
    "allChecksRan (snd (Run_start ops ord c m)) = allChecksRan m"
    "livePtr (snd (Run_start ops ord c m)) = livePtr m"
    "readyPtr (snd (Run_start ops ord c m)) = readyPtr m"
    "startupPtr (snd (Run_start ops ord c m)) = startupPtr m"
    "checkFunnel (snd (Run_start ops ord c m)) = checkFunnel m \<or>
     checkFunnel (snd (Run_start ops ord c m)) = checkFunnel (initInternals (m\<lparr>runningPtr := 1\<rparr>))"
  by (cases rule: Run_start_cases [OF assms, where ops = ops and ord = ord and c = c]; simp)+

lemma Run_start_errChan:
  assumes "Map_wf (reporters m)" "chan_ok (errChan m)"
  shows "chan_ok (errChan (snd (Run_start ops ord c m)))"
  using assms(1)
proof (cases rule: Run_start_cases [where ops = ops and ord = ord and c = c])
  case already
  then show ?thesis using assms(2) by simp
next
  case (failed err rs ch m1)
  then show ?thesis by (simp add: chan_ok_def)
next
  case (blocked err rs)
  then show ?thesis using assms(2) by (simp add: initInternals_chans)
next
  case (started gs rs)
  then show ?thesis using assms(2) by (simp add: initInternals_chans)
qed

lemma sys_inv_Run:
  assumes s: "sys_inv s" and ok: "sys_event ops chk (ERun ord) s = Some t"
  shows "sys_inv t"
proof -
  let ?m = "s_mgr s"
  have inv: "mgr_inv ?m" using s by (simp add: sys_invD)
  let ?m' = "snd (Run_start ops ord (s_ctx s) ?m)"
  have inv': "mgr_inv ?m'" using inv by simp
  have idle: "s_user s = UIdle" using ok by (simp split: if_splits)
  note wf = mgr_invD(5) [OF inv]
  note fr = Run_start_frame [OF wf, of ops ord "s_ctx s"]
  have err: "chan_ok (errChan ?m')" using sys_invD(5) [OF s] by (rule Run_start_errChan [OF wf])
  have fun': "checkFunnel ?m' = Some ch \<Longrightarrow> checkFunnel ?m = Some ch \<or> ch_buf ch = []" for ch
    using fr(7) initInternals_chans(1) [of "?m\<lparr>runningPtr := 1\<rparr>" ch] by auto
  then have chan: "chan_ok (checkFunnel ?m')" using sys_invD(4) [OF s] by (fastforce simp: chan_ok_def)
  have names: "names_ok (s\<lparr>s_mgr := ?m'\<rparr>)"
    using sys_invD(2) [OF s] fr(1,2) fun' by (fastforce simp: names_ok_def Let_def)
  have rs': "ready_sound ?m'" if "\<not> s_blocked s"
    using inv sys_invD(6) [OF s that] by (rule ready_sound_Run_start)
  show ?thesis
    using wf
  proof (cases rule: Run_start_cases [where ops = ops and ord = ord and c = "s_ctx s"])
    case already
    with ok idle have "t = s" by simp
    with s show ?thesis by simp
  next
    case (failed err rs ch m1)
    with ok idle have "t = s\<lparr>s_mgr := ?m'\<rparr>" "\<not> running ?m'" by (auto simp: running_def)
    with inv' rs' names fr(3-6) chan err sys_invD(3) [OF s] show ?thesis
      by (simp add: sys_inv_def unblocked_ok_def session_ok_def)
  next
    case (blocked err rs)
    with ok idle have t: "t = s\<lparr>s_mgr := ?m', s_user := UBlocked err, s_blocked := True\<rparr>" by simp
    show ?thesis unfolding t
      using inv' names chan \<open>chan_ok (errChan ?m')\<close> by (simp add: sys_inv_def unblocked_ok_def names_ok_def)
  next
    case (started gs rs)
    with ok idle have t: "t = s\<lparr>s_mgr := ?m', s_user := URunStartup, s_loops := Suc (s_loops s),
        s_gs := s_gs s @ gs, s_runs := Suc (s_runs s)\<rparr>" by simp
    have "g_name g \<in> dom (Map_Get (checkers ?m)) \<and> g_pc g = GInit" if "g \<in> set gs" for g
      using validateAndStart_names [OF started(3) that] by simp
    with names fr(1) have "names_ok t" unfolding t by (auto simp: names_ok_def Let_def)
    moreover have "unblocked_ok t"
      unfolding t using rs' fr(3) sys_invD(3) [OF s]
      by (auto simp: unblocked_ok_def session_ok_def)
    ultimately show ?thesis
      unfolding t using inv' chan err by (simp add: sys_inv_def)
  qed
qed

lemma sys_inv_RunStartup:
  assumes s: "sys_inv s" and ord: "range_order ord" and u: "s_user s = URunStartup"
  shows "sys_inv (s\<lparr>s_mgr := initStartupState ops ord c (s_mgr s), s_user := URunLive\<rparr>)"
  by (rule sys_inv_frame [OF s])
    (use s ord u in \<open>auto simp: initStartupState_frame sys_inv_def unblocked_ok_def session_ok_def\<close>)

lemma sys_inv_RunLive:
  assumes s: "sys_inv s" and ord: "range_order ord" and u: "s_user s = URunLive"
  shows "sys_inv (s\<lparr>s_mgr := snd (setLive ops ord c True (s_mgr s)), s_user := UIdle\<rparr>)"
  by (rule sys_inv_frame [OF s])
    (use s ord u in \<open>auto simp: setLive_frame sys_inv_def unblocked_ok_def session_ok_def mgr_inv_setLive_True\<close>)

lemma sys_inv_Unblock:
  assumes s: "sys_inv s" and u: "s_user s = UBlocked e" and ch: "errChan (s_mgr s) = Some ch"
    "length (ch_buf ch) < ch_cap ch"
  shows "sys_inv (s\<lparr>s_mgr := (s_mgr s)\<lparr>errChan := Some (ch\<lparr>ch_buf := ch_buf ch @ [e]\<rparr>), runningPtr := 0\<rparr>,
     s_user := UIdle\<rparr>)"
proof -
  have "s_blocked s" using sys_invD(3) [OF s] u by (auto simp: unblocked_ok_def)
  with s ch show ?thesis
    by (simp add: sys_inv_def unblocked_ok_def mgr_inv_def mgr_wf_def flags_ok_def tallies_ok_def
        isReady_def isLive_def running_def names_ok_def chan_ok_def Let_def)
qed

section \<open>Every step keeps the invariant\<close>

lemma sys_inv_handoff:
  assumes s: "sys_inv s" and ord: "range_order ord" and loops: "s_loops s > 0"
    and i: "i < length (s_gs s)" and g: "g_pc (s_gs s ! i) = GSend hc"
  shows "sys_inv (s\<lparr>s_mgr := loop_body ops ord c (Some hc) (s_mgr s),
     s_gs := (s_gs s)[i := after_send (s_gs s ! i)]\<rparr>)"
proof -
  have "s_gs s ! i \<in> set (s_gs s)" using i by simp
  then have "hc_Name hc \<in> dom (Map_Get (checkers (s_mgr s)))"
    using sys_invD(2) [OF s] g by (auto simp: names_ok_def Let_def)
  then have "sys_inv (s\<lparr>s_mgr := loop_body ops ord c (Some hc) (s_mgr s)\<rparr>)"
    using sys_inv_loop_body [OF s ord loops] by blast
  from sys_inv_goroutine [OF this, of i "after_send (s_gs s ! i)"] i show ?thesis by simp
qed

lemma sys_inv_Recv:
  assumes s: "sys_inv s" and ord: "range_order ord" and loops: "s_loops s > 0"
    and ch: "checkFunnel (s_mgr s) = Some ch" "ch_buf ch = hc # hcs"
  shows "sys_inv (s\<lparr>s_mgr := loop_body ops ord c hc ((s_mgr s)\<lparr>checkFunnel := Some (ch\<lparr>ch_buf := hcs\<rparr>)\<rparr>)\<rparr>)"
proof -
  have named: "hc_Name x \<in> dom (Map_Get (checkers (s_mgr s)))" if "Some x \<in> set (ch_buf ch)" for x
    using sys_invD(2) [OF s] ch(1) that by (auto simp: names_ok_def Let_def)
  have "sys_inv (s\<lparr>s_mgr := (s_mgr s)\<lparr>checkFunnel := Some (ch\<lparr>ch_buf := hcs\<rparr>)\<rparr>\<rparr>)"
    using sys_invD(4) [OF s] ch by (intro sys_inv_funnel [OF s ch(1)] named) (auto simp: chan_ok_def)
  from sys_inv_loop_body [OF this ord, of hc] loops ch(2) named show ?thesis by auto
qed

lemma sys_inv_event:
  assumes s: "sys_inv s" and e: "event_ok fresh e" and t: "sys_event ops chk e s = Some t"
  shows "sys_inv t"
proof (cases e)
  case (ERun ord)
  with s t show ?thesis using sys_inv_Run by blast
next
  case (EAddCheck n ch opts)
  with s t show ?thesis using sys_inv_AddCheck by (auto split: if_splits)
next
  case (EAddReporter n r)
  with s t show ?thesis using sys_inv_AddReporter by (auto split: if_splits)
next
  case (ERunStartup ord)
  with s e t show ?thesis using sys_inv_RunStartup [OF s, of ord ops "s_ctx s"] by (auto split: if_splits)
next
  case (ERunLive ord)
  with s e t show ?thesis using sys_inv_RunLive [OF s, of ord ops "s_ctx s"] by (auto split: if_splits)
next
  case EUnblock
  with t show ?thesis
    using sys_inv_Unblock [OF s] by (auto split: if_splits user_pc.splits option.splits)
next
  case EDrain
  with t obtain ch e es where "errChan (s_mgr s) = Some ch" "ch_buf ch = e # es"
    "t = s\<lparr>s_mgr := (s_mgr s)\<lparr>errChan := Some (ch\<lparr>ch_buf := es\<rparr>)\<rparr>\<rparr>"
    by (auto split: option.splits list.splits)
  with sys_invD(5) [OF s] show ?thesis
    using sys_inv_drain [OF s, of ch es] by (simp add: chan_ok_def)
next
  case (EStop ord)
  with e t show ?thesis using sys_inv_Stop [OF s, of ord "s_loops s" ops "s_ctx s"] by (auto split: if_splits)
next
  case ECancel
  with t have "t = s\<lparr>s_ctx := CtxDone (Sentinel Canceled)\<rparr>" by simp
  with s show ?thesis by (simp add: sys_inv_def unblocked_ok_def session_ok_def names_ok_def)
next
  case (EGo i ev now)
  with t show ?thesis using sys_inv_Go [OF s] by (auto split: if_splits prod.splits)
next
  case (ESend i)
  with t show ?thesis
    using sys_inv_Send [OF s] by (auto split: if_splits g_pc.splits option.splits)
next
  case (EHandoff i ord)
  with e t show ?thesis
    using sys_inv_handoff [OF s] by (auto split: if_splits g_pc.splits option.splits)
next
  case (ERecv ord)
  with e t show ?thesis
    using sys_inv_Recv [OF s] by (auto split: if_splits list.splits option.splits)
next
  case (ELoopStop ord)
  with e t show ?thesis using sys_inv_Stop [OF s, of ord "s_loops s - 1" ops "s_ctx s"] by (auto split: if_splits)
qed

lemma reach_inv: "reach ops chk fresh s \<Longrightarrow> sys_inv s"
  by (induction rule: reach.induct) (auto simp: sys_do_def split: if_splits intro: sys_inv_event)

section \<open>Reporters stay in step\<close>

text \<open>
  A history: reporters are registered, each with its probes down, before the first \<^verbatim>\<open>Run\<close>; after
  that anything may happen except a further registration.
\<close>

fun is_setup :: "('r \<Rightarrow> bool) \<Rightarrow> ('c, 'r) event \<Rightarrow> bool" where
  "is_setup fresh (EAddReporter n r) = fresh r"
| "is_setup fresh (EAddCheck n ch opts) = True"
| "is_setup fresh _ = False"

fun is_AddReporter :: "('c, 'r) event \<Rightarrow> bool" where
  "is_AddReporter (EAddReporter n r) = True"
| "is_AddReporter _ = False"

lemma sys_run_append:
  "sys_run ops chk (es @ fs) s = Option.bind (sys_run ops chk es s) (sys_run ops chk fs)"
  by (induction es arbitrary: s) (auto split: option.splits)

context reporter
begin

lemma synced_event:
  assumes s: "sys_inv s" and sy: "synced view (s_mgr s)" and e: "event_ok fresh e" "\<not> is_AddReporter e"
    and t: "sys_event ops chk e s = Some t"
  shows "synced view (s_mgr t)"
proof (cases e)
  case (ERun ord)
  have "s_mgr t = snd (Run_start ops ord (s_ctx s) (s_mgr s))"
    using t ERun by (auto split: if_splits prod.splits run_result.splits)
  with sy sys_invD(1) [OF s] show ?thesis by (simp add: synced_Run_start)
next
  case (ERunStartup ord)
  with t e sy sys_invD(1) [OF s] show ?thesis by (auto split: if_splits simp: synced_initStartupState)
next
  case (ERunLive ord)
  with t e sy sys_invD(1) [OF s] show ?thesis by (auto split: if_splits simp: synced_setLive)
next
  case EUnblock
  then show ?thesis using t sy synced_cong [of "s_mgr t" "s_mgr s" view]
    by (auto split: if_splits user_pc.splits option.splits)
next
  case EDrain
  then show ?thesis using t sy synced_cong [of "s_mgr t" "s_mgr s" view]
    by (auto split: option.splits list.splits)
next
  case (EStop ord)
  with t e sy sys_invD(1) [OF s] show ?thesis by (auto split: if_splits simp: synced_Stop)
next
  case (ELoopStop ord)
  with t e sy sys_invD(1) [OF s] show ?thesis by (auto split: if_splits simp: synced_Stop)
next
  case (EGo i ev now)
  then obtain g where "go_step chk (s_ctx s) now ev (s_gs s ! i) (s_mgr s) = (g, s_mgr t)"
    using t by (auto split: if_splits prod.splits)
  then have "core (s_mgr t) = core (s_mgr s)" by (rule go_step_facts(1))
  with sy show ?thesis using synced_core by blast
next
  case (ESend i)
  then show ?thesis using t sy synced_cong [of "s_mgr t" "s_mgr s" view]
    by (auto split: if_splits g_pc.splits option.splits)
next
  case (EHandoff i ord)
  with t e sy sys_invD(1) [OF s] show ?thesis
    by (auto split: if_splits g_pc.splits option.splits simp: synced_loop_body)
next
  case (ERecv ord)
  then obtain ch hc hcs where r: "checkFunnel (s_mgr s) = Some ch" "ch_buf ch = hc # hcs"
      "s_mgr t = loop_body ops ord (s_ctx s) hc ((s_mgr s)\<lparr>checkFunnel := Some (ch\<lparr>ch_buf := hcs\<rparr>)\<rparr>)"
    using t by (auto split: if_splits list.splits option.splits)
  let ?m = "(s_mgr s)\<lparr>checkFunnel := Some (ch\<lparr>ch_buf := hcs\<rparr>)\<rparr>"
  have "synced view ?m" using sy synced_cong [of ?m "s_mgr s" view] by simp
  moreover have "mgr_inv ?m" using sys_invD(1) [OF s] by simp
  ultimately show ?thesis using r(3) e ERecv by (simp add: synced_loop_body)
qed (use t e sy in \<open>auto split: if_splits\<close>)

lemma synced_run:
  assumes "sys_inv s" "synced view (s_mgr s)" "list_all (event_ok fresh) es" "list_all (\<lambda>e. \<not> is_AddReporter e) es"
    and "sys_run ops chk es s = Some t"
  shows "synced view (s_mgr t)"
  using assms
proof (induction es arbitrary: s)
  case (Cons e es)
  then obtain u where u: "sys_event ops chk e s = Some u" "sys_run ops chk es u = Some t"
    by (auto simp: sys_do_def split: if_splits option.splits)
  have "sys_inv u" using sys_inv_event [where fresh = fresh, OF Cons.prems(1) _ u(1)] Cons.prems(3) by simp
  moreover have "synced view (s_mgr u)" using synced_event [where fresh = fresh, OF Cons.prems(1,2) _ _ u(1)] Cons.prems(3,4) by simp
  ultimately show ?case using Cons.IH Cons.prems(3,4) u(2) by simp
qed simp

text \<open>Before the first \<^verbatim>\<open>Run\<close> all probes of the manager are down, as are those of a fresh reporter.\<close>

lemma synced_setup:
  assumes "\<And>r. fresh r \<Longrightarrow> view r = probes_down"
    and "sys_inv s" "synced view (s_mgr s)" "mgr_probes (s_mgr s) = probes_down" "list_all (is_setup fresh) es"
    and "sys_run ops chk es s = Some t"
  shows "sys_inv t \<and> synced view (s_mgr t)"
  using assms(2-)
proof (induction es arbitrary: s)
  case (Cons e es)
  then obtain u where u: "sys_event ops chk e s = Some u" "sys_run ops chk es u = Some t"
    by (auto simp: sys_do_def split: if_splits option.splits)
  have st: "is_setup fresh e" "list_all (is_setup fresh) es" using Cons.prems(4) by simp_all
  have "event_ok fresh e" using st(1) by (cases e) simp_all
  then have "sys_inv u" using sys_inv_event [OF Cons.prems(1) _ u(1)] by simp
  moreover have "mgr_probes (s_mgr u) = probes_down"
    using u(1) st(1) Cons.prems(3)
    by (cases e) (auto split: if_splits simp: mgr_probes_def AddCheck_def AddReporter_def Let_def isLive_def isReady_def)
  moreover have "synced view (s_mgr u)"
    using u(1) st(1) Cons.prems(2,3) assms(1)
    by (cases e) (auto split: if_splits simp: synced_AddReporter)
  ultimately show ?case using Cons.IH st(2) u(2) by simp
qed simp

lemma synced_history:
  assumes "\<And>r. fresh r \<Longrightarrow> view r = probes_down"
    and "list_all (is_setup fresh) setup" "list_all (event_ok fresh) es" "list_all (\<lambda>e. \<not> is_AddReporter e) es"
    and "sys_run ops chk (setup @ es) (sys_init lg) = Some t"
  shows "synced view (s_mgr t)"
proof -
  obtain s where s: "sys_run ops chk setup (sys_init lg) = Some s" "sys_run ops chk es s = Some t"
    using assms(5) by (auto simp: sys_run_append bind_eq_Some_conv)
  have "mgr_probes (s_mgr (sys_init lg)) = probes_down" "synced view (s_mgr (sys_init lg))"
    by (simp_all add: sys_init_def mgr_probes_def Manager_zero_def isLive_def isReady_def probes_down_def synced_def)
  then have "sys_inv s \<and> synced view (s_mgr s)"
    using synced_setup [OF assms(1) sys_inv_init] assms(2) s(1) by blast
  then show ?thesis using synced_run [OF _ _ assms(3,4) s(2)] by blast
qed

end

end
