(* ===== verification/Test_Reporter.thy ===== *)
theory Test_Reporter
  imports Reporter_Interface
begin

text \<open>
  \<^verbatim>\<open>reporter/test/reporter.go\<close>: the instrumented reporter.  It keeps each probe with three 32-bit
  counters (changes, set true, set false) that wrap around, the number of updates, and the results
  it was given.  It is an interpretation of both reporter interfaces.
\<close>

record TestReporter =
  t_running :: uint32
  t_runningToggles :: uint32
  t_live :: uint32
  t_liveToggles :: uint32
  t_ready :: uint32
  t_readyToggles :: uint32
  t_startup :: uint32
  t_startupToggles :: uint32
  t_hcUpdates :: uint32
  t_liveUp :: uint32
  t_liveDown :: uint32
  t_readyUp :: uint32
  t_readyDown :: uint32
  t_startupUp :: uint32
  t_startupDown :: uint32
  t_hc :: "(string, CheckResult) gomap"

definition TestReporter_zero :: TestReporter where
  "TestReporter_zero = \<lparr>t_running = 0, t_runningToggles = 0, t_live = 0, t_liveToggles = 0,
     t_ready = 0, t_readyToggles = 0, t_startup = 0, t_startupToggles = 0, t_hcUpdates = 0,
     t_liveUp = 0, t_liveDown = 0, t_readyUp = 0, t_readyDown = 0, t_startupUp = 0,
     t_startupDown = 0, t_hc = None\<rparr>"

record Report =
  IsRunning :: bool
  NumRunningStateChanges :: uint32
  IsLive :: bool
  NumLivenessStateChanges :: uint32
  NumLivenessSetTrue :: uint32
  NumLivenessSetFalse :: uint32
  IsReady :: bool
  NumReadinessStateChanges :: uint32
  NumReadinessSetTrue :: uint32
  NumReadinessSetFalse :: uint32
  IsStartup :: bool
  NumStartupStateChanges :: uint32
  NumStartupSetTrue :: uint32
  NumStartupSetFalse :: uint32
  NumHealthCheckUpdates :: uint32
  HealthChecks :: "(string, CheckResult) gomap"

text \<open>\<^verbatim>\<open>Report()\<close>; the map of results is copied entry by entry.\<close>

definition TestReporter_Report :: "string rorder \<Rightarrow> TestReporter \<Rightarrow> Report" where
  "TestReporter_Report ord t =
     \<lparr>IsRunning = (t_running t = 1), NumRunningStateChanges = t_runningToggles t,
      IsLive = (t_live t = 1), NumLivenessStateChanges = t_liveToggles t,
      NumLivenessSetTrue = t_liveUp t, NumLivenessSetFalse = t_liveDown t,
      IsReady = (t_ready t = 1), NumReadinessStateChanges = t_readyToggles t,
      NumReadinessSetTrue = t_readyUp t, NumReadinessSetFalse = t_readyDown t,
      IsStartup = (t_startup t = 1), NumStartupStateChanges = t_startupToggles t,
      NumStartupSetTrue = t_startupUp t, NumStartupSetFalse = t_startupDown t,
      NumHealthCheckUpdates = t_hcUpdates t,
      HealthChecks = gomap_absorb (range_entries ord (gomap_entries (t_hc t))) (Some [])\<rparr>"

text \<open>\<^verbatim>\<open>boop\<close>: the flag, and the counter that goes with its new value unless its pointer is nil.\<close>

definition boop :: "bool \<Rightarrow> uint32 option \<Rightarrow> uint32 option \<Rightarrow> uint32 \<times> uint32 option \<times> uint32 option" where
  "boop b trueCnt falseCnt =
     (if b then (1, map_option (\<lambda>n. n + 1) trueCnt, falseCnt)
      else (0, trueCnt, map_option (\<lambda>n. n + 1) falseCnt))"

definition TestReporter_Run :: "ctx \<Rightarrow> TestReporter \<Rightarrow> go_error option \<times> TestReporter" where
  "TestReporter_Run c t =
     (case boop True None None of
        (v, _, _) \<Rightarrow> (None, t\<lparr>t_running := v, t_runningToggles := t_runningToggles t + 1\<rparr>))"

definition TestReporter_Stop :: "ctx \<Rightarrow> TestReporter \<Rightarrow> go_error option \<times> TestReporter" where
  "TestReporter_Stop c t =
     (case boop False None None of
        (v, _, _) \<Rightarrow> (None, t\<lparr>t_running := v, t_runningToggles := t_runningToggles t + 1\<rparr>))"

definition TestReporter_SetLiveness :: "ctx \<Rightarrow> bool \<Rightarrow> TestReporter \<Rightarrow> TestReporter" where
  "TestReporter_SetLiveness c b t =
     (case boop b (Some (t_liveUp t)) (Some (t_liveDown t)) of
        (v, up, down) \<Rightarrow>
          t\<lparr>t_live := v, t_liveUp := the up, t_liveDown := the down, t_liveToggles := t_liveToggles t + 1\<rparr>)"

definition TestReporter_SetReadiness :: "ctx \<Rightarrow> bool \<Rightarrow> TestReporter \<Rightarrow> TestReporter" where
  "TestReporter_SetReadiness c b t =
     (case boop b (Some (t_readyUp t)) (Some (t_readyDown t)) of
        (v, up, down) \<Rightarrow>
          t\<lparr>t_ready := v, t_readyUp := the up, t_readyDown := the down, t_readyToggles := t_readyToggles t + 1\<rparr>)"

definition TestReporter_SetStartup :: "ctx \<Rightarrow> bool \<Rightarrow> TestReporter \<Rightarrow> TestReporter" where
  "TestReporter_SetStartup c b t =
     (case boop b (Some (t_startupUp t)) (Some (t_startupDown t)) of
        (v, up, down) \<Rightarrow>
          t\<lparr>t_startup := v, t_startupUp := the up, t_startupDown := the down,
            t_startupToggles := t_startupToggles t + 1\<rparr>)"

text \<open>The entries of the argument come in the order of the loop over it.\<close>

definition TestReporter_UpdateHealthChecks ::
    "ctx \<Rightarrow> (string \<times> CheckResult) list \<Rightarrow> TestReporter \<Rightarrow> TestReporter" where
  "TestReporter_UpdateHealthChecks c m t =
     t\<lparr>t_hc := gomap_absorb m (t_hc t), t_hcUpdates := t_hcUpdates t + 1\<rparr>"

definition TestReporter_ops :: "TestReporter Reporter_ops" where
  "TestReporter_ops = \<lparr>r_Run = TestReporter_Run, r_Stop = TestReporter_Stop,
     r_SetLiveness = TestReporter_SetLiveness, r_SetReadiness = TestReporter_SetReadiness,
     r_SetStartup = TestReporter_SetStartup, r_UpdateHealthChecks = TestReporter_UpdateHealthChecks\<rparr>"

definition TestReporter_view :: "TestReporter \<Rightarrow> probes" where
  "TestReporter_view t = \<lparr>p_live = (t_live t = 1), p_ready = (t_ready t = 1), p_startup = (t_startup t = 1)\<rparr>"

lemmas TestReporter_defs = TestReporter_Run_def TestReporter_Stop_def TestReporter_SetLiveness_def
  TestReporter_SetReadiness_def TestReporter_SetStartup_def TestReporter_UpdateHealthChecks_def boop_def

lemma TestReporter_ops_simps [simp]:
  "r_Run TestReporter_ops = TestReporter_Run" "r_Stop TestReporter_ops = TestReporter_Stop"
  "r_SetLiveness TestReporter_ops = TestReporter_SetLiveness"
  "r_SetReadiness TestReporter_ops = TestReporter_SetReadiness"
  "r_SetStartup TestReporter_ops = TestReporter_SetStartup"
  "r_UpdateHealthChecks TestReporter_ops = TestReporter_UpdateHealthChecks"
  by (simp_all add: TestReporter_ops_def)

interpretation test_rep: reporter_store TestReporter_ops TestReporter_view
    "\<lambda>t. gomap_get (t_hc t)" "\<lambda>_. True"
  by unfold_locales
    (auto simp: TestReporter_defs TestReporter_view_def gomap_absorb_single gomap_get_put)

text \<open>
  The test reporter counts exactly the calls it gets: after any sequence of calls of its methods
  the liveness counters have grown by the number of calls that set liveness to true and to false,
  and the toggle counter by their sum, modulo the width of the counters.
\<close>

theorem TestReporter_live_counts:
  "t_liveUp (fold (do_call TestReporter_ops c) calls t) =
     t_liveUp t + of_nat (count_list calls (CallLive True)) \<and>
   t_liveDown (fold (do_call TestReporter_ops c) calls t) =
     t_liveDown t + of_nat (count_list calls (CallLive False)) \<and>
   t_liveToggles (fold (do_call TestReporter_ops c) calls t) =
     t_liveToggles t + of_nat (count_list calls (CallLive True) + count_list calls (CallLive False))"
proof (induction calls arbitrary: t)
  case (Cons e calls)
  then show ?case
    by (cases e) (auto simp: TestReporter_defs)
qed simp

end
