(* ===== verification/Manager_Properties.thy ===== *)
theory Manager_Properties
  imports Manager_Safety Test_Reporter
begin

text \<open>
  The properties of the manager, each with a run of it on the instrumented reporter where it has
  hypotheses.  The demo values below are the inputs of those runs.
\<close>

section \<open>Inputs of the example runs\<close>

text \<open>A checker that does the same each time.\<close>

definition fixed_check :: "check_outcome Checker_Check" where
  "fixed_check c out = (out, out)"

definition sick :: CheckResult where
  "sick = CheckResult_zero\<lparr>hc_Status := StatusUnhealthy\<rparr>"

type_synonym demo_mgr = "(check_outcome, TestReporter) Manager"

definition demo_mgr :: demo_mgr where
  "demo_mgr = snd (AddReporter ''t'' TestReporter_zero
     (snd (AddCheck ''db'' (Returned (Some sick)) [WithLivenessImpact]
     (snd (AddCheck ''cache'' (Returned (Some CheckResult_zero)) [WithReadinessImpact, WithStartupImpact]
        Manager_zero)))))"

definition demo_run :: demo_mgr where
  "demo_run = snd (Manager_Run TestReporter_ops id CtxActive demo_mgr)"

text \<open>Results as the goroutines send them, with the options of their registration.\<close>

definition db_down :: CheckResult where
  "db_down = sick\<lparr>hc_Name := ''db'', hc_AffectsLiveness := True\<rparr>"

definition cache_up :: CheckResult where
  "cache_up = CheckResult_zero\<lparr>hc_Name := ''cache'', hc_AffectsReadiness := True, hc_AffectsStartup := True\<rparr>"

lemma demo_inv [simp]: "mgr_inv demo_mgr"
  by (simp add: demo_mgr_def)

lemma demo_run_inv [simp]: "mgr_inv demo_run"
proof -
  have eq: "demo_run = Run_finish TestReporter_ops id CtxActive (snd (Run_start TestReporter_ops id CtxActive demo_mgr))"
    by code_simp
  show ?thesis unfolding eq by (intro mgr_inv_Run_finish mgr_inv_Run_start) simp_all
qed

lemma demo_checkers:
  "checkers demo_mgr = \<lparr>sm_data = Some
     [(''cache'', \<lparr>w_opts = AddCheckOptions_zero\<lparr>opt_Frequency := 1, opt_AffectsReadiness := True, opt_AffectsStartup := True\<rparr>,
         w_checker = Returned (Some CheckResult_zero)\<rparr>),
      (''db'', \<lparr>w_opts = AddCheckOptions_zero\<lparr>opt_Frequency := 1, opt_AffectsLiveness := True\<rparr>,
         w_checker = Returned (Some sick)\<rparr>)]\<rparr>"
  by code_simp

lemma demo_dom: "dom (Map_Get (checkers demo_mgr)) = {''cache'', ''db''}"
  by (auto simp: demo_checkers Map_Get_def gomap_get_def gomap_entries_def dom_def split: if_splits)

lemma demo_results: "Map_Get (checkResults demo_mgr) = Map.empty" "allChecksRan demo_mgr = 0"
proof -
  have "checkResults demo_mgr = Map_new" by code_simp
  then show "Map_Get (checkResults demo_mgr) = Map.empty" by (simp add: fun_eq_iff)
  show "allChecksRan demo_mgr = 0" by code_simp
qed

lemma demo_latest_startup:
  "latest_startup (\<lambda>k. map_option w_opts (Map_Get (checkers demo_mgr) k)) (latest_of [cache_up, db_down])"
  by (simp add: latest_startup_def latest_of_def demo_checkers cache_up_def db_down_def Map_Get_def gomap_get_def
      gomap_entries_def CheckResult_zero_def AddCheckOptions_zero_def fails_ready_def)

lemma demo_latest_probes:
  "\<not> latest_live (latest_of [cache_up, db_down])" "\<not> latest_ready (latest_of [cache_up, db_down])"
proof -
  have "latest_of [cache_up, db_down] ''db'' = Some db_down"
    by (simp add: latest_of_def cache_up_def db_down_def)
  moreover have "fails_live db_down" by (simp add: fails_live_def db_down_def sick_def)
  ultimately show "\<not> latest_live (latest_of [cache_up, db_down])" "\<not> latest_ready (latest_of [cache_up, db_down])"
    using fails_live_ready by (auto simp: latest_live_def latest_ready_def)
qed

section \<open>The probes follow the results\<close>

fun run_started :: "'c run_result \<Rightarrow> bool" where
  "run_started (RunStarted gs) = True"
| "run_started _ = False"

lemma Manager_Run_started:
  assumes "range_order ord" "mgr_inv m" "run_started (fst (Manager_Run ops ord c m))"
  shows "snd (Manager_Run ops ord c m) = Run_finish ops ord c (snd (Run_start ops ord c m))"
    "running (snd (Run_start ops ord c m))"
proof -
  show "snd (Manager_Run ops ord c m) = Run_finish ops ord c (snd (Run_start ops ord c m))"
    using assms(3) by (auto simp: Manager_Run_def split: prod.splits run_result.splits)
  show "running (snd (Run_start ops ord c m))"
    using mgr_invD(5) [OF assms(2)]
  proof (cases rule: Run_start_cases [where ops = ops and ord = ord and c = c])
    case (started gs rs)
    then show ?thesis by (simp add: running_def)
  qed (use assms(3) in \<open>simp_all add: Manager_Run_def\<close>)
qed

lemma Manager_Run_sim:
  assumes "range_order ord" "mgr_inv m" "run_started (fst (Manager_Run ops ord c m))"
    and "Map_Get (checkResults m) = Map.empty" "allChecksRan m = 0"
  shows "mgr_sim (snd (Manager_Run ops ord c m)) (spec_fresh (snd (Manager_Run ops ord c m)))"
    "checkers (snd (Manager_Run ops ord c m)) = checkers m"
proof -
  note wf = mgr_invD(5) [OF assms(2)]
  note run = Manager_Run_started [OF assms(1-3)]
  show "checkers (snd (Manager_Run ops ord c m)) = checkers m"
    using Run_start_frame [OF wf]
    by (simp add: run(1) Run_finish_def setLive_frame initStartupState_frame)
  show "mgr_sim (snd (Manager_Run ops ord c m)) (spec_fresh (snd (Manager_Run ops ord c m)))"
    unfolding run(1)
    by (rule mgr_sim_fresh)
      (use assms run(2) Run_start_frame [OF wf] in
        \<open>simp_all add: Run_finish_def setLive_frame initStartupState_frame running_def mgr_inv_setLive_True\<close>)
qed

text \<open>
  C1: after a successful \<^verbatim>\<open>Run\<close> of a manager that has no results yet, let the loop receive any
  sequence of results of registered checks in which every check reports, and whose latest results
  pass every startup check.  Then startup is complete, the manager is live exactly if no latest
  result is unhealthy with a liveness impact, and ready exactly if none is unhealthy with a
  liveness or readiness impact.
\<close>

theorem probes_follow_latest_results:
  assumes "range_order ord" "mgr_inv m" "Map_Get (checkResults m) = Map.empty" "allChecksRan m = 0"
    and "run_started (fst (Manager_Run ops ord c m))" "\<not> ctx_done c"
    and "hc_Name ` set hcs = dom (Map_Get (checkers m))" "hcs \<noteq> []"
    and "latest_startup (\<lambda>k. map_option w_opts (Map_Get (checkers m) k)) (latest_of hcs)"
  shows "let m' = fold (\<lambda>hc. loop_body ops ord c (Some hc)) hcs (snd (Manager_Run ops ord c m))
    in startupDone m' = 1 \<and> isLive m' = latest_live (latest_of hcs) \<and>
       isReady m' = latest_ready (latest_of hcs)"
proof -
  let ?m1 = "snd (Manager_Run ops ord c m)"
  let ?s = "spec_fresh ?m1"
  note sim = Manager_Run_sim [OF assms(1,2,5,3,4)]
  have dom_s: "dom (sp_checks ?s) = dom (Map_Get (checkers m))"
    by (auto simp: spec_fresh_def sim(2))
  have fin: "mgr_sim (fold (\<lambda>hc. loop_body ops ord c (Some hc)) hcs ?m1) (fold spec_report hcs ?s)"
    by (rule loop_run_sim [OF assms(1) sim(1) assms(6)]) (simp add: dom_s assms(7) [symmetric])
  have empty: "sp_latest ?s ++ latest_of hcs = latest_of hcs" "sp_checks ?s = (\<lambda>k. map_option w_opts (Map_Get (checkers m) k))"
    by (simp_all add: spec_fresh_def sim(2))
  have "sp_live (fold spec_report hcs ?s) = latest_live (latest_of hcs)"
    "sp_ready (fold spec_report hcs ?s) = latest_ready (latest_of hcs)"
    "sp_started (fold spec_report hcs ?s)"
    using spec_run_probes [of ?s hcs] assms(7-9) dom_s by (simp_all add: empty dom_latest_of)
  with mgr_simD(7-9) [OF fin] show ?thesis by (simp add: Let_def)
qed

theorem probes_follow_latest_results_witness:
  "let m' = fold (\<lambda>hc. loop_body TestReporter_ops id CtxActive (Some hc)) [cache_up, db_down]
              (snd (Manager_Run TestReporter_ops id CtxActive demo_mgr))
   in startupDone m' = 1 \<and> \<not> isLive m' \<and> \<not> isReady m'"
proof -
  have "run_started (fst (Manager_Run TestReporter_ops id CtxActive demo_mgr))" by code_simp
  moreover have "hc_Name ` set [cache_up, db_down] = dom (Map_Get (checkers demo_mgr))"
    unfolding demo_dom by (simp add: cache_up_def db_down_def)
  ultimately show ?thesis
    using probes_follow_latest_results [OF range_order_id demo_inv demo_results _ _ _ _ demo_latest_startup,
        of TestReporter_ops CtxActive] demo_latest_probes
    by (simp add: Let_def)
qed

text \<open>
  C6: one pass of the loop refines the specification: when the manager and the specification agree,
  processing a result of a registered check and evaluating the fitness gives a manager that agrees
  with the specification's report of that result.
\<close>

theorem loop_body_refines_report:
  assumes "range_order ord" "mgr_sim m s" "\<not> ctx_done c" "hc_Name hc \<in> dom (sp_checks s)"
  shows "mgr_sim (loop_body ops ord c (Some hc) m) (spec_report hc s)"
  using assms by (rule loop_body_sim)

lemma demo_sim: "mgr_sim demo_run (spec_fresh demo_run)"
proof -
  have "run_started (fst (Manager_Run TestReporter_ops id CtxActive demo_mgr))" by code_simp
  then show ?thesis
    unfolding demo_run_def using demo_results by (intro Manager_Run_sim(1)) simp_all
qed

lemma demo_spec_dom: "dom (sp_checks (spec_fresh demo_run)) = {''cache'', ''db''}"
proof -
  have "checkers demo_run = checkers demo_mgr" by code_simp
  then show ?thesis using demo_dom by (auto simp: spec_fresh_def dom_def)
qed

theorem loop_body_refines_report_witness:
  "mgr_sim (loop_body TestReporter_ops id CtxActive (Some db_down) demo_run)
     (spec_report db_down (spec_fresh demo_run))"
  by (rule loop_body_refines_report [OF range_order_id demo_sim])
    (simp_all add: demo_spec_dom db_down_def)

text \<open>
  C7: what \<^verbatim>\<open>evaluateFitness\<close> does in every state: nothing unless the manager runs, all checks have
  reported and startup is done or passes now; otherwise liveness becomes ``no tally cancels it'',
  readiness becomes ``no tally cancels readiness, and live'', and startup is complete.
\<close>

theorem evaluateFitness_probes:
  assumes "range_order ord" "mgr_inv m"
  shows "isLive (evaluateFitness ops ord c m) = (if gate_open m then all_live m else isLive m) \<and>
    isReady (evaluateFitness ops ord c m) = (if gate_open m then all_ready m \<and> all_live m else isReady m) \<and>
    startupDone (evaluateFitness ops ord c m) = (if gate_open m then 1 else startupDone m)"
proof -
  have "is_flag (startupDone m)" using assms(2) by (simp add: mgr_invD flags_okD)
  then show ?thesis
    using evaluateFitness_frame [OF assms, of ops c] by (auto simp: isLive_def isReady_def is_flag_def)
qed

theorem evaluateFitness_probes_witness:
  "isLive (evaluateFitness TestReporter_ops id CtxActive demo_run) =
     (if gate_open demo_run then all_live demo_run else isLive demo_run)"
  using evaluateFitness_probes [OF range_order_id demo_run_inv] by blast

text \<open>
  C20: the order in which the maps are iterated does not matter: two passes of the loop with
  different orders give managers that differ at most in the log.
\<close>

theorem loop_body_order_independent:
  assumes "range_order ord" "range_order ord'" "mgr_inv m"
  shows "core (loop_body ops ord c hco m) = core (loop_body ops ord' c hco m)"
proof -
  have p: "core (processHealthCheck ops ord c hco m) = core (processHealthCheck ops ord' c hco m)"
  proof (cases "hco = None \<or> ctx_done c")
    case True
    then show ?thesis by (auto simp: processHealthCheck_def split: option.splits)
  next
    case False
    with assms show ?thesis using processHealthCheck_core mgr_invD(1) by (metis not_Some_eq)
  qed
  let ?m1 = "processHealthCheck ops ord c hco m" and ?m2 = "processHealthCheck ops ord' c hco m"
  note f = core_eqD [OF p]
  have "gate_open ?m1 = gate_open ?m2"
    using f by (simp add: gate_open_def startup_ok_def running_def)
  moreover have "core (fitness_result ops c ?m1) = core (fitness_result ops c ?m2)"
    using f p by (simp add: fitness_result_def Let_def all_live_def all_ready_def startup_ok_def isReady_def isLive_def)
  moreover have "core (loop_body ops ord c hco m) = core (if gate_open ?m1 then fitness_result ops c ?m1 else ?m1)"
    "core (loop_body ops ord' c hco m) = core (if gate_open ?m2 then fitness_result ops c ?m2 else ?m2)"
    using assms by (simp_all add: loop_body_def evaluateFitness_core mgr_invD)
  ultimately show ?thesis using p by simp
qed

theorem loop_body_order_independent_witness:
  "core (loop_body TestReporter_ops id CtxActive (Some db_down) demo_run) =
   core (loop_body TestReporter_ops rev CtxActive (Some db_down) demo_run)"
  by (rule loop_body_order_independent) simp_all

section \<open>Registration, start and stop\<close>


text \<open>The reporters of the manager that one \<^verbatim>\<open>Run\<close> started: all of them, or none is said to be started.\<close>

lemma dispatchReporters_None:
  assumes "range_order ord" "Map_wf (reporters m)" "fst (dispatchReporters ops ord c m) = None"
    and "Map_Get (reporters m) k = Some r"
  shows "fst (r_Run ops c r) = None"
proof -
  let ?f = "\<lambda>k r (outErr, rs).
     case r_Run ops c r of
       (Some startErr, r') \<Rightarrow> (False, (Some startErr, Map_Set k r' rs))
     | (None, r') \<Rightarrow> (True, (outErr, Map_Set k r' rs))"
  have "\<forall>x\<in>set xs. fst (r_Run ops c (snd x)) = None" if "fst (each_loop ?f xs (None, rs)) = None" for xs rs
    using that
  proof (induction xs arbitrary: rs)
    case (Cons x xs)
    obtain k r where "x = (k, r)" by (cases x)
    with Cons show ?case by (auto split: prod.splits option.splits)
  qed simp
  from this [of "range_entries ord (gomap_entries (sm_data (reporters m)))" "reporters m"]
  have "\<forall>x\<in>set (range_entries ord (gomap_entries (sm_data (reporters m)))). fst (r_Run ops c (snd x)) = None"
    using assms(3) by (simp add: dispatchReporters_def Map_Each_def split: prod.splits)
  with assms(4) show ?thesis
    using Map_range_ball [OF assms(1,2), of "\<lambda>_ r. fst (r_Run ops c r) = None"] by auto
qed

lemma fold_spawn_names:
  "map g_name (fold (\<lambda>(k, v) gs. gs @ [spawn_check k v]) xs gs) = map g_name gs @ map fst xs"
  by (induction xs arbitrary: gs) (auto simp: spawn_check_def)

lemma dispatchHealthChecks_all:
  assumes "range_order ord"
  shows "fst (dispatchHealthChecks ord c m) = ctx_err c"
    and "\<not> ctx_done c \<Longrightarrow> map g_name (snd (dispatchHealthChecks ord c m)) = Map_Keys ord (checkers m)"
proof -
  show "fst (dispatchHealthChecks ord c m) = ctx_err c" by (cases c) (simp_all add: dispatchHealthChecks_def)
  show "\<not> ctx_done c \<Longrightarrow> map g_name (snd (dispatchHealthChecks ord c m)) = Map_Keys ord (checkers m)"
    by (simp add: dispatchHealthChecks_def Map_Each_def each_loop_True Map_Keys_def fold_spawn_names)
qed

text \<open>
  C13: \<^verbatim>\<open>Run\<close> on a manager that is not running and was never run either starts, and then there were
  checks and reporters, every reporter's \<^verbatim>\<open>Run\<close> succeeded, the context was live, and there is one
  goroutine for every registered check; or it fails, and then the manager is not running, its
  probes are as before and the error channel holds exactly that error.  It never blocks.
\<close>

theorem Run_outcome:
  assumes "range_order ord" "mgr_inv m" "runningPtr m = 0" "errChan m = None"
  shows "case Run_start ops ord c m of
      (RunStarted gs, m') \<Rightarrow>
        Map_Size (checkers m) > 0 \<and> Map_Size (reporters m) > 0 \<and> \<not> ctx_done c \<and> running m' \<and>
        map g_name gs = Map_Keys ord (checkers m) \<and>
        (\<forall>k r. Map_Get (reporters m) k = Some r \<longrightarrow> fst (r_Run ops c r) = None)
    | (RunFailed e, m') \<Rightarrow>
        \<not> running m' \<and> mgr_probes m' = mgr_probes m \<and> errChan m' = Some \<lparr>ch_cap = 1, ch_buf = [e]\<rparr>
    | _ \<Rightarrow> False"
  using mgr_invD(5) [OF assms(2)]
proof (cases rule: Run_start_cases [where ops = ops and ord = ord and c = c])
  case already
  with assms(3) show ?thesis by simp
next
  case (failed err rs ch m1)
  from failed(4) have "ch = \<lparr>ch_cap = 1, ch_buf = []\<rparr>"
    using assms(4) unfolding failed(2) by (auto simp: initInternals_def Let_def make_chan_def split: option.splits)
  with failed(2,3) show ?thesis by (simp add: running_def mgr_probes_def isLive_def isReady_def)
next
  case (blocked err rs)
  let ?m0 = "initInternals (m\<lparr>runningPtr := 1\<rparr>)"
  have "errChan ?m0 = Some \<lparr>ch_cap = 1, ch_buf = []\<rparr>"
    using assms(4) by (auto simp: initInternals_def Let_def make_chan_def split: option.splits)
  moreover have "snd (Run_start ops ord c m) = ?m0\<lparr>reporters := rs\<rparr>" using blocked by simp
  ultimately show ?thesis
    using blocked(1,2) validateAndStart_mgr [of ?m0 ops ord c] mgr_invD(5) [OF assms(2)]
    by (auto simp: Run_start_def Let_def split: prod.splits option.splits if_splits)
next
  case (started gs rs)
  let ?m0 = "initInternals (m\<lparr>runningPtr := 1\<rparr>)"
  obtain m1 where d: "dispatchReporters ops ord c ?m0 = (None, m1)" "dispatchHealthChecks ord c m1 = (None, gs)"
      and sz: "Map_Size (checkers m) \<noteq> 0" "Map_Size (reporters m) \<noteq> 0"
    using started(3) by (auto simp: validateAndStart_def split: if_splits prod.splits option.splits)
  have "\<not> ctx_done c" using dispatchHealthChecks_all(1) [OF assms(1), of c m1] d(2) by (cases c) simp_all
  moreover have "checkers m1 = checkers m"
    using dispatchReporters_checkers [of ops ord c ?m0] d(1) by simp
  ultimately have "map g_name gs = Map_Keys ord (checkers m)"
    using dispatchHealthChecks_all(2) [OF assms(1), of c m1] d(2) by simp
  moreover have "\<forall>k r. Map_Get (reporters m) k = Some r \<longrightarrow> fst (r_Run ops c r) = None"
    using dispatchReporters_None [OF assms(1), of ?m0 ops c] d(1) mgr_invD(5) [OF assms(2)] by auto
  ultimately show ?thesis
    using started(2) sz \<open>\<not> ctx_done c\<close> by (simp add: running_def)
qed

theorem Run_outcome_witness:
  "case Run_start TestReporter_ops id CtxActive demo_mgr of
     (RunStarted gs, m') \<Rightarrow> map g_name gs = [''cache'', ''db''] \<and> running m'
   | _ \<Rightarrow> False"
proof -
  have "runningPtr demo_mgr = 0" "errChan demo_mgr = None" by code_simp+
  moreover have "Map_Keys id (checkers demo_mgr) = [''cache'', ''db'']"
    by (simp add: demo_checkers Map_Keys_def gomap_entries_def range_entries_id)
  moreover have "run_started (fst (Run_start TestReporter_ops id CtxActive demo_mgr))" by code_simp
  ultimately show ?thesis
    using Run_outcome [OF range_order_id demo_inv, where ops = TestReporter_ops and c = CtxActive]
    by (auto split: prod.splits run_result.splits)
qed

lemma stop_error_Nil: "stop_error k e = [] \<longleftrightarrow> (\<forall>x. e = Some x \<longrightarrow> errors_Is x Canceled)"
  by (auto simp: stop_error_def split: option.splits)

lemma map_option_all: "(\<forall>k r. map_option f (g k) = Some r \<longrightarrow> P k r) \<longleftrightarrow> (\<forall>k z. g k = Some z \<longrightarrow> P k (f z))"
  by auto



end
