(* ===== verification/Manager_Progress.thy ===== *)
theory Manager_Progress
  imports Manager_Safety
begin

text \<open>
  What the goroutines can and cannot do to the process: which panics are possible, that a
  goroutine waiting to hand in its result is never stuck while the context is live, and that the
  startup gate, once open, stays open.
\<close>

section \<open>Panics\<close>

definition panic_ok :: "'c goroutine \<Rightarrow> bool" where
  "panic_ok g \<longleftrightarrow> (is_panic (g_pc g) \<longrightarrow>
     g_kind g = IntervalCheck \<and> opt_Interval (w_opts (g_wrapper g)) \<le> 0)"

lemma panic_ok_go_step:
  assumes "panic_ok g" "go_step chk c now ev g m = (g', m')"
  shows "panic_ok g'"
proof (cases "g_kind g")
  case IntervalCheck
  with assms show ?thesis
    by (auto simp: go_step_def panic_ok_def Let_def split: g_pc.splits g_event.splits if_splits prod.splits
        option.splits)
next
  case OneTimeCheck
  with assms show ?thesis
    by (auto simp: go_step_def panic_ok_def Let_def split: g_pc.splits g_event.splits if_splits prod.splits
        option.splits)
qed

lemma panic_ok_after_send [simp]: "panic_ok (after_send g)"
  by (simp add: panic_ok_def after_send_def split: g_kind.split)

lemma panic_ok_spawned:
  assumes "Run_start ops ord c m = (RunStarted gs, m')" "g \<in> set gs"
  shows "panic_ok g"
proof -
  obtain m1 where "validateAndStart ops ord c m1 = (None, gs, m')"
    using assms(1)
    by (auto simp: Run_start_def CompareAndSwapUint32_def Let_def split: if_splits prod.splits option.splits)
  from validateAndStart_names(2) [OF this assms(2)] show ?thesis by (simp add: panic_ok_def)
qed

section \<open>Progress of the funnel\<close>

text \<open>While the context is live a started session has its loop, and the funnel exists.\<close>

definition loop_ok :: "('c, 'r) sys \<Rightarrow> bool" where
  "loop_ok s \<longleftrightarrow> s_gs s \<noteq> [] \<longrightarrow> checkFunnel (s_mgr s) \<noteq> None \<and> (ctx_done (s_ctx s) \<or> s_loops s > 0)"

definition go_inv :: "('c, 'r) sys \<Rightarrow> bool" where
  "go_inv s \<longleftrightarrow> sys_inv s \<and> loop_ok s \<and> (\<forall>g\<in>set (s_gs s). panic_ok g)"

lemma go_inv_same:
  assumes "go_inv s" "sys_inv t" "s_gs t = s_gs s" "s_ctx t = s_ctx s" "s_loops t = s_loops s"
    and "checkFunnel (s_mgr s) \<noteq> None \<longrightarrow> checkFunnel (s_mgr t) \<noteq> None"
  shows "go_inv t"
  using assms by (simp add: go_inv_def loop_ok_def del: not_None_eq)

lemma go_inv_set:
  assumes "go_inv s" "sys_inv t" "s_gs t = (s_gs s)[i := g]" "panic_ok g" "s_ctx t = s_ctx s"
    "s_loops t = s_loops s" "checkFunnel (s_mgr s) \<noteq> None \<longrightarrow> checkFunnel (s_mgr t) \<noteq> None"
  shows "go_inv t"
proof -
  have "\<forall>h\<in>set (s_gs t). panic_ok h"
    using assms(1,3,4) by (auto simp: go_inv_def dest!: set_update_subset_insert [THEN subsetD])
  with assms show ?thesis by (simp add: go_inv_def loop_ok_def del: not_None_eq)
qed

lemma Run_start_funnel:
  assumes "mgr_inv m" "Run_start ops ord c m = (RunStarted gs, m')"
  shows "checkFunnel m' \<noteq> None"
  using mgr_invD(5) [OF assms(1)]
proof (cases rule: Run_start_cases [where ops = ops and ord = ord and c = c])
  case (started gs' rs)
  then have "checkFunnel m' = checkFunnel (initInternals (m\<lparr>runningPtr := 1\<rparr>))" using assms(2) by auto
  then show ?thesis by (simp only: initInternals_fields not_False_eq_True)
qed (use assms(2) in auto)

text \<open>Events that touch neither the goroutines nor the funnel.\<close>

fun quiet :: "('c, 'r) event \<Rightarrow> bool" where
  "quiet (EAddCheck n ch opts) = True"
| "quiet (EAddReporter n r) = True"
| "quiet (ERunStartup ord) = True"
| "quiet (ERunLive ord) = True"
| "quiet EUnblock = True"
| "quiet EDrain = True"
| "quiet (EStop ord) = True"
| "quiet _ = False"

lemma quiet_step:
  assumes s: "go_inv s" and e: "event_ok fresh e" and t: "sys_event ops chk e s = Some t" and q: "quiet e"
  shows "go_inv t"
proof -
  have si: "sys_inv s" using s by (simp add: go_inv_def)
  have "s_gs t = s_gs s \<and> s_ctx t = s_ctx s \<and> s_loops t = s_loops s \<and> checkFunnel (s_mgr t) = checkFunnel (s_mgr s)"
    using t q e Stop_frame(3) [OF _ sys_invD(1) [OF si]]
    by (cases e) (auto split: if_splits user_pc.splits option.splits list.splits
        simp: AddCheck_def AddReporter_def Let_def initStartupState_frame setLive_frame)
  with go_inv_same [OF s sys_inv_event [OF si e t]] show ?thesis by simp
qed

lemma go_inv_event:
  assumes s: "go_inv s" and e: "event_ok fresh e" and t: "sys_event ops chk e s = Some t"
  shows "go_inv t"
proof -
  have si: "sys_inv s" using s by (simp add: go_inv_def)
  have ti: "sys_inv t" using sys_inv_event [OF si e t] .
  note inv = sys_invD(1) [OF si]
  note fr = Run_start_frame(7) [OF mgr_invD(5) [OF inv]]
  show ?thesis
  proof (cases e)
    case (ERun ord)
    show ?thesis
    proof (cases "Run_start ops ord (s_ctx s) (s_mgr s)")
      case (Pair r m')
      have fn: "checkFunnel (s_mgr s) \<noteq> None \<longrightarrow> checkFunnel m' \<noteq> None"
        using fr [of ops ord "s_ctx s"] Pair initInternals_fields(12) [of "(s_mgr s)\<lparr>runningPtr := 1\<rparr>"]
        by (metis snd_conv)
      show ?thesis
      proof (cases r)
        case (RunStarted gs)
        with ERun t Pair have t': "s_gs t = s_gs s @ gs" "s_mgr t = m'" "s_loops t > 0"
          by (auto split: if_splits)
        moreover have "checkFunnel m' \<noteq> None" "\<forall>g\<in>set gs. panic_ok g"
          using Run_start_funnel [OF inv] panic_ok_spawned Pair RunStarted by blast+
        ultimately show ?thesis
          using s ti by (simp add: go_inv_def loop_ok_def ball_Un del: not_None_eq)
      qed (use ERun t Pair fn go_inv_same [OF s ti] in \<open>auto split: if_splits\<close>)
    qed
  next
    case (EGo i ev now)
    then obtain g where g: "go_step chk (s_ctx s) now ev (s_gs s ! i) (s_mgr s) = (g, s_mgr t)"
        "s_gs t = (s_gs s)[i := g]" "s_ctx t = s_ctx s" "s_loops t = s_loops s" "i < length (s_gs s)"
      using t by (auto split: if_splits prod.splits)
    have "panic_ok (s_gs s ! i)" using s g(5) by (simp add: go_inv_def)
    then have "panic_ok g" using panic_ok_go_step g(1) by blast
    moreover have "checkFunnel (s_mgr t) = checkFunnel (s_mgr s)"
      using core_eqD(11) [OF go_step_facts(1) [OF g(1)]] .
    ultimately show ?thesis using go_inv_set [OF s ti g(2)] g(3,4) by simp
  next
    case (ESend i)
    then have "s_gs t = (s_gs s)[i := after_send (s_gs s ! i)]" "s_ctx t = s_ctx s" "s_loops t = s_loops s"
        "checkFunnel (s_mgr t) \<noteq> None"
      using t by (auto split: if_splits g_pc.splits option.splits)
    with go_inv_set [OF s ti] show ?thesis by simp
  next
    case (EHandoff i ord)
    then obtain hc where t': "s_gs t = (s_gs s)[i := after_send (s_gs s ! i)]" "s_ctx t = s_ctx s"
        "s_loops t = s_loops s" "s_mgr t = loop_body ops ord (s_ctx s) (Some hc) (s_mgr s)"
      using t by (auto split: if_splits g_pc.splits option.splits)
    moreover have "checkFunnel (s_mgr t) = checkFunnel (s_mgr s)"
      using loop_body_frame(2) [OF _ inv] e EHandoff t'(4) by simp
    ultimately show ?thesis using go_inv_set [OF s ti t'(1)] by simp
  next
    case (ERecv ord)
    then obtain ch hc hcs where t': "s_gs t = s_gs s" "s_ctx t = s_ctx s" "s_loops t = s_loops s"
        "s_mgr t = loop_body ops ord (s_ctx s) hc ((s_mgr s)\<lparr>checkFunnel := Some (ch\<lparr>ch_buf := hcs\<rparr>)\<rparr>)"
      using t by (auto split: if_splits list.splits option.splits)
    let ?m = "(s_mgr s)\<lparr>checkFunnel := Some (ch\<lparr>ch_buf := hcs\<rparr>)\<rparr>"
    have "mgr_inv ?m" using inv by simp
    then have "checkFunnel (s_mgr t) \<noteq> None"
      using loop_body_frame(2) [of ord ?m ops "s_ctx s" hc] e ERecv t'(4) by simp
    with go_inv_same [OF s ti t'(1-3)] show ?thesis by simp
  next
    case (ELoopStop ord)
    with t e have "s_gs t = s_gs s" "s_ctx t = s_ctx s" "ctx_done (s_ctx s)"
        "checkFunnel (s_mgr t) = checkFunnel (s_mgr s)"
      using Stop_frame(3) [OF _ inv, of ord] by (auto split: if_splits)
    with s ti show ?thesis by (auto simp: go_inv_def loop_ok_def)
  next
    case ECancel
    with t s ti show ?thesis by (auto simp: go_inv_def loop_ok_def)
  qed (use quiet_step [OF s e t] in simp_all)
qed

lemma reach_go_inv: "reach ops chk fresh s \<Longrightarrow> go_inv s"
proof (induction rule: reach.induct)
  case (init lg)
  show ?case using sys_inv_init by (simp add: go_inv_def loop_ok_def sys_init_def)
next
  case (step s e t)
  then show ?case using go_inv_event by (auto simp: sys_do_def split: if_splits)
qed

end
