(* ===== verification/System_Properties.thy ===== *)
theory System_Properties
  imports Manager_Properties Manager_Progress
begin

text \<open>
  The properties of the manager with its goroutines, for every reachable state or every history of
  events, and runs that show them at work.
\<close>

section \<open>Example runs\<close>

definition demo_setup :: "(check_outcome, TestReporter) event list" where
  "demo_setup = [EAddCheck ''db'' (Returned (Some CheckResult_zero)) [WithReadinessImpact, WithStartupImpact],
     EAddReporter ''t'' TestReporter_zero]"

text \<open>A run to readiness: start, one pass of the one-time check's goroutine, and the loop.\<close>

definition demo_events :: "(check_outcome, TestReporter) event list" where
  "demo_events = [ERun id, ERunStartup id, ERunLive id, EGo 0 GProceed 0, EGo 0 GProceed 0, ESend 0, ERecv id]"

definition demo_final :: "(check_outcome, TestReporter) sys" where
  "demo_final = the (sys_run TestReporter_ops fixed_check (demo_setup @ demo_events) (sys_init None))"

definition fresh_test :: "TestReporter \<Rightarrow> bool" where
  "fresh_test r \<longleftrightarrow> r = TestReporter_zero"

lemma fresh_test_view: "fresh_test r \<Longrightarrow> TestReporter_view r = probes_down"
  by (simp add: fresh_test_def TestReporter_view_def TestReporter_zero_def probes_down_def)

lemma demo_events_ok:
  "list_all (is_setup fresh_test) demo_setup" "list_all (event_ok fresh_test) (demo_setup @ demo_events)"
  "list_all (event_ok fresh_test) demo_events" "list_all (\<lambda>e. \<not> is_AddReporter e) demo_events"
  by (simp_all add: demo_setup_def demo_events_def fresh_test_def)

lemma demo_run_final:
  "sys_run TestReporter_ops fixed_check (demo_setup @ demo_events) (sys_init None) = Some demo_final"
proof -
  have "Option.is_none (sys_run TestReporter_ops fixed_check (demo_setup @ demo_events) (sys_init None)) = False"
    by code_simp
  then show ?thesis by (simp add: demo_final_def Option.is_none_def)
qed

lemma demo_reach: "reach TestReporter_ops fixed_check fresh_test demo_final"
  using reach_run [OF reach.init demo_events_ok(2) demo_run_final] .

lemma demo_final_ready: "isReady (s_mgr demo_final)" "\<not> s_blocked demo_final" "s_runs demo_final = 1"
  by code_simp+

section \<open>Safety\<close>





text \<open>
  C16: results come only from registered checks and the funnel never holds more than its capacity,
  in every reachable state: every tally, every buffered result and every goroutine bears the name of a
  registered check, and a result waiting to be sent bears its own goroutine's name.
\<close>

theorem results_from_registered_checks:
  assumes "reach ops chk fresh s"
  shows "let D = dom (Map_Get (checkers (s_mgr s)))
    in dom (Map_Get (checkResults (s_mgr s))) \<subseteq> D \<and>
       (\<forall>ch. checkFunnel (s_mgr s) = Some ch \<longrightarrow> length (ch_buf ch) \<le> ch_cap ch \<and>
          (\<forall>hc. Some hc \<in> set (ch_buf ch) \<longrightarrow> hc_Name hc \<in> D)) \<and>
       (\<forall>g\<in>set (s_gs s). g_name g \<in> D \<and> (\<forall>hc. g_pc g = GSend hc \<longrightarrow> hc_Name hc = g_name g))"
  using sys_invD(2,4) [OF reach_inv [OF assms]] by (auto simp: names_ok_def chan_ok_def Let_def)

theorem results_from_registered_checks_witness:
  "dom (Map_Get (checkResults (s_mgr demo_final))) \<subseteq> dom (Map_Get (checkers (s_mgr demo_final)))"
  using results_from_registered_checks [OF demo_reach] by (simp add: Let_def)


text \<open>
  An interval check whose registration gives no interval: the documentation of the option promises
  a default interval, the code panics.
\<close>

definition crash_events :: "(check_outcome, TestReporter) event list" where
  "crash_events = [EAddCheck ''db'' (Returned None) [WithCheckFrequency CheckAtInterval 0 0],
     EAddReporter ''t'' TestReporter_zero, ERun id, EGo 0 GProceed 0, EGo 0 GProceed 0]"


text \<open>
  C18: a panic of a checker is contained: the step of its goroutine ends at the send of an unhealthy
  result that carries the panic, the name of the check and the impacts it was registered with, and
  the manager changes in its log only.
\<close>

theorem panicking_check_reports_unhealthy:
  assumes "chk c (w_checker (g_wrapper g)) = (Panicked r, w')"
    and "g_kind g = IntervalCheck \<and> g_pc g = GTick \<and> ev = GTicked \<or>
         g_kind g = OneTimeCheck \<and> g_pc g = GStart \<and> ev = GProceed \<and> \<not> ctx_done c"
  shows "let (g', m') = go_step chk c now ev g m; opts = w_opts (g_wrapper g)
    in core m' = core m \<and>
       g_pc g' = GSend (CheckResult_zero\<lparr>hc_Name := g_name g, hc_Status := StatusUnhealthy,
         hc_Error := Some (ErrorString (''checker panicked: '' @ r)), hc_Timestamp := now,
         hc_AffectsLiveness := opt_AffectsLiveness opts, hc_AffectsReadiness := opt_AffectsReadiness opts,
         hc_AffectsStartup := opt_AffectsStartup opts, hc_Group := opt_Group opts,
         hc_ComponentType := opt_ComponentType opts, hc_DependsOn := opt_DependsOn opts\<rparr>)"
  using assms by (auto simp: go_step_def safeCheck_def applyCheckOptions_def Let_def)

theorem panicking_check_reports_unhealthy_witness:
  "let (g', m') = go_step fixed_check CtxActive 7 GTicked
         \<lparr>g_name = ''db'', g_wrapper = \<lparr>w_opts = AddCheckOptions_zero\<lparr>opt_AffectsLiveness := True\<rparr>,
            w_checker = Panicked ''boom''\<rparr>, g_kind = IntervalCheck, g_pc = GTick\<rparr> demo_run
   in core m' = core demo_run"
  using panicking_check_reports_unhealthy [of fixed_check CtxActive
      "\<lparr>g_name = ''db'', g_wrapper = \<lparr>w_opts = AddCheckOptions_zero\<lparr>opt_AffectsLiveness := True\<rparr>,
         w_checker = Panicked ''boom''\<rparr>, g_kind = IntervalCheck, g_pc = GTick\<rparr>" "''boom''" "Panicked ''boom''"
      GTicked 7 demo_run]
  by (auto simp: fixed_check_def Let_def split: prod.splits)

text \<open>
  C8: a goroutine that waits to hand in a result is never stuck while the context is live: in every
  reachable state that has not crashed, either its send goes through, or the loop can take a result
  out of the funnel (or directly from it), which makes room.
\<close>

theorem send_never_stuck:
  assumes "reach ops chk fresh s" "\<not> crashed s" "\<not> ctx_done (s_ctx s)" "i < length (s_gs s)"
    "g_pc (s_gs s ! i) = GSend hc"
  shows "\<exists>e t. e \<in> {ESend i, EHandoff i id, ERecv id} \<and> event_ok fresh e \<and> sys_do ops chk e s = Some t"
proof -
  have "s_gs s \<noteq> []" using assms(4) by auto
  with reach_go_inv [OF assms(1)] assms(3)
  have loop: "s_loops s > 0" "checkFunnel (s_mgr s) \<noteq> None"
    unfolding go_inv_def loop_ok_def by blast+
  then obtain ch where ch: "checkFunnel (s_mgr s) = Some ch" by blast
  consider "length (ch_buf ch) < ch_cap ch" | "ch_buf ch \<noteq> []" | "ch_cap ch = 0"
    by fastforce
  then show ?thesis
  proof cases
    case 1
    then have "\<exists>t. sys_do ops chk (ESend i) s = Some t" using assms ch by (simp add: sys_do_def)
    then show ?thesis by (metis event_ok.simps(14) insertCI)
  next
    case 2
    then have "\<exists>t. sys_do ops chk (ERecv id) s = Some t"
      using assms ch loop by (cases "ch_buf ch") (simp_all add: sys_do_def)
    then show ?thesis by (metis event_ok.simps(7) insertCI range_order_id)
  next
    case 3
    then have "\<exists>t. sys_do ops chk (EHandoff i id) s = Some t" using assms ch loop by (simp add: sys_do_def)
    then show ?thesis by (metis event_ok.simps(6) insertCI range_order_id)
  qed
qed

text \<open>The run to readiness, stopped where the goroutine is about to send.\<close>

definition demo_before_send :: "(check_outcome, TestReporter) sys" where
  "demo_before_send = the (sys_run TestReporter_ops fixed_check (demo_setup @ take 5 demo_events) (sys_init None))"

theorem send_never_stuck_witness:
  "\<exists>e t. e \<in> {ESend 0, EHandoff 0 id, ERecv id} \<and> event_ok fresh_test e \<and>
     sys_do TestReporter_ops fixed_check e demo_before_send = Some t"
proof -
  let ?o = "sys_run TestReporter_ops fixed_check (demo_setup @ take 5 demo_events) (sys_init None)"
  have "Option.is_none ?o = False" by code_simp
  then have "?o = Some demo_before_send" by (auto simp: demo_before_send_def Option.is_none_def)
  moreover have "list_all (event_ok fresh_test) (demo_setup @ take 5 demo_events)"
    by (simp add: demo_setup_def demo_events_def fresh_test_def)
  ultimately have "reach TestReporter_ops fixed_check fresh_test demo_before_send"
    using reach_run [OF reach.init] by blast
  moreover have "\<not> crashed demo_before_send" "\<not> ctx_done (s_ctx demo_before_send)"
    "0 < length (s_gs demo_before_send)" by code_simp+
  moreover have "g_pc (s_gs demo_before_send ! 0) = GSend (applyCheckOptions CheckResult_zero ''db''
      (AddCheckOptions_zero\<lparr>opt_AffectsReadiness := True, opt_AffectsStartup := True\<rparr>))"
    by code_simp
  ultimately show ?thesis by (rule send_never_stuck)
qed

section \<open>Startup\<close>

lemma loop_body_startupPtr:
  assumes "range_order ord" "mgr_inv m" "startupPtr m = 1"
  shows "startupPtr (loop_body ops ord c hc m) = 1"
proof -
  have "startupDone m = 1" using assms by (simp add: mgr_invD)
  then have "startupDone (loop_body ops ord c hc m) = 1"
    using assms by (simp add: loop_body_def evaluateFitness_frame processHealthCheck_frame)
  then show ?thesis using assms by (simp add: mgr_invD(4) [OF mgr_inv_loop_body])
qed

lemma startup_event:
  assumes s: "sys_inv s" and e: "event_ok fresh e" and t: "sys_event ops chk e s = Some t"
    and "startupPtr (s_mgr s) = 1"
  shows "startupPtr (s_mgr t) = 1"
proof -
  note inv = sys_invD(1) [OF s]
  have inv': "mgr_inv (s_mgr t)" using sys_inv_event [OF s e t] by (simp add: sys_invD)
  show ?thesis
  proof (cases e)
    case (ERecv ord)
    then obtain ch hc hcs where t': "s_mgr t = loop_body ops ord (s_ctx s) hc ((s_mgr s)\<lparr>checkFunnel := Some (ch\<lparr>ch_buf := hcs\<rparr>)\<rparr>)"
      using t by (auto split: if_splits list.splits option.splits)
    with assms(4) e ERecv inv show ?thesis by (simp add: loop_body_startupPtr)
  next
    case (ERun ord)
    have "s_mgr t = snd (Run_start ops ord (s_ctx s) (s_mgr s))"
      using t ERun by (auto split: if_splits prod.splits run_result.splits)
    with assms(4) show ?thesis using Run_start_frame(6) [OF mgr_invD(5) [OF inv]] by simp
  next
    case (EGo i ev now)
    then obtain g where "go_step chk (s_ctx s) now ev (s_gs s ! i) (s_mgr s) = (g, s_mgr t)"
      using t by (auto split: if_splits prod.splits)
    from core_eqD(9) [OF go_step_facts(1) [OF this]] assms(4) show ?thesis by simp
  qed (use t e assms(4) inv in
    \<open>auto split: if_splits user_pc.splits option.splits list.splits g_pc.splits
      simp: loop_body_startupPtr AddCheck_def AddReporter_def Let_def setLive_def initStartupState_eq mgr_invD(1) Stop_frame\<close>)
qed

text \<open>
  C19: startup is sticky: once it is complete in a reachable state it is complete after every further
  history of events, sessions that end and start again included.
\<close>

theorem startup_is_sticky:
  assumes "reach ops chk fresh s" "startupDone (s_mgr s) = 1"
    and "list_all (event_ok fresh) es" "sys_run ops chk es s = Some t"
  shows "startupDone (s_mgr t) = 1 \<and> startupPtr (s_mgr t) = 1"
proof -
  have "startupPtr (s_mgr t) = 1"
    if "sys_inv s" "startupPtr (s_mgr s) = 1" "list_all (event_ok fresh) es" "sys_run ops chk es s = Some t" for s
    using that
  proof (induction es arbitrary: s)
    case (Cons e es)
    then obtain u where u: "sys_event ops chk e s = Some u" "sys_run ops chk es u = Some t"
      by (auto simp: sys_do_def split: if_splits option.splits)
    have e: "event_ok fresh e" "list_all (event_ok fresh) es" using Cons.prems(3) by simp_all
    from sys_inv_event [OF Cons.prems(1) e(1) u(1)] startup_event [OF Cons.prems(1) e(1) u(1) Cons.prems(2)]
    show ?case using Cons.IH e(2) u(2) by blast
  qed simp
  moreover have "sys_inv t" using reach_inv reach_run assms(1,3,4) by blast
  moreover have "startupPtr (s_mgr s) = 1"
    using assms(2) mgr_invD(4) [OF sys_invD(1) [OF reach_inv [OF assms(1)]]] by simp
  ultimately show ?thesis
    using assms(3,4) reach_inv [OF assms(1)] mgr_invD(4) [OF sys_invD(1)] by metis
qed

theorem startup_is_sticky_witness:
  "\<exists>t. sys_run TestReporter_ops fixed_check [EStop id, ERun id] demo_final = Some t \<and> startupDone (s_mgr t) = 1"
proof -
  have "Option.is_none (sys_run TestReporter_ops fixed_check [EStop id, ERun id] demo_final) = False" by code_simp
  then obtain t where t: "sys_run TestReporter_ops fixed_check [EStop id, ERun id] demo_final = Some t"
    by (auto simp: Option.is_none_def)
  have "startupDone (s_mgr demo_final) = 1" by code_simp
  with startup_is_sticky [OF demo_reach _ _ t] t show ?thesis by simp
qed

text \<open>
  C33: a check registered with a startup impact alone can never hold startup back: when all checks
  have reported and every startup check's result had neither liveness nor readiness impact, the next
  evaluation completes startup whatever the statuses of those results were.
\<close>

theorem startup_impact_alone_never_blocks:
  assumes "range_order ord" "mgr_inv m" "running m" "allChecksRan m = 1"
    and "\<forall>k w. Map_Get (checkers m) k = Some w \<and> opt_AffectsStartup (w_opts w) \<longrightarrow>
      (\<exists>hc. Map_Get (checkResults m) k = Some (tally hc) \<and> \<not> hc_AffectsLiveness hc \<and> \<not> hc_AffectsReadiness hc)"
  shows "startupDone (evaluateFitness ops ord c m) = 1"
proof -
  have "is_flag (startupDone m)" using assms(2) by (simp add: mgr_invD flags_okD)
  moreover have "startup_ok m"
    using assms(5) by (fastforce simp: startup_ok_def tally_cancel fails_live_def fails_ready_def)
  ultimately show ?thesis
    using assms(1-4) by (auto simp: evaluateFitness_frame gate_open_def is_flag_def)
qed

definition startup_mgr :: demo_mgr where
  "startup_mgr = processHealthCheck TestReporter_ops id CtxActive
       (Some (applyCheckOptions sick ''migrate'' (AddCheckOptions_zero\<lparr>opt_AffectsStartup := True\<rparr>)))
     (snd (Manager_Run TestReporter_ops id CtxActive
       (snd (AddReporter ''t'' TestReporter_zero
         (snd (AddCheck ''migrate'' (Returned (Some sick)) [WithStartupImpact] Manager_zero))))))"

theorem startup_impact_alone_never_blocks_witness:
  "startupDone startup_mgr = 0 \<and> startupDone (evaluateFitness TestReporter_ops id CtxActive startup_mgr) = 1"
proof
  show z: "startupDone startup_mgr = 0" by code_simp
  let ?m0 = "snd (AddReporter ''t'' TestReporter_zero
      (snd (AddCheck ''migrate'' (Returned (Some sick)) [WithStartupImpact] Manager_zero))) :: demo_mgr"
  let ?hc = "applyCheckOptions sick ''migrate'' (AddCheckOptions_zero\<lparr>opt_AffectsStartup := True\<rparr>)"
  have "run_started (fst (Manager_Run TestReporter_ops id CtxActive ?m0))" by code_simp
  then have "mgr_inv (snd (Manager_Run TestReporter_ops id CtxActive ?m0))"
    by (subst Manager_Run_started(1)) simp_all
  then have inv: "mgr_inv startup_mgr" by (simp add: startup_mgr_def)
  have r: "running startup_mgr" "allChecksRan startup_mgr = 1" by code_simp+
  have "checkResults startup_mgr = \<lparr>sm_data = Some [(''migrate'', tally ?hc)]\<rparr>" by code_simp
  moreover have "map fst (gomap_entries (sm_data (checkers startup_mgr))) = [''migrate'']" by code_simp
  moreover have "\<not> hc_AffectsLiveness ?hc" "\<not> hc_AffectsReadiness ?hc"
    by (simp_all add: applyCheckOptions_def AddCheckOptions_zero_def)
  ultimately have "Map_Get (checkers startup_mgr) k = Some w \<Longrightarrow>
      \<exists>hc. Map_Get (checkResults startup_mgr) k = Some (tally hc) \<and> \<not> hc_AffectsLiveness hc \<and> \<not> hc_AffectsReadiness hc"
    for k w
    by (auto simp: Map_Get_def gomap_get_def gomap_entries_def split: if_splits option.splits dest!: map_of_SomeD)
  then show "startupDone (evaluateFitness TestReporter_ops id CtxActive startup_mgr) = 1"
    by (intro startup_impact_alone_never_blocks [OF range_order_id inv r]) blast
qed

section \<open>Liveness at the start\<close>

definition race_events :: "(check_outcome, TestReporter) event list" where
  "race_events = [EAddCheck ''db'' (Returned (Some sick)) [WithLivenessImpact],
     EAddReporter ''t'' TestReporter_zero, ERun id, EGo 0 GProceed 0, EGo 0 GProceed 0, ESend 0, ERunStartup id,
     ERecv id, ERunLive id]"


section \<open>Relayed results\<close>

text \<open>
  C15: a result that the loop processes while the context is live is afterwards the one that every
  registered reporter holds for its check, and every other stored result is as before, for any
  reporters that satisfy the storing interface and accept updates.
\<close>

theorem every_reporter_stores_result:
  assumes "reporter_store ops view stored accepts" "range_order ord" "mgr_inv m" "\<not> ctx_done c"
    and "Map_Get (reporters m) k = Some r" "accepts r"
  shows "\<exists>r'. Map_Get (reporters (loop_body ops ord c (Some hc) m)) k = Some r' \<and>
    stored r' = (stored r)(hc_Name hc \<mapsto> hc)"
  using reporter_store.stored_after_loop_body [OF assms] by blast

theorem every_reporter_stores_result_witness:
  "gomap_get (t_hc (the (Map_Get (reporters (loop_body TestReporter_ops id CtxActive (Some db_down) demo_run)) ''t''))) ''db''
     = Some db_down"
proof -
  have "Option.is_none (Map_Get (reporters demo_run) ''t'') = False" by code_simp
  then obtain r where "Map_Get (reporters demo_run) ''t'' = Some r" by (auto simp: Option.is_none_def)
  from every_reporter_stores_result [OF test_rep.reporter_store_axioms range_order_id demo_run_inv _ this, of CtxActive db_down]
  show ?thesis by (auto simp: db_down_def)
qed

text \<open>
  Only unhealthy results take probes down: a ready manager that processes a result with any
  other status (degraded, or a status outside the enumeration, included) stays ready and live.
\<close>

theorem degraded_keeps_ready:
  assumes "range_order ord" "mgr_inv m" "ready_sound m" "isReady m" "hc_Status hc \<noteq> StatusUnhealthy"
  shows "isReady (loop_body ops ord c (Some hc) m) \<and> isLive (loop_body ops ord c (Some hc) m)"
proof -
  let ?m1 = "processHealthCheck ops ord c (Some hc) m"
  have inv1: "mgr_inv ?m1" using assms by simp
  have "\<not> cancelReady (tally hc)" using assms(5) by (simp add: fails_ready_def)
  then have "all_ready ?m1"
    using assms(3,4)
    by (auto simp: ready_sound_def all_ready_def processHealthCheck_frame accepted_def split: if_splits)
  moreover have "all_live ?m1" using all_ready_imp_live calculation mgr_invD(3) [OF inv1] by blast
  moreover have "isReady ?m1" "isLive ?m1"
    using assms(2,4) by (simp_all add: mgr_inv_def isReady_def isLive_def processHealthCheck_frame)
  ultimately show ?thesis
    unfolding loop_body_def using evaluateFitness_frame [OF assms(1) inv1, of ops c]
    by (simp add: isReady_def isLive_def)
qed

definition db_degraded :: CheckResult where
  "db_degraded = CheckResult_zero\<lparr>hc_Name := ''db'', hc_Status := StatusDegraded, hc_AffectsReadiness := True\<rparr>"

theorem degraded_keeps_ready_witness:
  "isReady (loop_body TestReporter_ops id CtxActive (Some db_degraded) (s_mgr demo_final))"
  using degraded_keeps_ready [OF range_order_id _ _ demo_final_ready(1), of db_degraded TestReporter_ops CtxActive]
    sys_invD(1,6) [OF reach_inv [OF demo_reach]] demo_final_ready(2)
  by (simp add: db_degraded_def)

end
