(* ===== verification/Cached_Checker.thy ===== *)
theory Cached_Checker
  imports Health_Core
begin

text \<open>
  \<^verbatim>\<open>cached.go\<close>: the checker that caches another checker's result for a time.  First one call, as a
  function of the readings of the clock it makes; then any number of concurrent calls under the
  read-write mutex, as an executable step function on the mutex, the cache and the callers' program
  points, with the reachable states and their invariant.
\<close>

section \<open>One call\<close>

record 'c CachedChecker =
  cc_inner :: 'c
  cc_ttl :: duration
  cc_cached :: "CheckResult option"
  cc_expiry :: instant

definition WithCache :: "'c \<Rightarrow> duration \<Rightarrow> 'c CachedChecker" where
  "WithCache c ttl = \<lparr>cc_inner = c, cc_ttl = ttl, cc_cached = None, cc_expiry = 0\<rparr>"

text \<open>\<^verbatim>\<open>c.cached != nil && time.Now().Before(c.expiry)\<close>, with what the clock reads.\<close>

definition cc_valid :: "instant \<Rightarrow> 'c CachedChecker \<Rightarrow> bool" where
  "cc_valid now cc \<longleftrightarrow> cc_cached cc \<noteq> None \<and> now < cc_expiry cc"

text \<open>The refresh under the write lock: a panic of the inner checker passes through, and only unlocks.\<close>

definition cc_refresh :: "'c Checker_Check \<Rightarrow> ctx \<Rightarrow> instant \<Rightarrow> 'c CachedChecker \<Rightarrow> check_outcome \<times> 'c CachedChecker" where
  "cc_refresh chk c now cc =
     (case chk c (cc_inner cc) of
        (Returned r, i) \<Rightarrow> (Returned r, cc\<lparr>cc_inner := i, cc_cached := r, cc_expiry := now + cc_ttl cc\<rparr>)
      | (Panicked p, i) \<Rightarrow> (Panicked p, cc\<lparr>cc_inner := i\<rparr>))"

definition CachedChecker_Check ::
    "'c Checker_Check \<Rightarrow> instant \<Rightarrow> instant \<Rightarrow> instant \<Rightarrow> ctx \<Rightarrow> 'c CachedChecker \<Rightarrow> check_outcome \<times> 'c CachedChecker" where
  "CachedChecker_Check chk t1 t2 t3 c cc =
     (if cc_valid t1 cc then (Returned (cc_cached cc), cc)
      else if cc_valid t2 cc then (Returned (cc_cached cc), cc)
      else cc_refresh chk c t3 cc)"

section \<open>Concurrent calls\<close>

text \<open>
  Where a call is: before the read lock, holding it, between the locks, holding the write lock,
  in the inner checker since some time, or back with a result at some time (or with a panic).
\<close>

datatype c_pc =
  CIdle | CReading | CWaiting | CWriting | CRefreshing instant
  | CDone "CheckResult option" instant | CPanicked string

text \<open>\<open>cs_calls\<close> records the completed calls of the inner checker: start, end and result.\<close>

record 'c csys =
  cs_cc :: "'c CachedChecker"
  cs_readers :: nat
  cs_writer :: bool
  cs_now :: instant
  cs_threads :: "c_pc list"
  cs_calls :: "(instant \<times> instant \<times> CheckResult option) list"

definition csys_init :: "'c CachedChecker \<Rightarrow> instant \<Rightarrow> nat \<Rightarrow> 'c csys" where
  "csys_init cc now n = \<lparr>cs_cc = cc, cs_readers = 0, cs_writer = False, cs_now = now,
     cs_threads = replicate n CIdle, cs_calls = []\<rparr>"

datatype c_event =
  CPass nat | CRLock nat | CRead nat | CLock nat | CRecheck nat | CFinish nat | CAgain nat

definition set_pc :: "nat \<Rightarrow> c_pc \<Rightarrow> 'c csys \<Rightarrow> 'c csys" where
  "set_pc i pc s = s\<lparr>cs_threads := (cs_threads s)[i := pc]\<rparr>"

definition at_pc :: "nat \<Rightarrow> 'c csys \<Rightarrow> c_pc option" where
  "at_pc i s = (if i < length (cs_threads s) then Some (cs_threads s ! i) else None)"

fun cstep :: "'c Checker_Check \<Rightarrow> ctx \<Rightarrow> c_event \<Rightarrow> 'c csys \<Rightarrow> 'c csys option" where
  "cstep chk c (CPass d) s = Some (s\<lparr>cs_now := cs_now s + int d\<rparr>)"
| "cstep chk c (CRLock i) s =
     (if at_pc i s = Some CIdle \<and> \<not> cs_writer s
      then Some (set_pc i CReading (s\<lparr>cs_readers := cs_readers s + 1\<rparr>)) else None)"
| "cstep chk c (CRead i) s =
     (if at_pc i s = Some CReading
      then Some (set_pc i (if cc_valid (cs_now s) (cs_cc s) then CDone (cc_cached (cs_cc s)) (cs_now s) else CWaiting)
                  (s\<lparr>cs_readers := cs_readers s - 1\<rparr>))
      else None)"
| "cstep chk c (CLock i) s =
     (if at_pc i s = Some CWaiting \<and> \<not> cs_writer s \<and> cs_readers s = 0
      then Some (set_pc i CWriting (s\<lparr>cs_writer := True\<rparr>)) else None)"
| "cstep chk c (CRecheck i) s =
     (if at_pc i s = Some CWriting
      then Some (if cc_valid (cs_now s) (cs_cc s)
                 then set_pc i (CDone (cc_cached (cs_cc s)) (cs_now s)) (s\<lparr>cs_writer := False\<rparr>)
                 else set_pc i (CRefreshing (cs_now s)) s)
      else None)"
| "cstep chk c (CFinish i) s =
     (case at_pc i s of
        Some (CRefreshing t) \<Rightarrow>
          (case cc_refresh chk c (cs_now s) (cs_cc s) of
             (Returned r, cc) \<Rightarrow>
               Some (set_pc i (CDone r (cs_now s))
                 (s\<lparr>cs_cc := cc, cs_writer := False, cs_calls := cs_calls s @ [(t, cs_now s, r)]\<rparr>))
           | (Panicked p, cc) \<Rightarrow>
               Some (set_pc i (CPanicked p) (s\<lparr>cs_cc := cc, cs_writer := False\<rparr>)))
      | _ \<Rightarrow> None)"
| "cstep chk c (CAgain i) s =
     (case at_pc i s of
        Some (CDone r t) \<Rightarrow> Some (set_pc i CIdle s)
      | Some (CPanicked p) \<Rightarrow> Some (set_pc i CIdle s)
      | _ \<Rightarrow> None)"

inductive creach :: "'c Checker_Check \<Rightarrow> ctx \<Rightarrow> 'c csys \<Rightarrow> bool" for chk c where
  creach_init: "creach chk c (csys_init (WithCache i ttl) now n)"
| creach_step: "creach chk c s \<Longrightarrow> cstep chk c e s = Some t \<Longrightarrow> creach chk c t"

fun csteps :: "'c Checker_Check \<Rightarrow> ctx \<Rightarrow> c_event list \<Rightarrow> 'c csys \<Rightarrow> 'c csys option" where
  "csteps chk c [] s = Some s"
| "csteps chk c (e # es) s = Option.bind (cstep chk c e s) (csteps chk c es)"

lemma creach_csteps: "creach chk c s \<Longrightarrow> csteps chk c es s = Some t \<Longrightarrow> creach chk c t"
  by (induction es arbitrary: s) (auto simp: bind_eq_Some_conv intro: creach_step)

section \<open>The lock\<close>

fun is_writing :: "c_pc \<Rightarrow> bool" where
  "is_writing CWriting = True"
| "is_writing (CRefreshing t) = True"
| "is_writing _ = False"

definition in_section :: "(c_pc \<Rightarrow> bool) \<Rightarrow> 'c csys \<Rightarrow> nat" where
  "in_section P s = length (filter P (cs_threads s))"

definition lock_ok :: "'c csys \<Rightarrow> bool" where
  "lock_ok s \<longleftrightarrow> cs_readers s = in_section (\<lambda>p. p = CReading) s \<and>
     in_section is_writing s = (if cs_writer s then 1 else 0) \<and> (cs_writer s \<longrightarrow> cs_readers s = 0)"

text \<open>A program point moves, and the sections are counted anew.\<close>

lemma filter_update_count:
  "i < length xs \<Longrightarrow>
   length (filter P (xs[i := x])) + (if P (xs ! i) then 1 else 0) = length (filter P xs) + (if P x then 1 else 0)"
proof (induction xs arbitrary: i)
  case (Cons y ys)
  then show ?case by (cases i) auto
qed simp

lemma set_pc_fields [simp]:
  "cs_cc (set_pc i p s) = cs_cc s" "cs_readers (set_pc i p s) = cs_readers s"
  "cs_writer (set_pc i p s) = cs_writer s" "cs_now (set_pc i p s) = cs_now s"
  "cs_calls (set_pc i p s) = cs_calls s" "cs_threads (set_pc i p s) = (cs_threads s)[i := p]"
  by (simp_all add: set_pc_def)

lemma in_section_pos: "at_pc i s = Some p \<Longrightarrow> P p \<Longrightarrow> in_section P s > 0"
  using nth_mem by (fastforce simp: at_pc_def in_section_def filter_empty_conv split: if_splits)

lemma lock_ok_move:
  assumes "lock_ok s" "at_pc i s = Some p" "cs_threads t = (cs_threads s)[i := q]"
    and "cs_readers t + (if p = CReading then 1 else 0) = cs_readers s + (if q = CReading then 1 else 0)"
    and "(if cs_writer t then 1 else 0) + (if is_writing p then 1 else 0) =
         (if cs_writer s then 1 else 0) + (if is_writing q then 1 else (0::nat))"
    and "cs_writer t \<Longrightarrow> cs_readers t = 0"
  shows "lock_ok t"
proof -
  have "in_section P t + (if P p then 1 else 0) = in_section P s + (if P q then 1 else 0)" for P
    using assms(2,3) filter_update_count [of i "cs_threads s" P q]
    by (simp add: at_pc_def in_section_def split: if_splits)
  from this [of "\<lambda>p. p = CReading"] this [of is_writing] assms(1,4-6) show ?thesis
    by (simp add: lock_ok_def split: if_splits)
qed

lemma lock_ok_writer:
  assumes "lock_ok s" "at_pc i s = Some p" "is_writing p"
  shows "cs_writer s" "cs_readers s = 0"
  using assms in_section_pos [OF assms(2), of is_writing] by (auto simp: lock_ok_def split: if_splits)

lemma lock_ok_step:
  assumes s: "lock_ok s" and t: "cstep chk c e s = Some t"
  shows "lock_ok t"
proof (cases e)
  case (CPass d)
  with s t show ?thesis by (auto simp: lock_ok_def in_section_def)
next
  case (CRLock i)
  with s t show ?thesis by (auto split: if_splits intro: lock_ok_move [OF s, of i CIdle _ CReading])
next
  case (CRead i)
  with t have p: "at_pc i s = Some CReading" by (auto split: if_splits)
  then have "cs_readers s > 0" using s in_section_pos [OF p, of "\<lambda>p. p = CReading"] by (simp add: lock_ok_def)
  moreover from this have "\<not> cs_writer s" using s by (auto simp: lock_ok_def)
  ultimately show ?thesis using CRead t p by (auto intro!: lock_ok_move [OF s p])
next
  case (CLock i)
  with s t show ?thesis by (auto split: if_splits intro: lock_ok_move [OF s, of i CWaiting _ CWriting])
next
  case (CRecheck i)
  with t have p: "at_pc i s = Some CWriting" by (auto split: if_splits)
  with CRecheck t lock_ok_writer [OF s p] show ?thesis
    by (auto split: if_splits intro!: lock_ok_move [OF s p])
next
  case (CFinish i)
  with t obtain t0 where p: "at_pc i s = Some (CRefreshing t0)" by (auto split: option.splits c_pc.splits)
  from CFinish t p obtain q where "cs_threads t = (cs_threads s)[i := q]" "\<not> is_writing q" "q \<noteq> CReading"
      "cs_readers t = cs_readers s" "\<not> cs_writer t"
    by (fastforce split: prod.splits check_outcome.splits)
  with lock_ok_writer [OF s p] show ?thesis by (auto intro!: lock_ok_move [OF s p])
next
  case (CAgain i)
  with t obtain p where "at_pc i s = Some p" "\<not> is_writing p" "p \<noteq> CReading" "t = set_pc i CIdle s"
    by (auto split: option.splits c_pc.splits)
  moreover have "cs_writer s \<Longrightarrow> cs_readers s = 0" using s by (simp add: lock_ok_def)
  ultimately show ?thesis by (intro lock_ok_move [OF s, of i p t CIdle]) auto
qed

lemma creach_lock_ok: "creach chk c s \<Longrightarrow> lock_ok s"
proof (induction rule: creach.induct)
  case (creach_init i ttl now n)
  show ?case by (simp add: lock_ok_def csys_init_def in_section_def filter_empty_conv)
qed (rule lock_ok_step)

section \<open>Calls of the inner checker\<close>

text \<open>
  The calls that completed, in order: each ends no earlier than it starts, and starts no earlier
  than the time to live after the end of the one before it if that one returned a result.
\<close>

fun spaced :: "duration \<Rightarrow> (instant \<times> instant \<times> CheckResult option) list \<Rightarrow> bool" where
  "spaced ttl [] = True"
| "spaced ttl [(s, f, r)] = (s \<le> f)"
| "spaced ttl ((s, f, r) # (s', f', r') # xs) =
     (s \<le> f \<and> (r \<noteq> None \<longrightarrow> f + ttl \<le> s') \<and> spaced ttl ((s', f', r') # xs))"

definition may_start :: "duration \<Rightarrow> (instant \<times> instant \<times> CheckResult option) list \<Rightarrow> instant \<Rightarrow> bool" where
  "may_start ttl xs t \<longleftrightarrow> (xs = [] \<or> (case last xs of (s, f, r) \<Rightarrow> r \<noteq> None \<longrightarrow> f + ttl \<le> t))"

lemma spaced_snoc: "spaced ttl xs \<Longrightarrow> may_start ttl xs t \<Longrightarrow> t \<le> f \<Longrightarrow> spaced ttl (xs @ [(t, f, r)])"
  by (induction ttl xs rule: spaced.induct) (auto simp: may_start_def split: if_splits)

text \<open>What is cached is the result of the last call, and expires the time to live after its end.\<close>

definition cache_ok :: "'c csys \<Rightarrow> bool" where
  "cache_ok s \<longleftrightarrow>
     (if cs_calls s = [] then cc_cached (cs_cc s) = None
      else case last (cs_calls s) of
             (t, f, r) \<Rightarrow> cc_cached (cs_cc s) = r \<and> cc_expiry (cs_cc s) = f + cc_ttl (cs_cc s) \<and> f \<le> cs_now s)"

definition done_ok :: "'c csys \<Rightarrow> c_pc \<Rightarrow> bool" where
  "done_ok s pc \<longleftrightarrow> (\<forall>r t. pc = CDone r t \<longrightarrow> t \<le> cs_now s \<and>
     (\<exists>(t0, f, r')\<in>set (cs_calls s). r' = r \<and> f \<le> t \<and> (t = f \<or> t < f + cc_ttl (cs_cc s))))"

definition calls_inv :: "'c csys \<Rightarrow> bool" where
  "calls_inv s \<longleftrightarrow> lock_ok s \<and> cache_ok s \<and> spaced (cc_ttl (cs_cc s)) (cs_calls s) \<and>
     (\<forall>pc\<in>set (cs_threads s). done_ok s pc \<and>
        (\<forall>t. pc = CRefreshing t \<longrightarrow> t \<le> cs_now s \<and> may_start (cc_ttl (cs_cc s)) (cs_calls s) t))"

definition pc_ok :: "'c csys \<Rightarrow> c_pc \<Rightarrow> bool" where
  "pc_ok s pc \<longleftrightarrow> done_ok s pc \<and>
     (\<forall>t. pc = CRefreshing t \<longrightarrow> t \<le> cs_now s \<and> may_start (cc_ttl (cs_cc s)) (cs_calls s) t)"

lemma calls_inv_iff:
  "calls_inv s \<longleftrightarrow> lock_ok s \<and> cache_ok s \<and> spaced (cc_ttl (cs_cc s)) (cs_calls s) \<and>
     (\<forall>pc\<in>set (cs_threads s). pc_ok s pc)"
  by (simp add: calls_inv_def pc_ok_def)

text \<open>A valid cache holds the result of a call that is not older than the time to live.\<close>

lemma valid_done_ok:
  assumes "cache_ok s" "cc_valid (cs_now s) (cs_cc s)"
  shows "done_ok s (CDone (cc_cached (cs_cc s)) (cs_now s))"
proof -
  have ne: "cs_calls s \<noteq> []" using assms by (auto simp: cache_ok_def cc_valid_def split: if_splits)
  obtain t f r where l: "last (cs_calls s) = (t, f, r)" by (metis prod_cases3)
  then have "(t, f, r) \<in> set (cs_calls s)" using ne last_in_set by metis
  with ne l assms show ?thesis by (auto simp: cache_ok_def done_ok_def cc_valid_def)
qed

lemma invalid_may_start:
  "cache_ok s \<Longrightarrow> \<not> cc_valid (cs_now s) (cs_cc s) \<Longrightarrow> may_start (cc_ttl (cs_cc s)) (cs_calls s) (cs_now s)"
  by (auto simp: cache_ok_def cc_valid_def may_start_def split: if_splits prod.splits)

lemma pc_ok_update:
  assumes "\<forall>pc\<in>set (cs_threads s). pc_ok s pc" "pc_ok t q" "cs_threads t = (cs_threads s)[i := q]"
    and "\<And>pc. pc_ok s pc \<Longrightarrow> pc_ok t pc"
  shows "\<forall>pc\<in>set (cs_threads t). pc_ok t pc"
  using assms by (auto dest!: set_update_subset_insert [THEN subsetD])

lemma calls_inv_quiet:
  assumes "calls_inv s" "lock_ok t" "cs_cc t = cs_cc s" "cs_calls t = cs_calls s" "cs_now t = cs_now s"
    and "cs_threads t = (cs_threads s)[i := q]" "pc_ok s q"
  shows "calls_inv t"
proof -
  have same: "pc_ok t pc = pc_ok s pc" for pc using assms(3-5) by (simp add: pc_ok_def done_ok_def)
  have "cache_ok t = cache_ok s" using assms(3-5) by (simp add: cache_ok_def)
  with assms same show ?thesis
    using pc_ok_update [of s t q i] by (simp add: calls_inv_iff)
qed

lemma cc_refresh_cases:
  assumes "cc_refresh chk c now cc = (out, cc')"
  shows "cc_ttl cc' = cc_ttl cc"
    "out = Returned r \<Longrightarrow> cc_cached cc' = r \<and> cc_expiry cc' = now + cc_ttl cc"
    "out = Panicked p \<Longrightarrow> cc_cached cc' = cc_cached cc \<and> cc_expiry cc' = cc_expiry cc"
  using assms by (auto simp: cc_refresh_def split: prod.splits check_outcome.splits)

lemma pc_ok_simps [simp]: "pc_ok s CIdle" "pc_ok s CReading" "pc_ok s CWaiting" "pc_ok s CWriting" "pc_ok s (CPanicked p)"
  by (simp_all add: pc_ok_def done_ok_def)

lemma calls_inv_finish:
  assumes s: "calls_inv s" and p: "at_pc i s = Some (CRefreshing t0)" and t: "cstep chk c (CFinish i) s = Some t"
    and l: "lock_ok t"
  shows "calls_inv t"
proof -
  obtain out cc where r: "cc_refresh chk c (cs_now s) (cs_cc s) = (out, cc)" by fastforce
  have "CRefreshing t0 \<in> set (cs_threads s)" using p nth_mem by (fastforce simp: at_pc_def split: if_splits)
  then have t0: "t0 \<le> cs_now s" "may_start (cc_ttl (cs_cc s)) (cs_calls s) t0"
    using s by (auto simp: calls_inv_iff pc_ok_def)
  show ?thesis
  proof (cases out)
    case (Panicked m)
    with t p r have t': "t = set_pc i (CPanicked m) (s\<lparr>cs_cc := cc, cs_writer := False\<rparr>)" by simp
    have same: "pc_ok t pc = pc_ok s pc" for pc
      unfolding t' using cc_refresh_cases(1) [OF r] by (simp add: pc_ok_def done_ok_def)
    moreover have "cache_ok t = cache_ok s" "cc_ttl (cs_cc t) = cc_ttl (cs_cc s)"
      unfolding t' using cc_refresh_cases(1,3) [OF r] Panicked by (simp_all add: cache_ok_def)
    ultimately show ?thesis
      using s l pc_ok_update [of s t "CPanicked m" i] t' by (simp add: calls_inv_iff)
  next
    case (Returned res)
    with t p r have t': "t = set_pc i (CDone res (cs_now s))
        (s\<lparr>cs_cc := cc, cs_writer := False, cs_calls := cs_calls s @ [(t0, cs_now s, res)]\<rparr>)" by simp
    note cc = cc_refresh_cases(1,2) [OF r] 
    have one: "in_section is_writing t = 0" using l by (simp add: lock_ok_def t')
    have "pc_ok t pc" if "pc_ok s pc" "\<not> is_writing pc" for pc
      using that unfolding t' by (cases pc) (auto simp: pc_ok_def done_ok_def cc)
    moreover have "\<not> is_writing pc" if "pc \<in> set (cs_threads t)" for pc
      using that one by (auto simp: in_section_def filter_empty_conv)
    moreover have "pc_ok s pc \<or> pc = CDone res (cs_now s)" if "pc \<in> set (cs_threads t)" for pc
      using that s unfolding t' by (auto simp: calls_inv_iff dest!: set_update_subset_insert [THEN subsetD])
    moreover have "pc_ok t (CDone res (cs_now s))"
      unfolding t' by (auto simp: pc_ok_def done_ok_def)
    ultimately have "\<forall>pc\<in>set (cs_threads t). pc_ok t pc" by blast
    moreover have "spaced (cc_ttl (cs_cc t)) (cs_calls t)"
      unfolding t' using s t0 by (simp add: cc calls_inv_iff spaced_snoc)
    moreover have "cache_ok t"
      unfolding t' using cc(2) [OF Returned] by (simp add: cache_ok_def cc(1))
    ultimately show ?thesis using l by (simp add: calls_inv_iff)
  qed
qed

lemma calls_inv_step:
  assumes s: "calls_inv s" and t: "cstep chk c e s = Some t"
  shows "calls_inv t"
proof -
  have l: "lock_ok t" using lock_ok_step [OF _ t] s by (simp add: calls_inv_iff)
  have c: "cache_ok s" using s by (simp add: calls_inv_iff)
  show ?thesis
  proof (cases e)
    case (CPass d)
    with t have t': "t = s\<lparr>cs_now := cs_now s + int d\<rparr>" by simp
    have "pc_ok t pc" if "pc_ok s pc" for pc
      using that unfolding t' by (fastforce simp: pc_ok_def done_ok_def)
    moreover have "cache_ok t" using c unfolding t' by (auto simp: cache_ok_def split: prod.splits)
    ultimately show ?thesis using s l t' by (simp add: calls_inv_iff)
  next
    case (CRLock i)
    with t show ?thesis by (intro calls_inv_quiet [OF s l, of i CReading]) (auto split: if_splits)
  next
    case (CRead i)
    have "pc_ok s (if cc_valid (cs_now s) (cs_cc s) then CDone (cc_cached (cs_cc s)) (cs_now s) else CWaiting)"
      using valid_done_ok [OF c] by (simp add: pc_ok_def) (simp add: done_ok_def)
    with CRead t show ?thesis
      by (intro calls_inv_quiet [OF s l, where i = i and q = "if cc_valid (cs_now s) (cs_cc s) then CDone (cc_cached (cs_cc s)) (cs_now s) else CWaiting"])
        (auto split: if_splits)
  next
    case (CLock i)
    with t show ?thesis by (intro calls_inv_quiet [OF s l, of i CWriting]) (auto split: if_splits)
  next
    case (CRecheck i)
    have "cc_valid (cs_now s) (cs_cc s) \<Longrightarrow> pc_ok s (CDone (cc_cached (cs_cc s)) (cs_now s))"
      "\<not> cc_valid (cs_now s) (cs_cc s) \<Longrightarrow> pc_ok s (CRefreshing (cs_now s))"
      using valid_done_ok [OF c] invalid_may_start [OF c] by (simp_all add: pc_ok_def done_ok_def)
    with CRecheck t show ?thesis
      by (intro calls_inv_quiet [OF s l, where i = i and q = "if cc_valid (cs_now s) (cs_cc s) then CDone (cc_cached (cs_cc s)) (cs_now s) else CRefreshing (cs_now s)"])
        (auto split: if_splits)
  next
    case (CFinish i)
    with t obtain t0 where "at_pc i s = Some (CRefreshing t0)" by (auto split: option.splits c_pc.splits)
    with calls_inv_finish [OF s _ _ l] CFinish t show ?thesis by blast
  next
    case (CAgain i)
    with t have "t = set_pc i CIdle s" by (auto split: option.splits c_pc.splits)
    then show ?thesis by (intro calls_inv_quiet [OF s l, of i CIdle]) auto
  qed
qed

lemma creach_calls_inv: "creach chk c s \<Longrightarrow> calls_inv s"
proof (induction rule: creach.induct)
  case (creach_init i ttl now n)
  show ?case
    using creach_lock_ok [OF creach.creach_init]
    by (auto simp: calls_inv_iff cache_ok_def csys_init_def WithCache_def)
qed (rule calls_inv_step)

section \<open>Properties\<close>

text \<open>A checker that counts its calls, for the examples.\<close>

definition counting_check :: "nat Checker_Check" where
  "counting_check c n = (Returned (Some (CheckResult_zero\<lparr>hc_Duration := int n\<rparr>)), Suc n)"

text \<open>Two concurrent callers on an empty cache with a time to live of 10, then a call after it.\<close>

definition herd_events :: "c_event list" where
  "herd_events = [CRLock 0, CRLock 1, CRead 0, CRead 1, CLock 0, CRecheck 0, CPass 3, CFinish 0, CLock 1,
     CRecheck 1, CAgain 0, CPass 10, CRLock 0, CRead 0, CLock 0, CRecheck 0, CFinish 0]"

definition herd_state :: "nat csys" where
  "herd_state = the (csteps counting_check CtxActive herd_events (csys_init (WithCache 0 10) 100 2))"

lemma herd_reach: "creach counting_check CtxActive herd_state"
proof -
  let ?o = "csteps counting_check CtxActive herd_events (csys_init (WithCache 0 10) 100 2)"
  have "Option.is_none ?o = False" by code_simp
  then have "?o = Some herd_state" by (auto simp: herd_state_def Option.is_none_def)
  from creach_csteps [OF creach_init this] show ?thesis .
qed

text \<open>
  Mutual exclusion in every interleaving of concurrent calls of a cached checker: at most one
  call is past the write lock, and while one is, none holds the read lock; in particular at most one
  call of the inner checker is under way.
\<close>

theorem cached_mutual_exclusion:
  assumes "creach chk c s"
  shows "in_section is_writing s \<le> 1 \<and> (in_section is_writing s = 1 \<longrightarrow> in_section (\<lambda>p. p = CReading) s = 0)"
  using creach_lock_ok [OF assms] by (simp add: lock_ok_def split: if_splits)

theorem cached_mutual_exclusion_witness: "in_section is_writing herd_state \<le> 1"
  using cached_mutual_exclusion [OF herd_reach] by blast

lemma spaced_nth:
  "spaced ttl xs \<Longrightarrow> Suc i < length xs \<Longrightarrow> xs ! i = (s, f, Some hc) \<Longrightarrow> xs ! Suc i = (s', f', r') \<Longrightarrow> f + ttl \<le> s'"
proof (induction ttl xs arbitrary: i rule: spaced.induct)
  case (3 ttl s0 f0 r0 s1 f1 r1 xs)
  then show ?case by (cases i) auto
qed simp_all

text \<open>
  C10: the inner checker is not called more often than the time to live allows: of two calls that
  follow each other, the second starts at least the time to live after the first ended, unless the
  first returned nil.
\<close>

theorem cached_refreshes_spaced:
  assumes "creach chk c s" "Suc i < length (cs_calls s)"
    and "cs_calls s ! i = (t, f, Some hc)" "cs_calls s ! Suc i = (t', f', r')"
  shows "f + cc_ttl (cs_cc s) \<le> t'"
  using creach_calls_inv [OF assms(1)] spaced_nth assms(2-4) by (auto simp: calls_inv_def)

theorem cached_refreshes_spaced_witness:
  "fst (snd (cs_calls herd_state ! 0)) + cc_ttl (cs_cc herd_state) \<le> fst (cs_calls herd_state ! Suc 0)"
proof -
  have "Suc 0 < length (cs_calls herd_state)"
    "snd (snd (cs_calls herd_state ! 0)) = Some (CheckResult_zero\<lparr>hc_Duration := 0\<rparr>)" by code_simp+
  then show ?thesis
    using cached_refreshes_spaced [OF herd_reach, of 0] by (metis prod.collapse)
qed





end
