(* ===== verification/Discovery.thy ===== *)
theory Discovery
  imports Go_Prelude
begin

text \<open>
  \<^verbatim>\<open>discovery/manifest.go\<close> and \<^verbatim>\<open>discovery/discover.go\<close>: manifests, the fetch of one manifest and the
  breadth-first discovery of the graph of services.  The HTTP client and the JSON decoder are not code
  of the repository: they are the fields of \<open>http_env\<close>, which the client calls with a state of
  the outside world.
\<close>

section \<open>Manifests and graphs\<close>

record CheckEntry =
  ce_Name :: string
  ce_Status :: string
  ce_Group :: string
  ce_ComponentType :: string
  ce_AffectsLiveness :: bool
  ce_AffectsReadiness :: bool
  ce_AffectsStartup :: bool
  ce_DependsOn :: "string list"
  ce_Duration :: string
  ce_LastCheck :: string
  ce_Error :: string

record Manifest =
  mf_Service :: string
  mf_Version :: string
  mf_Status :: string
  mf_Checks :: "CheckEntry list"
  mf_Timestamp :: instant

record Node =
  nd_Service :: string
  nd_URL :: string
  nd_Status :: string
  nd_Checks :: "CheckEntry list"
  nd_Dependencies :: "string list"

record Graph =
  g_Root :: string
  g_Nodes :: "(string, Node) gomap"
  g_Timestamp :: instant

section \<open>Fetching a manifest\<close>

definition WellKnownPath :: string where
  "WellKnownPath = ''/.well-known/health''"

definition DefaultTimeout :: duration where
  "DefaultTimeout = 5 * Second"

definition DefaultMaxDepth :: int where
  "DefaultMaxDepth = 10"

text \<open>A client: the user's, or \<^verbatim>\<open>&http.Client{Timeout: t}\<close>.\<close>

datatype 'cl http_client = UserClient 'cl | TimeoutClient duration

record 'cl discoverConfig =
  dc_client :: "'cl http_client option"
  dc_timeout :: duration
  dc_maxDepth :: int

type_synonym 'cl DiscoverOption = "'cl discoverConfig \<Rightarrow> 'cl discoverConfig"

definition WithClient :: "'cl http_client option \<Rightarrow> 'cl DiscoverOption" where
  "WithClient c cfg = cfg\<lparr>dc_client := c\<rparr>"

definition WithTimeout :: "duration \<Rightarrow> 'cl DiscoverOption" where
  "WithTimeout d cfg = cfg\<lparr>dc_timeout := d\<rparr>"

definition WithMaxDepth :: "int \<Rightarrow> 'cl DiscoverOption" where
  "WithMaxDepth n cfg = cfg\<lparr>dc_maxDepth := n\<rparr>"

text \<open>
  What the code calls of \<^verbatim>\<open>net/http\<close> and \<^verbatim>\<open>encoding/json\<close>: making a request can fail, doing it gives
  an error or a status code and a body, and decoding a body gives an error or a manifest.
\<close>

record ('cl, 'b, 'w) http_env =
  he_NewRequest :: "string \<Rightarrow> go_error option"
  he_Do :: "'cl http_client \<Rightarrow> ctx \<Rightarrow> duration \<Rightarrow> string \<Rightarrow> 'w \<Rightarrow> (go_error + int \<times> 'b) \<times> 'w"
  he_Decode :: "'b \<Rightarrow> go_error + Manifest"

definition config_client :: "'cl discoverConfig \<Rightarrow> 'cl http_client" where
  "config_client cfg = (case dc_client cfg of Some c \<Rightarrow> c | None \<Rightarrow> TimeoutClient (dc_timeout cfg))"

definition manifest_url :: "string \<Rightarrow> string" where
  "manifest_url baseURL = TrimRight baseURL ''/'' @ WellKnownPath"

definition FetchManifest ::
    "('cl, 'b, 'w) http_env \<Rightarrow> ctx \<Rightarrow> string \<Rightarrow> 'cl DiscoverOption list \<Rightarrow> 'w \<Rightarrow> (go_error + Manifest) \<times> 'w" where
  "FetchManifest env c baseURL opts w =
     (let cfg = fold (\<lambda>o' cfg. o' cfg) opts \<lparr>dc_client = None, dc_timeout = DefaultTimeout, dc_maxDepth = 0\<rparr>;
          client = config_client cfg;
          url = manifest_url baseURL
      in case he_NewRequest env url of
           Some err \<Rightarrow> (Inl (Errorf_w ''create request: '' err), w)
         | None \<Rightarrow>
             (case he_Do env client c (dc_timeout cfg) url w of
                (Inl err, w') \<Rightarrow> (Inl (Errorf_w (''fetch '' @ url @ '': '') err), w')
              | (Inr (code, body), w') \<Rightarrow>
                  if code \<noteq> 200
                  then (Inl (ErrorString (''fetch '' @ url @ '': status '' @ Itoa code)), w')
                  else (case he_Decode env body of
                          Inl err \<Rightarrow> (Inl (Errorf_w (''decode '' @ url @ '': '') err), w')
                        | Inr m \<Rightarrow> (Inr m, w'))))"

section \<open>Discovering the graph\<close>

definition isHTTPURL :: "string \<Rightarrow> bool" where
  "isHTTPURL s \<longleftrightarrow> HasPrefix s ''http://'' \<or> HasPrefix s ''https://''"

text \<open>The two nested loops over the checks and their dependencies, in order.\<close>

definition http_deps :: "Manifest \<Rightarrow> string list" where
  "http_deps m = concat (map (\<lambda>check. filter isHTTPURL (ce_DependsOn check)) (mf_Checks m))"

definition unknown_node :: "string \<Rightarrow> Node" where
  "unknown_node url = \<lparr>nd_Service = [], nd_URL = url, nd_Status = ''unknown'', nd_Checks = [], nd_Dependencies = []\<rparr>"

definition manifest_node :: "string \<Rightarrow> Manifest \<Rightarrow> Node" where
  "manifest_node url m = \<lparr>nd_Service = mf_Service m, nd_URL = url, nd_Status = mf_Status m,
     nd_Checks = mf_Checks m, nd_Dependencies = http_deps m\<rparr>"

text \<open>
  The loop over the queue.  It ends because a queued item is replaced by finitely many of greater
  depth, and items beyond the maximal depth are dropped: the multiset of the remaining depths
  decreases in the multiset order.
\<close>

definition depth_left :: "int \<Rightarrow> (string \<times> int) list \<Rightarrow> nat multiset" where
  "depth_left maxDepth queue = mset (map (\<lambda>(u, d). nat (maxDepth + 1 - d)) queue)"

function discover_loop ::
    "(string \<Rightarrow> 'w \<Rightarrow> (go_error + Manifest) \<times> 'w) \<Rightarrow> int \<Rightarrow> (string \<times> int) list \<Rightarrow>
     (string, Node) gomap \<Rightarrow> 'w \<Rightarrow> (string, Node) gomap \<times> 'w" where
  "discover_loop fetch maxDepth [] nodes w = (nodes, w)"
| "discover_loop fetch maxDepth ((url, depth) # queue) nodes w =
     (if gomap_get nodes url \<noteq> None then discover_loop fetch maxDepth queue nodes w
      else if depth > maxDepth then discover_loop fetch maxDepth queue nodes w
      else
        (case fetch url w of
           (Inl err, w') \<Rightarrow> discover_loop fetch maxDepth queue (gomap_put url (unknown_node url) nodes) w'
         | (Inr m, w') \<Rightarrow>
             discover_loop fetch maxDepth (queue @ map (\<lambda>dep. (dep, depth + 1)) (http_deps m))
               (gomap_put url (manifest_node url m) nodes) w'))"
  by pat_completeness auto

lemma depth_left_drop: "(depth_left N queue, depth_left N ((url, depth) # queue)) \<in> mult less_than"
  by (simp add: depth_left_def mult_def mult1_def) (rule r_into_trancl, force)

lemma depth_left_expand:
  assumes "depth \<le> N"
  shows "(depth_left N (queue @ map (\<lambda>dep. (dep, depth + 1)) deps), depth_left N ((url, depth) # queue)) \<in> mult less_than"
proof -
  let ?q = "depth_left N queue" and ?d = "depth_left N (map (\<lambda>dep. (dep, depth + 1)) deps)"
  have "(?q + ?d, ?q + {#nat (N + 1 - depth)#}) \<in> mult less_than"
  proof (rule one_step_implies_mult)
    show "\<forall>k\<in>set_mset ?d. \<exists>j\<in>set_mset {#nat (N + 1 - depth)#}. (k, j) \<in> less_than"
      using assms by (auto simp: depth_left_def)
  qed simp
  then show ?thesis by (simp add: depth_left_def add.commute)
qed

termination discover_loop
proof (relation "inv_image (mult less_than) (\<lambda>(fetch, N, queue, nodes, w). depth_left N queue)")
  show "wf (inv_image (mult less_than) (\<lambda>(fetch, N, queue, nodes, w). depth_left N queue))"
    by (simp add: wf_mult)
qed (auto simp: depth_left_drop depth_left_expand)

definition DiscoverGraph ::
    "('cl, 'b, 'w) http_env \<Rightarrow> instant \<Rightarrow> ctx \<Rightarrow> string \<Rightarrow> 'cl DiscoverOption list \<Rightarrow> 'w \<Rightarrow> (go_error + Graph) \<times> 'w" where
  "DiscoverGraph env now c rootURL opts w =
     (let cfg = fold (\<lambda>o' cfg. o' cfg) opts
                  \<lparr>dc_client = None, dc_timeout = DefaultTimeout, dc_maxDepth = DefaultMaxDepth\<rparr>;
          client = config_client cfg;
          fetch = (\<lambda>url. FetchManifest env c url [WithClient (Some client), WithTimeout (dc_timeout cfg)]);
          (nodes, w') = discover_loop fetch (dc_maxDepth cfg) [(rootURL, 0)] (Some []) w
      in (Inr \<lparr>g_Root = rootURL, g_Nodes = nodes, g_Timestamp = now\<rparr>, w'))"

section \<open>The traversal is breadth-first search\<close>

text \<open>The graph that the answers of the services span, and the node an answer gives.\<close>

definition succs :: "(string \<Rightarrow> go_error + Manifest) \<Rightarrow> string \<Rightarrow> string list" where
  "succs f u = (case f u of Inl _ \<Rightarrow> [] | Inr m \<Rightarrow> http_deps m)"

definition node_of :: "(string \<Rightarrow> go_error + Manifest) \<Rightarrow> string \<Rightarrow> Node" where
  "node_of f u = (case f u of Inl _ \<Rightarrow> unknown_node u | Inr m \<Rightarrow> manifest_node u m)"

definition edges :: "(string \<Rightarrow> go_error + Manifest) \<Rightarrow> (string \<times> string) set" where
  "edges f = {(u, v). v \<in> set (succs f u)}"

lemma discover_loop_visit:
  assumes "\<And>u w. fst (fetch u w) = f u" "gomap_get nodes url = None" "depth \<le> N"
  shows "discover_loop fetch N ((url, depth) # queue) nodes w =
    discover_loop fetch N (queue @ map (\<lambda>dep. (dep, depth + 1)) (succs f url))
      (gomap_put url (node_of f url) nodes) (snd (fetch url w))"
  using assms(2,3) assms(1) [of url w]
  by (auto simp: succs_def node_of_def split: prod.splits sum.splits)

text \<open>
  The invariant of the loop, with the depth \<open>D\<close> at which a node was visited: the queue is sorted by
  depth and spans at most two depths, visited nodes are no deeper than queued ones, and a
  successor of a visited node has been visited or is queued one level deeper.
\<close>

definition visited :: "(string, Node) gomap \<Rightarrow> string \<Rightarrow> bool" where
  "visited nodes u \<longleftrightarrow> gomap_get nodes u \<noteq> None"

definition bfs_queue :: "(string \<Rightarrow> go_error + Manifest) \<Rightarrow> string \<Rightarrow> (string \<times> int) list \<Rightarrow> bool" where
  "bfs_queue f root queue \<longleftrightarrow> sorted (map snd queue) \<and>
     (\<forall>(u, d)\<in>set queue. 0 \<le> d \<and> (root, u) \<in> edges f ^^ nat d \<and> d \<le> snd (hd queue) + 1)"

definition bfs_nodes ::
    "(string \<Rightarrow> go_error + Manifest) \<Rightarrow> int \<Rightarrow> string \<Rightarrow> (string \<Rightarrow> int) \<Rightarrow> (string \<times> int) list \<Rightarrow>
     (string, Node) gomap \<Rightarrow> bool" where
  "bfs_nodes f N root D queue nodes \<longleftrightarrow>
     (\<forall>u n. gomap_get nodes u = Some n \<longrightarrow> n = node_of f u \<and> 0 \<le> D u \<and> D u \<le> N \<and>
        (root, u) \<in> edges f ^^ nat (D u) \<and> (\<forall>(v, d)\<in>set queue. D u \<le> d))"

definition bfs_closed ::
    "(string \<Rightarrow> go_error + Manifest) \<Rightarrow> int \<Rightarrow> string \<Rightarrow> (string \<Rightarrow> int) \<Rightarrow> (string \<times> int) list \<Rightarrow>
     (string, Node) gomap \<Rightarrow> bool" where
  "bfs_closed f N root D queue nodes \<longleftrightarrow>
     (visited nodes root \<and> D root = 0 \<or> (root, 0) \<in> set queue) \<and>
     (\<forall>u v. visited nodes u \<and> v \<in> set (succs f u) \<and> D u + 1 \<le> N \<longrightarrow>
        visited nodes v \<and> D v \<le> D u + 1 \<or> (v, D u + 1) \<in> set queue)"

definition bfs_inv where
  "bfs_inv f N root D queue nodes \<longleftrightarrow>
     bfs_queue f root queue \<and> bfs_nodes f N root D queue nodes \<and> bfs_closed f N root D queue nodes"

lemma bfs_queue_tail: "bfs_queue f root (x # queue) \<Longrightarrow> bfs_queue f root queue"
  by (cases queue) (fastforce simp: bfs_queue_def)+

lemma bfs_nodes_tail: "bfs_nodes f N root D (x # queue) nodes \<Longrightarrow> bfs_nodes f N root D queue nodes"
  by (simp add: bfs_nodes_def)

lemma bfs_seen:
  assumes "bfs_inv f N root D ((url, depth) # queue) nodes" "visited nodes url"
  shows "bfs_inv f N root D queue nodes"
proof -
  have d: "0 \<le> D url" "D url \<le> depth"
    using assms by (auto simp: bfs_inv_def bfs_nodes_def visited_def)
  with assms have "bfs_closed f N root D queue nodes"
    by (fastforce simp: bfs_inv_def bfs_closed_def)
  with assms(1) show ?thesis
    by (auto simp: bfs_inv_def dest: bfs_queue_tail bfs_nodes_tail)
qed

lemma bfs_deep:
  assumes "bfs_inv f N root D ((url, depth) # queue) nodes" "depth > N" "0 \<le> N"
  shows "bfs_inv f N root D queue nodes"
proof -
  have "bfs_closed f N root D queue nodes"
    using assms by (auto simp: bfs_inv_def bfs_closed_def)
  with assms(1) show ?thesis
    by (auto simp: bfs_inv_def dest: bfs_queue_tail bfs_nodes_tail)
qed

lemma bfs_queue_visit:
  assumes "bfs_queue f root ((url, depth) # queue)"
  shows "bfs_queue f root (queue @ map (\<lambda>dep. (dep, depth + 1)) (succs f url))"
proof -
  let ?new = "map (\<lambda>dep. (dep, depth + 1)) (succs f url)"
  have q: "sorted (map snd queue)" "0 \<le> depth" "(root, url) \<in> edges f ^^ nat depth"
      "\<forall>(u, d)\<in>set queue. depth \<le> d \<and> (root, u) \<in> edges f ^^ nat d \<and> d \<le> depth + 1"
    using assms by (auto simp: bfs_queue_def)
  have "(root, v) \<in> edges f ^^ nat (depth + 1)" if "v \<in> set (succs f url)" for v
  proof -
    have "nat (depth + 1) = Suc (nat depth)" using q(2) by simp
    with q(3) that show ?thesis by (auto simp: edges_def)
  qed
  moreover have "depth \<le> snd (hd (queue @ ?new))" if "queue @ ?new \<noteq> []"
    using that q(4) by (cases queue) (auto simp: hd_map)
  moreover have "sorted (map snd (queue @ ?new))"
    using q(1,4) by (auto simp: sorted_append comp_def sorted_replicate)
      (auto simp: sorted_wrt_map intro: sorted_wrt_mono_rel)
  ultimately show ?thesis
    using q by (fastforce simp: bfs_queue_def)
qed

lemma bfs_visit:
  assumes inv: "bfs_inv f N root D ((url, depth) # queue) nodes" and "\<not> visited nodes url" "depth \<le> N"
  shows "bfs_inv f N root (D(url := depth)) (queue @ map (\<lambda>dep. (dep, depth + 1)) (succs f url))
    (gomap_put url (node_of f url) nodes)"
proof -
  let ?D = "D(url := depth)" and ?q = "queue @ map (\<lambda>dep. (dep, depth + 1)) (succs f url)"
    and ?nodes = "gomap_put url (node_of f url) nodes"
  note parts = inv [unfolded bfs_inv_def]
  have url: "0 \<le> depth" "(root, url) \<in> edges f ^^ nat depth" "\<forall>(u, d)\<in>set queue. depth \<le> d"
    using parts by (auto simp: bfs_queue_def)
  have vis: "visited ?nodes u \<longleftrightarrow> u = url \<or> visited nodes u" for u
    by (auto simp: visited_def gomap_get_put)
  have "bfs_nodes f N root ?D ?q ?nodes"
    using parts assms(2,3) url by (fastforce simp: bfs_nodes_def gomap_get_put visited_def)
  moreover have "bfs_closed f N root ?D ?q ?nodes"
    using parts assms(2) unfolding bfs_closed_def vis by (fastforce split: if_splits)
  ultimately show ?thesis
    using bfs_queue_visit parts by (simp add: bfs_inv_def)
qed

lemma bfs_loop:
  assumes f: "\<And>u w. fst (fetch u w) = f u" and N: "0 \<le> N" and "bfs_inv f N root D queue nodes"
  shows "\<exists>D'. bfs_inv f N root D' [] (fst (discover_loop fetch N queue nodes w))"
  using assms(3)
proof (induction "depth_left N queue" arbitrary: queue nodes w D rule: wf_induct_rule [OF wf_mult [OF wf_less_than]])
  case 1
  note IH = 1(1) and inv = 1(2)
  show ?case
  proof (cases queue)
    case Nil
    with inv show ?thesis by auto
  next
    case (Cons x q)
    obtain url depth where x: "x = (url, depth)" by (cases x)
    have drop: "(depth_left N q, depth_left N queue) \<in> mult less_than"
      unfolding Cons x by (rule depth_left_drop)
    consider (seen) "visited nodes url" | (deep) "\<not> visited nodes url" "depth > N"
      | (visit) "\<not> visited nodes url" "depth \<le> N" by fastforce
    then show ?thesis
    proof cases
      case seen
      then have "discover_loop fetch N queue nodes w = discover_loop fetch N q nodes w"
        unfolding Cons x by (simp add: visited_def)
      with IH [OF drop bfs_seen] inv seen show ?thesis unfolding Cons x by simp
    next
      case deep
      then have "discover_loop fetch N queue nodes w = discover_loop fetch N q nodes w"
        unfolding Cons x by (simp add: visited_def)
      with IH [OF drop bfs_deep] inv deep N show ?thesis unfolding Cons x by simp
    next
      case visit
      then have "gomap_get nodes url = None" by (simp add: visited_def)
      then have loop: "discover_loop fetch N queue nodes w =
          discover_loop fetch N (q @ map (\<lambda>dep. (dep, depth + 1)) (succs f url))
            (gomap_put url (node_of f url) nodes) (snd (fetch url w))"
        unfolding Cons x using discover_loop_visit [of fetch f, OF f _ visit(2)] by blast
      have "(depth_left N (q @ map (\<lambda>dep. (dep, depth + 1)) (succs f url)), depth_left N queue) \<in> mult less_than"
        unfolding Cons x by (rule depth_left_expand [OF visit(2)])
      from IH [OF this bfs_visit [OF inv [unfolded Cons x] visit]] show ?thesis unfolding loop .
    qed
  qed
qed

lemma bfs_done:
  assumes inv: "bfs_inv f N root D [] nodes"
  shows "visited nodes u \<longleftrightarrow> (\<exists>k. int k \<le> N \<and> (root, u) \<in> edges f ^^ k)"
proof
  assume "visited nodes u"
  then have "0 \<le> D u" "D u \<le> N" "(root, u) \<in> edges f ^^ nat (D u)"
    using inv by (auto simp: bfs_inv_def bfs_nodes_def visited_def)
  then show "\<exists>k. int k \<le> N \<and> (root, u) \<in> edges f ^^ k" by (intro exI [of _ "nat (D u)"]) simp
next
  assume "\<exists>k. int k \<le> N \<and> (root, u) \<in> edges f ^^ k"
  then obtain k where "int k \<le> N" "(root, u) \<in> edges f ^^ k" by blast
  then have "visited nodes u \<and> D u \<le> int k"
  proof (induction k arbitrary: u)
    case 0
    then show ?case using inv by (simp add: bfs_inv_def bfs_closed_def)
  next
    case (Suc k)
    then obtain v where v: "(root, v) \<in> edges f ^^ k" "u \<in> set (succs f v)" by (auto simp: edges_def)
    with Suc have "visited nodes v" "D v \<le> int k" by auto
    with Suc.prems v inv show ?case by (fastforce simp: bfs_inv_def bfs_closed_def)
  qed
  then show "visited nodes u" by simp
qed

lemma bfs_inv_start: "0 \<le> N \<Longrightarrow> bfs_inv f N root (\<lambda>_. 0) [(root, 0)] (Some [])"
  by (simp add: bfs_inv_def bfs_queue_def bfs_nodes_def bfs_closed_def visited_def gomap_get_def gomap_entries_def)

text \<open>The loop, started at the root: its nodes are the services within the depth, each with its answer.\<close>

lemma discover_loop_nodes:
  assumes "\<And>u w. fst (fetch u w) = f u"
  shows "gomap_get (fst (discover_loop fetch N [(root, 0)] (Some []) w)) u =
    (if \<exists>k. int k \<le> N \<and> (root, u) \<in> edges f ^^ k then Some (node_of f u) else None)"
proof (cases "0 \<le> N")
  case True
  let ?nodes = "fst (discover_loop fetch N [(root, 0)] (Some []) w)"
  obtain D where D: "bfs_inv f N root D [] ?nodes"
    using bfs_loop [of fetch f, OF assms True bfs_inv_start [OF True]] by blast
  have "\<forall>n. gomap_get ?nodes u = Some n \<longrightarrow> n = node_of f u"
    using D by (simp add: bfs_inv_def bfs_nodes_def)
  with bfs_done [OF D, of u] show ?thesis by (auto simp: visited_def)
next
  case False
  then show ?thesis by (simp add: gomap_get_def gomap_entries_def)
qed

text \<open>With a world that records the calls: one call for each node, in the order of the nodes.\<close>

lemma update_new: "map_of xs k = None \<Longrightarrow> AList.update k v xs = xs @ [(k, v)]"
  by (induction xs) (auto split: if_splits)

lemma discover_loop_log:
  assumes fetch: "\<And>u w. fetch u w = (f u, w @ [g u])"
    and "w = map g (map fst (gomap_entries nodes))"
  shows "case discover_loop fetch N queue nodes w of (nodes', w') \<Rightarrow> w' = map g (map fst (gomap_entries nodes'))"
  using assms(2)
proof (induction "depth_left N queue" arbitrary: queue nodes w rule: wf_induct_rule [OF wf_mult [OF wf_less_than]])
  case 1
  note IH = 1(1) and w = 1(2)
  show ?case
  proof (cases queue)
    case Nil
    with w show ?thesis by simp
  next
    case (Cons x q)
    obtain url depth where x: "x = (url, depth)" by (cases x)
    show ?thesis
    proof (cases "gomap_get nodes url = None \<and> depth \<le> N")
      case False
      then have "discover_loop fetch N queue nodes w = discover_loop fetch N q nodes w"
        unfolding Cons x by auto
      with IH [of q, OF _ w] show ?thesis unfolding Cons x by (simp add: depth_left_drop)
    next
      case True
      let ?q = "q @ map (\<lambda>dep. (dep, depth + 1)) (succs f url)"
      have loop: "discover_loop fetch N queue nodes w =
          discover_loop fetch N ?q (gomap_put url (node_of f url) nodes) (w @ [g url])"
        unfolding Cons x using discover_loop_visit [of fetch f nodes url depth N q w] True fetch by simp
      have d: "(depth_left N ?q, depth_left N queue) \<in> mult less_than"
        unfolding Cons x using True by (intro depth_left_expand) simp
      have "w @ [g url] = map g (map fst (gomap_entries (gomap_put url (node_of f url) nodes)))"
        using True w by (simp add: gomap_put_def gomap_get_def gomap_entries_def update_new)
      from IH [OF d this] show ?thesis unfolding loop .
    qed
  qed
qed

lemma gomap_wf_discover_loop:
  "gomap_wf nodes \<Longrightarrow> gomap_wf (fst (discover_loop fetch N queue nodes w))"
  by (induction fetch N queue nodes w rule: discover_loop.induct) (auto split: prod.splits sum.splits)

section \<open>Properties\<close>

text \<open>The settings of one discovery, and what the services answer during it.\<close>

definition discover_cfg :: "'cl DiscoverOption list \<Rightarrow> 'cl discoverConfig" where
  "discover_cfg opts = fold (\<lambda>o' cfg. o' cfg) opts
     \<lparr>dc_client = None, dc_timeout = DefaultTimeout, dc_maxDepth = DefaultMaxDepth\<rparr>"

definition answers ::
    "('cl, 'b, 'w) http_env \<Rightarrow> ctx \<Rightarrow> 'cl DiscoverOption list \<Rightarrow> 'w \<Rightarrow> string \<Rightarrow> go_error + Manifest" where
  "answers env c opts w url =
     fst (FetchManifest env c url [WithClient (Some (config_client (discover_cfg opts))),
       WithTimeout (dc_timeout (discover_cfg opts))] w)"

definition steady :: "('cl, 'b, 'w) http_env \<Rightarrow> bool" where
  "steady env \<longleftrightarrow> (\<forall>cl c d u w w'. fst (he_Do env cl c d u w) = fst (he_Do env cl c d u w'))"

lemma FetchManifest_steady:
  "steady env \<Longrightarrow> fst (FetchManifest env c u opts w) = fst (FetchManifest env c u opts w')"
  unfolding steady_def FetchManifest_def Let_def
  by (auto split: option.splits prod.splits sum.splits)
    (metis fst_conv sum.inject sum.distinct prod.inject)+

text \<open>
  C11: the discovered graph is exact: if every service answers the same way for the whole
  traversal, \<^verbatim>\<open>DiscoverGraph\<close> returns without an error a graph whose nodes are exactly the URLs that a
  chain of at most \<^verbatim>\<open>maxDepth\<close> HTTP dependencies reaches from the root, each with what its own
  manifest says (or status unknown when its fetch failed).
\<close>

theorem DiscoverGraph_exact:
  assumes "steady env"
  shows "\<exists>g. fst (DiscoverGraph env now c root opts w) = Inr g \<and> g_Root g = root \<and>
    (\<forall>u. gomap_get (g_Nodes g) u =
       (if \<exists>k. int k \<le> dc_maxDepth (discover_cfg opts) \<and> (root, u) \<in> edges (answers env c opts w) ^^ k
        then Some (node_of (answers env c opts w) u) else None))"
proof -
  let ?cfg = "discover_cfg opts"
  let ?fetch = "\<lambda>url. FetchManifest env c url [WithClient (Some (config_client ?cfg)), WithTimeout (dc_timeout ?cfg)]"
  have "fst (?fetch u v) = answers env c opts w u" for u v
    unfolding answers_def by (rule FetchManifest_steady [OF assms])
  note nodes = discover_loop_nodes [of ?fetch "answers env c opts w", OF this]
  have "fst (DiscoverGraph env now c root opts w) =
      Inr \<lparr>g_Root = root, g_Nodes = fst (discover_loop ?fetch (dc_maxDepth ?cfg) [(root, 0)] (Some []) w), g_Timestamp = now\<rparr>"
    by (simp add: DiscoverGraph_def discover_cfg_def Let_def split: prod.splits)
  then show ?thesis using nodes by simp
qed


text \<open>
  \<^verbatim>\<open>FetchManifest\<close> succeeds with a manifest exactly if the request can be made, is answered with
  status 200 and the body decodes to that manifest; every other answer is an error.  Slashes at the end
  of the base URL make no difference.
\<close>

theorem FetchManifest_success:
  "(fst (FetchManifest env c base opts w) = Inr m \<longleftrightarrow>
     (let cfg = fold (\<lambda>o' cfg. o' cfg) opts \<lparr>dc_client = None, dc_timeout = DefaultTimeout, dc_maxDepth = 0\<rparr>;
          url = manifest_url base
      in he_NewRequest env url = None \<and>
         (\<exists>body. fst (he_Do env (config_client cfg) c (dc_timeout cfg) url w) = Inr (200, body) \<and>
                 he_Decode env body = Inr m))) \<and>
   FetchManifest env c (base @ ''/'') opts w = FetchManifest env c base opts w"
proof
  show "FetchManifest env c (base @ ''/'') opts w = FetchManifest env c base opts w"
    by (simp add: FetchManifest_def manifest_url_def)
qed (auto simp: FetchManifest_def Let_def split: option.splits prod.splits sum.splits if_splits)

section \<open>An example network\<close>

text \<open>Services \<^verbatim>\<open>a\<close> and \<^verbatim>\<open>b\<close> that depend on each other, and \<^verbatim>\<open>c\<close>, which answers 500.\<close>

definition demo_check :: "string list \<Rightarrow> CheckEntry" where
  "demo_check deps = \<lparr>ce_Name = ''dep'', ce_Status = ''pass'', ce_Group = [], ce_ComponentType = [],
     ce_AffectsLiveness = False, ce_AffectsReadiness = True, ce_AffectsStartup = False, ce_DependsOn = deps,
     ce_Duration = [], ce_LastCheck = [], ce_Error = []\<rparr>"

definition demo_manifest :: "string \<Rightarrow> Manifest" where
  "demo_manifest url =
     (if url = manifest_url ''http://a''
      then \<lparr>mf_Service = ''a'', mf_Version = [], mf_Status = ''pass'',
             mf_Checks = [demo_check [''postgres'', ''http://b'']], mf_Timestamp = 0\<rparr>
      else \<lparr>mf_Service = ''b'', mf_Version = [], mf_Status = ''warn'',
             mf_Checks = [demo_check [''http://a''], demo_check [''http://c'']], mf_Timestamp = 0\<rparr>)"

definition demo_env :: "(unit, string, string list) http_env" where
  "demo_env = \<lparr>he_NewRequest = (\<lambda>_. None),
     he_Do = (\<lambda>_ _ _ u w. (if u = manifest_url ''http://c'' then Inr (500, []) else Inr (200, u), w @ [u])),
     he_Decode = (\<lambda>body. Inr (demo_manifest body))\<rparr>"

definition demo_graph :: "(go_error + Graph) \<times> string list" where
  "demo_graph = DiscoverGraph demo_env 0 CtxActive ''http://a'' [WithMaxDepth 2] []"

lemma DiscoverGraph_Inr: "\<exists>g. fst (DiscoverGraph env now c root opts w) = Inr g"
  by (simp add: DiscoverGraph_def Let_def split: prod.splits)

theorem DiscoverGraph_exact_witness:
  "\<exists>g. fst demo_graph = Inr g \<and> g_Root g = ''http://a''"
proof -
  have "steady demo_env" by (simp add: steady_def demo_env_def)
  from DiscoverGraph_exact [OF this] show ?thesis unfolding demo_graph_def by blast
qed


end
