(* ===== verification/Render.thy ===== *)
theory Render
  imports Discovery
begin

text \<open>
  \<^verbatim>\<open>discovery/render.go\<close>: the Mermaid and Graphviz renderings of a discovered graph.  The nodes come in
  the order \<open>ord\<close> of \<^verbatim>\<open>range\<close> over the map of nodes (two orders for the two loops of the DOT rendering).
\<close>

text \<open>
  \<^verbatim>\<open>strings.NewReplacer\<close> with the five pairs of the source: at each position the first pair that
  matches is applied, without overlap.
\<close>

fun sanitizeID :: "string \<Rightarrow> string" where
  "sanitizeID [] = []"
| "sanitizeID (c # s) =
     (if HasPrefix (c # s) ''://'' then CHR ''_'' # sanitizeID (drop 2 s)
      else if c \<in> set ''/.:-'' then CHR ''_'' # sanitizeID s
      else c # sanitizeID s)"

definition node_label :: "string \<Rightarrow> Node \<Rightarrow> string" where
  "node_label url node = (if nd_Service node = [] then url else nd_Service node)"

definition status_color :: "string \<Rightarrow> string" where
  "status_color st =
     (if st = ''pass'' then ''#4caf50'' else if st = ''fail'' then ''#f44336''
      else if st = ''warn'' then ''#ff9800'' else ''#9e9e9e'')"

definition mermaid_node :: "string \<Rightarrow> Node \<Rightarrow> string" where
  "mermaid_node url node =
     (let id' = sanitizeID url;
          style = ''    style '' @ id' @ '' fill:'' @ status_color (nd_Status node) @ '',color:#fff'' @ newline
      in ''    '' @ id' @ ''['' @ dquote @ node_label url node @ dquote @ '']'' @ newline @ style @
         concat (map (\<lambda>dep. ''    '' @ id' @ '' --> '' @ sanitizeID dep @ newline) (nd_Dependencies node)))"

definition Mermaid :: "string rorder \<Rightarrow> Graph \<Rightarrow> string" where
  "Mermaid ord g =
     ''graph TD'' @ newline @
     concat (map (\<lambda>(url, node). mermaid_node url node) (range_entries ord (gomap_entries (g_Nodes g))))"

definition dot_node :: "string \<Rightarrow> Node \<Rightarrow> string" where
  "dot_node url node =
     ''    '' @ sanitizeID url @ '' [label='' @ dquote @ node_label url node @ dquote @ '', fillcolor='' @ dquote @
     status_color (nd_Status node) @ dquote @ '', fontcolor='' @ dquote @ ''white'' @ dquote @ ''];'' @ newline"

definition dot_edges :: "string \<Rightarrow> Node \<Rightarrow> string" where
  "dot_edges url node =
     concat (map (\<lambda>dep. ''    '' @ sanitizeID url @ '' -> '' @ sanitizeID dep @ '';'' @ newline) (nd_Dependencies node))"

definition DOT :: "string rorder \<Rightarrow> string rorder \<Rightarrow> Graph \<Rightarrow> string" where
  "DOT ord ord' g =
     ''digraph health {'' @ newline @ ''    rankdir=TB;'' @ newline @
     ''    node [shape=box, style=filled, fontname='' @ dquote @ ''sans-serif'' @ dquote @ ''];'' @ newline @ newline @
     concat (map (\<lambda>(url, node). dot_node url node) (range_entries ord (gomap_entries (g_Nodes g)))) @ newline @
     concat (map (\<lambda>(url, node). dot_edges url node) (range_entries ord' (gomap_entries (g_Nodes g)))) @
     ''}'' @ newline"

section \<open>Identifiers\<close>

definition plain :: "string \<Rightarrow> bool" where
  "plain s \<longleftrightarrow> set s \<inter> set ''/.:-'' = {}"

lemma sanitizeID_plain_id: "plain s \<Longrightarrow> sanitizeID s = s"
  by (induction s rule: sanitizeID.induct) (auto simp: plain_def HasPrefix_def)

lemma plain_sanitizeID: "plain (sanitizeID s)"
  by (induction s rule: sanitizeID.induct) (auto simp: plain_def)

text \<open>The characters that a URL has besides the separators are kept, in order.\<close>

lemma sanitizeID_kept:
  "filter (\<lambda>c. c \<noteq> CHR ''_'') (sanitizeID s) = filter (\<lambda>c. c \<noteq> CHR ''_'' \<and> c \<notin> set ''/.:-'') s"
proof (induction s rule: sanitizeID.induct)
  case (2 c s)
  show ?case
  proof (cases "HasPrefix (c # s) ''://''")
    case True
    then obtain r where "c # s = ''://'' @ r" by (auto simp: HasPrefix_iff)
    with True 2 show ?thesis by simp
  qed (use 2 in auto)
qed simp

lemma set_sanitizeID: "set (sanitizeID s) \<subseteq> insert (CHR ''_'') (set s)"
proof (induction s rule: sanitizeID.induct)
  case (2 c s)
  have "set (drop 2 s) \<subseteq> set s" by (rule set_drop_subset)
  with 2 show ?case by (auto split: if_splits)
qed simp

section \<open>Lines\<close>

definition count_lines :: "string \<Rightarrow> nat" where
  "count_lines s = count_list s (CHR 0x0A)"

lemma count_lines_simps [simp]:
  "count_lines [] = 0" "count_lines (a @ b) = count_lines a + count_lines b"
  "count_lines (c # s) = (if c = CHR 0x0A then 1 else 0) + count_lines s"
  by (simp_all add: count_lines_def)

lemma count_lines_concat: "count_lines (concat xs) = sum_list (map count_lines xs)"
  by (induction xs) simp_all

lemma count_lines_0: "CHR 0x0A \<notin> set s \<Longrightarrow> count_lines s = 0"
  by (simp add: count_lines_def count_list_0_iff)

lemma count_lines_color [simp]: "count_lines (status_color st) = 0"
  by (simp add: status_color_def)

definition node_clean :: "string \<Rightarrow> Node \<Rightarrow> bool" where
  "node_clean url node \<longleftrightarrow> CHR 0x0A \<notin> set url \<and> CHR 0x0A \<notin> set (nd_Service node) \<and>
     (\<forall>d\<in>set (nd_Dependencies node). CHR 0x0A \<notin> set d)"

lemma count_lines_sanitizeID: "CHR 0x0A \<notin> set s \<Longrightarrow> count_lines (sanitizeID s) = 0"
  using set_sanitizeID [of s] by (intro count_lines_0) auto

lemma count_lines_label: "node_clean url node \<Longrightarrow> count_lines (node_label url node) = 0"
  by (simp add: node_label_def node_clean_def count_lines_0)

lemma count_lines_mermaid_node:
  assumes "node_clean url node"
  shows "count_lines (mermaid_node url node) = 2 + length (nd_Dependencies node)"
proof -
  have "sum_list (map (\<lambda>dep. Suc (count_lines (sanitizeID dep))) deps) = length deps"
    if "\<forall>d\<in>set deps. CHR 0x0A \<notin> set d" for deps
    using that by (induction deps) (simp_all add: count_lines_sanitizeID)
  then show ?thesis
    using assms count_lines_label [OF assms]
    by (simp add: mermaid_node_def Let_def count_lines_concat comp_def newline_def dquote_def node_clean_def
        count_lines_sanitizeID)
qed

lemma sum_list_range_entries:
  fixes h :: "'k \<times> 'v \<Rightarrow> nat"
  assumes "range_order ord" "distinct (map fst xs)"
  shows "sum_list (map h (range_entries ord xs)) = sum_list (map h xs)"
proof -
  have "distinct (range_entries ord xs)" "distinct xs"
    using range_entries_distinct [OF assms] assms(2) by (simp_all add: distinct_map)
  then have "mset (range_entries ord xs) = mset xs"
    using range_entries_set [OF assms] set_eq_iff_mset_eq_distinct by blast
  then show ?thesis by (metis mset_map sum_mset_sum_list)
qed

section \<open>Properties\<close>

text \<open>
  Node identifiers are safe for both formats: whatever the URL, its identifier has none of the
  separators that the replacer removes, sanitizing again changes nothing, and every other
  character of the URL is kept in order.
\<close>

theorem sanitizeID_safe:
  "set (sanitizeID s) \<inter> set ''/.:-'' = {} \<and> sanitizeID (sanitizeID s) = sanitizeID s \<and>
   filter (\<lambda>c. c \<noteq> CHR ''_'') (sanitizeID s) = filter (\<lambda>c. c \<noteq> CHR ''_'' \<and> c \<notin> set ''/.:-'') s"
  using plain_sanitizeID [of s] sanitizeID_plain_id [OF plain_sanitizeID] sanitizeID_kept
  by (simp add: plain_def)

text \<open>
  The identifiers do not tell all services apart: two different URLs can have the same
  identifier, and then their nodes are drawn as one.
\<close>

theorem sanitizeID_collides:
  "''http://a-b'' \<noteq> ''http://a.b'' \<and> sanitizeID ''http://a-b'' = sanitizeID ''http://a.b''"
  by code_simp



end
