(* ===== verification/Checkers.thy ===== *)
theory Checkers
  imports Manager_Std
begin

text \<open>
  The checkers of \<^verbatim>\<open>checker/command\<close>, \<^verbatim>\<open>checker/db\<close>, \<^verbatim>\<open>checker/dns\<close>, \<^verbatim>\<open>checker/http\<close> and \<^verbatim>\<open>checker/tcp\<close>.
  Each is a record of its fields, its options and constructor, and its \<^verbatim>\<open>Check\<close> as a function of the
  readings of the clock and of what the call it makes (the user's function, the pinger, the
  resolver, the HTTP client, the dialer) does.  The locale \<open>checker_contract\<close> states what a checker of
  the repository promises to the manager that calls it, and what the manager makes of it.
\<close>

text \<open>A call of a function the user or the system supplies: it returns or panics.\<close>

datatype 'a fn_outcome = FnReturns 'a | FnPanics string

text \<open>A context derived with \<^verbatim>\<open>context.WithTimeout\<close>: the parent and the timeout.\<close>

type_synonym timeout_ctx = "ctx \<times> duration"

section \<open>checker/command\<close>

record CommandChecker =
  cmd_name :: string
  cmd_fn :: "ctx \<Rightarrow> go_error option fn_outcome"

definition Command_NewChecker :: "string \<Rightarrow> (ctx \<Rightarrow> go_error option fn_outcome) \<Rightarrow> CommandChecker" where
  "Command_NewChecker name fn = \<lparr>cmd_name = name, cmd_fn = fn\<rparr>"

text \<open>The panic of the function is recovered, with its \<^verbatim>\<open>%v\<close> text.\<close>

definition Command_Check :: "instant \<Rightarrow> instant \<Rightarrow> ctx \<Rightarrow> CommandChecker \<Rightarrow> check_outcome" where
  "Command_Check start stop c ck =
     (case cmd_fn ck c of
        FnPanics r \<Rightarrow> Returned (Some (CheckResult_zero\<lparr>hc_Name := cmd_name ck, hc_Status := StatusUnhealthy,
          hc_Error := Some (ErrorString (''checker panicked: '' @ r)), hc_Duration := stop - start, hc_Timestamp := start\<rparr>))
      | FnReturns (Some err) \<Rightarrow> Returned (Some (CheckResult_zero\<lparr>hc_Name := cmd_name ck, hc_Status := StatusUnhealthy,
          hc_Error := Some err, hc_Duration := stop - start, hc_Timestamp := start\<rparr>))
      | FnReturns None \<Rightarrow> Returned (Some (CheckResult_zero\<lparr>hc_Name := cmd_name ck, hc_Status := StatusHealthy,
          hc_Duration := stop - start, hc_Timestamp := start\<rparr>)))"

section \<open>checker/db\<close>

definition DefaultPingTimeout :: duration where
  "DefaultPingTimeout = 3 * Second"

text \<open>A pinger that may be nil; its method runs in the derived context.\<close>

type_synonym CtxPinger = "(timeout_ctx \<Rightarrow> go_error option fn_outcome) option"

record DbChecker =
  db_name :: string
  db_pinger :: CtxPinger
  db_timeout :: duration

definition Db_WithTimeout :: "duration \<Rightarrow> DbChecker \<Rightarrow> DbChecker" where
  "Db_WithTimeout timeout ck = ck\<lparr>db_timeout := timeout\<rparr>"

definition Db_NewChecker :: "string \<Rightarrow> CtxPinger \<Rightarrow> (DbChecker \<Rightarrow> DbChecker) list \<Rightarrow> DbChecker" where
  "Db_NewChecker name pinger opts =
     fold (\<lambda>o' ck. o' ck) opts \<lparr>db_name = name, db_pinger = pinger, db_timeout = DefaultPingTimeout\<rparr>"

definition db_origin :: "(string, string) gomap" where
  "db_origin = Some [(''origin'', ''github.com/schigh/health/v2/checker/db.Checker.Check'')]"

text \<open>The clock is read at the start, before the ping and after it.\<close>

definition Db_Check :: "instant \<Rightarrow> instant \<Rightarrow> instant \<Rightarrow> ctx \<Rightarrow> DbChecker \<Rightarrow> check_outcome" where
  "Db_Check now start stop c ck =
     (if ctx_done c then
        Returned (Some (CheckResult_zero\<lparr>hc_Name := db_name ck, hc_Status := StatusUnhealthy,
          hc_Error := Some (ErrorString ''invalid context''), hc_ErrorSince := now, hc_Timestamp := now,
          hc_Metadata := db_origin\<rparr>))
      else
        let out = CheckResult_zero\<lparr>hc_Name := db_name ck, hc_Status := StatusHealthy, hc_Timestamp := now\<rparr>
        in case db_pinger ck of
             None \<Rightarrow> Returned (Some (out\<lparr>hc_Status := StatusUnhealthy,
               hc_Error := Some (ErrorString ''invalid pinger''), hc_ErrorSince := now, hc_Metadata := db_origin\<rparr>))
           | Some ping \<Rightarrow>
               (case ping (c, db_timeout ck) of
                  FnPanics r \<Rightarrow> Panicked r
                | FnReturns err \<Rightarrow>
                    let out1 = out\<lparr>hc_Duration := stop - start\<rparr>
                    in Returned (Some (case err of
                         None \<Rightarrow> out1
                       | Some e \<Rightarrow> out1\<lparr>hc_Status := StatusUnhealthy, hc_Error := Some e, hc_ErrorSince := now,
                           hc_Metadata := db_origin\<rparr>))))"

section \<open>checker/dns\<close>

text \<open>A resolver is what its \<^verbatim>\<open>LookupHost\<close> returns.\<close>

type_synonym resolver = "timeout_ctx \<Rightarrow> string \<Rightarrow> go_error + string list"

record DnsChecker =
  dns_name :: string
  dns_hostname :: string
  dns_resolver :: "resolver option"
  dns_timeout :: duration

definition checker_DefaultTimeout :: duration where
  "checker_DefaultTimeout = 5 * Second"

definition Dns_WithTimeout :: "duration \<Rightarrow> DnsChecker \<Rightarrow> DnsChecker" where
  "Dns_WithTimeout d ck = ck\<lparr>dns_timeout := d\<rparr>"

definition Dns_WithResolver :: "resolver option \<Rightarrow> DnsChecker \<Rightarrow> DnsChecker" where
  "Dns_WithResolver r ck = ck\<lparr>dns_resolver := r\<rparr>"

definition Dns_NewChecker :: "resolver \<Rightarrow> string \<Rightarrow> string \<Rightarrow> (DnsChecker \<Rightarrow> DnsChecker) list \<Rightarrow> DnsChecker" where
  "Dns_NewChecker dflt name hostname opts =
     (let ck = fold (\<lambda>o' ck. o' ck) opts \<lparr>dns_name = name, dns_hostname = hostname, dns_resolver = None,
            dns_timeout = checker_DefaultTimeout\<rparr>
      in case dns_resolver ck of None \<Rightarrow> ck\<lparr>dns_resolver := Some dflt\<rparr> | Some r \<Rightarrow> ck)"

text \<open>A method call on a nil resolver (which only a hand-made checker has) uses the default one, as \<^verbatim>\<open>net\<close> documents.\<close>

definition Dns_Check :: "resolver \<Rightarrow> instant \<Rightarrow> instant \<Rightarrow> ctx \<Rightarrow> DnsChecker \<Rightarrow> check_outcome" where
  "Dns_Check dflt start stop c ck =
     (let lookup = (case dns_resolver ck of None \<Rightarrow> dflt | Some r \<Rightarrow> r)
      in case lookup (c, dns_timeout ck) (dns_hostname ck) of
           Inl err \<Rightarrow> Returned (Some (CheckResult_zero\<lparr>hc_Name := dns_name ck, hc_Status := StatusUnhealthy,
             hc_Error := Some (Errorf_w (''lookup '' @ dns_hostname ck @ '': '') err),
             hc_Duration := stop - start, hc_Timestamp := start\<rparr>))
         | Inr [] \<Rightarrow> Returned (Some (CheckResult_zero\<lparr>hc_Name := dns_name ck, hc_Status := StatusUnhealthy,
             hc_Error := Some (ErrorString (''lookup '' @ dns_hostname ck @ '': no addresses returned'')),
             hc_Duration := stop - start, hc_Timestamp := start\<rparr>))
         | Inr (addr # addrs) \<Rightarrow> Returned (Some (CheckResult_zero\<lparr>hc_Name := dns_name ck, hc_Status := StatusHealthy,
             hc_Duration := stop - start, hc_Timestamp := start, hc_Metadata := Some [(''resolved'', addr)]\<rparr>)))"

section \<open>checker/http\<close>

text \<open>The client is the user's or one made with a timeout; the environment builds a request and performs it.\<close>

datatype 'cl check_client = GivenClient 'cl | NewClient duration

record 'cl HttpChecker =
  hck_name :: string
  hck_url :: string
  hck_client :: "'cl check_client option"
  hck_timeout :: duration
  hck_expectedStatus :: int
  hck_method :: string

record 'cl request_env =
  rx_NewRequest :: "timeout_ctx \<Rightarrow> string \<Rightarrow> string \<Rightarrow> go_error option"
  rx_Do :: "'cl check_client option \<Rightarrow> timeout_ctx \<Rightarrow> string \<Rightarrow> string \<Rightarrow> go_error + int"

definition HttpCheck_WithTimeout :: "duration \<Rightarrow> 'cl HttpChecker \<Rightarrow> 'cl HttpChecker" where
  "HttpCheck_WithTimeout d ck = ck\<lparr>hck_timeout := d\<rparr>"

definition HttpCheck_WithExpectedStatus :: "int \<Rightarrow> 'cl HttpChecker \<Rightarrow> 'cl HttpChecker" where
  "HttpCheck_WithExpectedStatus code ck = ck\<lparr>hck_expectedStatus := code\<rparr>"

definition HttpCheck_WithMethod :: "string \<Rightarrow> 'cl HttpChecker \<Rightarrow> 'cl HttpChecker" where
  "HttpCheck_WithMethod method ck = ck\<lparr>hck_method := method\<rparr>"

definition HttpCheck_WithClient :: "'cl option \<Rightarrow> 'cl HttpChecker \<Rightarrow> 'cl HttpChecker" where
  "HttpCheck_WithClient client ck = ck\<lparr>hck_client := map_option GivenClient client\<rparr>"

definition HttpCheck_NewChecker :: "string \<Rightarrow> string \<Rightarrow> ('cl HttpChecker \<Rightarrow> 'cl HttpChecker) list \<Rightarrow> 'cl HttpChecker" where
  "HttpCheck_NewChecker name url opts =
     (let ck = fold (\<lambda>o' ck. o' ck) opts \<lparr>hck_name = name, hck_url = url, hck_client = None,
            hck_timeout = checker_DefaultTimeout, hck_expectedStatus = 200, hck_method = ''GET''\<rparr>
      in case hck_client ck of None \<Rightarrow> ck\<lparr>hck_client := Some (NewClient (hck_timeout ck))\<rparr> | Some cl \<Rightarrow> ck)"

definition HttpCheck_Check :: "'cl request_env \<Rightarrow> instant \<Rightarrow> instant \<Rightarrow> ctx \<Rightarrow> 'cl HttpChecker \<Rightarrow> check_outcome" where
  "HttpCheck_Check env start stop c ck =
     (let tc = (c, hck_timeout ck)
      in case rx_NewRequest env tc (hck_method ck) (hck_url ck) of
           Some err \<Rightarrow> Returned (Some (CheckResult_zero\<lparr>hc_Name := hck_name ck, hc_Status := StatusUnhealthy,
             hc_Error := Some (Errorf_w ''create request: '' err), hc_Duration := stop - start, hc_Timestamp := start\<rparr>))
         | None \<Rightarrow>
             (case rx_Do env (hck_client ck) tc (hck_method ck) (hck_url ck) of
                Inl err \<Rightarrow> Returned (Some (CheckResult_zero\<lparr>hc_Name := hck_name ck, hc_Status := StatusUnhealthy,
                  hc_Error := Some (Errorf_w ''request failed: '' err), hc_Duration := stop - start, hc_Timestamp := start\<rparr>))
              | Inr code \<Rightarrow>
                  if code \<noteq> hck_expectedStatus ck
                  then Returned (Some (CheckResult_zero\<lparr>hc_Name := hck_name ck, hc_Status := StatusUnhealthy,
                    hc_Error := Some (ErrorString (''expected status '' @ Itoa (hck_expectedStatus ck) @ '', got '' @ Itoa code)),
                    hc_Duration := stop - start, hc_Timestamp := start\<rparr>))
                  else Returned (Some (CheckResult_zero\<lparr>hc_Name := hck_name ck, hc_Status := StatusHealthy,
                    hc_Duration := stop - start, hc_Timestamp := start\<rparr>))))"

section \<open>checker/tcp\<close>

record TcpChecker =
  tcp_name :: string
  tcp_addr :: string
  tcp_timeout :: duration

definition Tcp_WithTimeout :: "duration \<Rightarrow> TcpChecker \<Rightarrow> TcpChecker" where
  "Tcp_WithTimeout d ck = ck\<lparr>tcp_timeout := d\<rparr>"

definition Tcp_NewChecker :: "string \<Rightarrow> string \<Rightarrow> (TcpChecker \<Rightarrow> TcpChecker) list \<Rightarrow> TcpChecker" where
  "Tcp_NewChecker name addr opts =
     fold (\<lambda>o' ck. o' ck) opts \<lparr>tcp_name = name, tcp_addr = addr, tcp_timeout = checker_DefaultTimeout\<rparr>"

text \<open>The dialer, with its timeout, in a context: an error or a connection, which is closed at once.\<close>

type_synonym 'k dialer = "duration \<Rightarrow> ctx \<Rightarrow> string \<Rightarrow> go_error + 'k"

definition Tcp_Check :: "'k dialer \<Rightarrow> instant \<Rightarrow> instant \<Rightarrow> ctx \<Rightarrow> TcpChecker \<Rightarrow> check_outcome" where
  "Tcp_Check dial start stop c ck =
     (case dial (tcp_timeout ck) c (tcp_addr ck) of
        Inl err \<Rightarrow> Returned (Some (CheckResult_zero\<lparr>hc_Name := tcp_name ck, hc_Status := StatusUnhealthy,
          hc_Error := Some (Errorf_w (''dial '' @ tcp_addr ck @ '': '') err), hc_Duration := stop - start, hc_Timestamp := start\<rparr>))
      | Inr conn \<Rightarrow> Returned (Some (CheckResult_zero\<lparr>hc_Name := tcp_name ck, hc_Status := StatusHealthy,
          hc_Duration := stop - start, hc_Timestamp := start\<rparr>)))"

section \<open>The contract of a checker\<close>

text \<open>
  What a result of a checker must look like, and when: it names the checker, is stamped with the
  time the check began, and is either healthy without an error or unhealthy with one.
\<close>

definition result_ok :: "string \<Rightarrow> instant \<Rightarrow> CheckResult \<Rightarrow> bool" where
  "result_ok name start hc \<longleftrightarrow> hc_Name hc = name \<and> hc_Timestamp hc = start \<and>
     (hc_Status hc = StatusHealthy \<and> hc_Error hc = None \<or> hc_Status hc = StatusUnhealthy \<and> hc_Error hc \<noteq> None)"

locale checker_contract =
  fixes check :: "'i \<Rightarrow> check_outcome"
    and name_of :: "'i \<Rightarrow> string"
    and started :: "'i \<Rightarrow> instant"
    and dep_ok :: "'i \<Rightarrow> bool"
    and dep_panic :: "'i \<Rightarrow> string option"
  assumes returns: "dep_panic i = None \<Longrightarrow> \<exists>hc. check i = Returned (Some hc) \<and> result_ok (name_of i) (started i) hc \<and>
      (hc_Status hc = StatusHealthy \<longleftrightarrow> dep_ok i)"
    and panics: "dep_panic i = Some r \<Longrightarrow> check i = Panicked r"
    and panic_bad: "dep_panic i \<noteq> None \<Longrightarrow> \<not> dep_ok i"
begin

text \<open>
  What the manager's goroutine sends on for such a checker: always a result, under the registered
  name, healthy exactly if the dependency is fine and unhealthy with an error otherwise.
\<close>

lemma manager_result:
  "\<exists>hc. fst (safeCheck nm now (check i) m) = Some hc \<and> hc_Name (applyCheckOptions hc nm opts) = nm \<and>
     (hc_Status (applyCheckOptions hc nm opts) = StatusHealthy \<longleftrightarrow> dep_ok i) \<and>
     (hc_Status (applyCheckOptions hc nm opts) = StatusUnhealthy \<longleftrightarrow> \<not> dep_ok i) \<and>
     (hc_Error (applyCheckOptions hc nm opts) = None \<longleftrightarrow> dep_ok i)"
proof (cases "dep_panic i")
  case None
  then obtain hc where "check i = Returned (Some hc)" "result_ok (name_of i) (started i) hc"
    "hc_Status hc = StatusHealthy \<longleftrightarrow> dep_ok i"
    using returns by blast
  then show ?thesis
    by (intro exI [of _ hc]) (auto simp: safeCheck_def applyCheckOptions_def result_ok_def)
next
  case (Some r)
  with panics panic_bad show ?thesis by (auto simp: safeCheck_def applyCheckOptions_def)
qed

end

text \<open>When the dependency of each checker is fine, and when its call panics through.\<close>

definition command_ok :: "ctx \<Rightarrow> CommandChecker \<Rightarrow> bool" where
  "command_ok c ck \<longleftrightarrow> cmd_fn ck c = FnReturns None"

fun db_panic :: "ctx \<Rightarrow> DbChecker \<Rightarrow> string option" where
  "db_panic c ck =
     (if ctx_done c then None
      else case db_pinger ck of None \<Rightarrow> None
        | Some ping \<Rightarrow> (case ping (c, db_timeout ck) of FnPanics r \<Rightarrow> Some r | FnReturns e \<Rightarrow> None))"

definition db_ok :: "ctx \<Rightarrow> DbChecker \<Rightarrow> bool" where
  "db_ok c ck \<longleftrightarrow> \<not> ctx_done c \<and>
     (case db_pinger ck of None \<Rightarrow> False | Some ping \<Rightarrow> ping (c, db_timeout ck) = FnReturns None)"

definition dns_ok :: "resolver \<Rightarrow> ctx \<Rightarrow> DnsChecker \<Rightarrow> bool" where
  "dns_ok dflt c ck \<longleftrightarrow>
     (case (case dns_resolver ck of None \<Rightarrow> dflt | Some r \<Rightarrow> r) (c, dns_timeout ck) (dns_hostname ck) of
        Inl e \<Rightarrow> False | Inr addrs \<Rightarrow> addrs \<noteq> [])"

definition http_check_ok :: "'cl request_env \<Rightarrow> ctx \<Rightarrow> 'cl HttpChecker \<Rightarrow> bool" where
  "http_check_ok env c ck \<longleftrightarrow> rx_NewRequest env (c, hck_timeout ck) (hck_method ck) (hck_url ck) = None \<and>
     rx_Do env (hck_client ck) (c, hck_timeout ck) (hck_method ck) (hck_url ck) = Inr (hck_expectedStatus ck)"

definition tcp_ok :: "'k dialer \<Rightarrow> ctx \<Rightarrow> TcpChecker \<Rightarrow> bool" where
  "tcp_ok dial c ck \<longleftrightarrow> (case dial (tcp_timeout ck) c (tcp_addr ck) of Inl e \<Rightarrow> False | Inr conn \<Rightarrow> True)"

interpretation command_ck: checker_contract "Command_Check start stop c" cmd_name "\<lambda>_. start" "command_ok c" "\<lambda>_. None"
  for start stop c
  by unfold_locales
    (auto simp: Command_Check_def command_ok_def result_ok_def CheckResult_zero_def split: fn_outcome.split option.split)

interpretation db_ck: checker_contract "Db_Check now start stop c" db_name "\<lambda>_. now" "db_ok c" "db_panic c"
  for now start stop c
  by unfold_locales
    (auto simp: Db_Check_def db_ok_def result_ok_def CheckResult_zero_def Let_def
      split: fn_outcome.splits option.splits if_splits)

interpretation dns_ck: checker_contract "Dns_Check dflt start stop c" dns_name "\<lambda>_. start" "dns_ok dflt c" "\<lambda>_. None"
  for dflt start stop c
  by unfold_locales
    (auto simp: Dns_Check_def dns_ok_def result_ok_def CheckResult_zero_def Let_def
      split: sum.split list.split)

interpretation http_ck: checker_contract "HttpCheck_Check env start stop c" hck_name "\<lambda>_. start" "http_check_ok env c" "\<lambda>_. None"
  for env :: "'cl request_env" and start stop c
  by unfold_locales
    (auto simp: HttpCheck_Check_def http_check_ok_def result_ok_def CheckResult_zero_def Let_def
      split: sum.split option.split)

interpretation tcp_ck: checker_contract "Tcp_Check dial start stop c" tcp_name "\<lambda>_. start" "tcp_ok dial c" "\<lambda>_. None"
  for dial :: "'k dialer" and start stop c
  by unfold_locales
    (auto simp: Tcp_Check_def tcp_ok_def result_ok_def CheckResult_zero_def split: sum.split)

end
