(* ===== verification/Redis_Checker.thy ===== *)
theory Redis_Checker
  imports Checkers
begin

text \<open>
  \<^verbatim>\<open>checker/redis/checker.go\<close>: the checker that speaks the Redis protocol (RESP) over a connection.  The
  connection is a value of an unknown type with the operations \<^verbatim>\<open>Write\<close> and \<^verbatim>\<open>Read\<close>; the buffered
  reader's \<^verbatim>\<open>ReadString\<close> is a loop over \<^verbatim>\<open>Read\<close> that may not end, so its value is an option, and a check
  returns when the connection's deadline ends every read.
\<close>

section \<open>Buffered reading\<close>

record 'k net_conn =
  nc_Write :: "string \<Rightarrow> 'k \<Rightarrow> go_error option \<times> 'k"
  nc_Read :: "'k \<Rightarrow> (go_error + string) \<times> 'k"

text \<open>
  \<^verbatim>\<open>reader.ReadString('\n')\<close> with the bytes that are buffered: the line with its newline, or the
  error that came first; then the buffer and the connection.
\<close>

partial_function (option) ReadString ::
    "('k \<Rightarrow> (go_error + string) \<times> 'k) \<Rightarrow> string \<Rightarrow> 'k \<Rightarrow> ((go_error + string) \<times> string \<times> 'k) option" where
  "ReadString rd buf k =
     (if CHR 0x0A \<in> set buf
      then Some (Inr (takeWhile (\<lambda>c. c \<noteq> CHR 0x0A) buf @ [CHR 0x0A]), drop 1 (dropWhile (\<lambda>c. c \<noteq> CHR 0x0A) buf), k)
      else case rd k of
             (Inl err, k') \<Rightarrow> Some (Inl err, [], k')
           | (Inr chunk, k') \<Rightarrow> ReadString rd (buf @ chunk) k')"

declare ReadString.simps [code]

section \<open>The checker\<close>

record RedisChecker =
  rd_name :: string
  rd_addr :: string
  rd_timeout :: duration
  rd_password :: string

definition Redis_WithTimeout :: "duration \<Rightarrow> RedisChecker \<Rightarrow> RedisChecker" where
  "Redis_WithTimeout d ck = ck\<lparr>rd_timeout := d\<rparr>"

definition Redis_WithPassword :: "string \<Rightarrow> RedisChecker \<Rightarrow> RedisChecker" where
  "Redis_WithPassword password ck = ck\<lparr>rd_password := password\<rparr>"

definition Redis_NewChecker :: "string \<Rightarrow> string \<Rightarrow> (RedisChecker \<Rightarrow> RedisChecker) list \<Rightarrow> RedisChecker" where
  "Redis_NewChecker name addr opts =
     fold (\<lambda>o' ck. o' ck) opts
       \<lparr>rd_name = name, rd_addr = addr, rd_timeout = checker_DefaultTimeout, rd_password = []\<rparr>"

definition unhealthy :: "string \<Rightarrow> instant \<Rightarrow> instant \<Rightarrow> go_error \<Rightarrow> CheckResult" where
  "unhealthy name start stop err = CheckResult_zero\<lparr>hc_Name := name, hc_Status := StatusUnhealthy,
     hc_Error := Some err, hc_ErrorSince := start, hc_Duration := stop - start, hc_Timestamp := start\<rparr>"

definition auth_command :: "string \<Rightarrow> string" where
  "auth_command password =
     ''*2'' @ crlf @ ''$4'' @ crlf @ ''AUTH'' @ crlf @ ''$'' @ Itoa (int (length password)) @ crlf @ password @ crlf"

definition ping_command :: string where
  "ping_command = ''*1'' @ crlf @ ''$4'' @ crlf @ ''PING'' @ crlf"

text \<open>An exchange gives the error it ends with, the buffer and the connection; no value if a read never ends.\<close>

definition authenticate ::
    "'k net_conn \<Rightarrow> RedisChecker \<Rightarrow> string \<Rightarrow> 'k \<Rightarrow> (go_error option \<times> string \<times> 'k) option" where
  "authenticate conn ck buf k =
     (case nc_Write conn (auth_command (rd_password ck)) k of
        (Some err, k1) \<Rightarrow> Some (Some (Errorf_w ''write AUTH: '' err), buf, k1)
      | (None, k1) \<Rightarrow>
          (case ReadString (nc_Read conn) buf k1 of
             None \<Rightarrow> None
           | Some (Inl err, buf', k2) \<Rightarrow> Some (Some (Errorf_w ''read AUTH response: '' err), buf', k2)
           | Some (Inr line, buf', k2) \<Rightarrow>
               if length line < 3 \<or> line ! 0 \<noteq> CHR ''+''
               then Some (Some (ErrorString (''AUTH failed: '' @ line)), buf', k2)
               else Some (None, buf', k2)))"

definition redis_ping :: "'k net_conn \<Rightarrow> string \<Rightarrow> 'k \<Rightarrow> (go_error option \<times> string \<times> 'k) option" where
  "redis_ping conn buf k =
     (case nc_Write conn ping_command k of
        (Some err, k1) \<Rightarrow> Some (Some (Errorf_w ''write PING: '' err), buf, k1)
      | (None, k1) \<Rightarrow>
          (case ReadString (nc_Read conn) buf k1 of
             None \<Rightarrow> None
           | Some (Inl err, buf', k2) \<Rightarrow> Some (Some (Errorf_w ''read PING response: '' err), buf', k2)
           | Some (Inr line, buf', k2) \<Rightarrow>
               if length line < 5 \<or> take 5 line \<noteq> ''+PONG''
               then Some (Some (ErrorString (''unexpected PING response: '' @ line)), buf', k2)
               else Some (None, buf', k2)))"

definition Redis_Check ::
    "'k dialer \<Rightarrow> 'k net_conn \<Rightarrow> instant \<Rightarrow> instant \<Rightarrow> ctx \<Rightarrow> RedisChecker \<Rightarrow> check_outcome option" where
  "Redis_Check dial conn start stop c ck =
     (case dial (rd_timeout ck) c (rd_addr ck) of
        Inl err \<Rightarrow> Some (Returned (Some (unhealthy (rd_name ck) start stop (Errorf_w (''dial '' @ rd_addr ck @ '': '') err))))
      | Inr k \<Rightarrow>
          (case (if rd_password ck \<noteq> [] then authenticate conn ck [] k else Some (None, [], k)) of
             None \<Rightarrow> None
           | Some (Some err, buf, k1) \<Rightarrow> Some (Returned (Some (unhealthy (rd_name ck) start stop err)))
           | Some (None, buf, k1) \<Rightarrow>
               (case redis_ping conn buf k1 of
                  None \<Rightarrow> None
                | Some (Some err, buf', k2) \<Rightarrow> Some (Returned (Some (unhealthy (rd_name ck) start stop err)))
                | Some (None, buf', k2) \<Rightarrow>
                    Some (Returned (Some (CheckResult_zero\<lparr>hc_Name := rd_name ck, hc_Status := StatusHealthy,
                      hc_Duration := stop - start, hc_Timestamp := start\<rparr>))))))"

section \<open>Termination\<close>

text \<open>A connection on which every sequence of reads ends with an error, as a deadline makes it.\<close>

inductive reads_end :: "('k \<Rightarrow> (go_error + string) \<times> 'k) \<Rightarrow> 'k \<Rightarrow> bool" for rd where
  error: "rd k = (Inl err, k') \<Longrightarrow> reads_end rd k"
| chunk: "rd k = (Inr bs, k') \<Longrightarrow> reads_end rd k' \<Longrightarrow> reads_end rd k"

lemma ReadString_returns: "reads_end rd k \<Longrightarrow> \<exists>r. ReadString rd buf k = Some r"
proof (induction k arbitrary: buf rule: reads_end.induct)
  case (error k err k')
  then show ?case by (subst ReadString.simps) simp
next
  case (chunk k bs k')
  then show ?case by (subst ReadString.simps) simp
qed

section \<open>RESP, as a server reads it\<close>

text \<open>A reference reader of one command: an array of bulk strings, each of them binary safe.\<close>

definition is_digit :: "char \<Rightarrow> bool" where
  "is_digit c \<longleftrightarrow> (48::nat) \<le> of_char c \<and> of_char c \<le> (57::nat)"

definition digits_value :: "string \<Rightarrow> nat" where
  "digits_value ds = foldl (\<lambda>n c. 10 * n + (of_char c - 48)) 0 ds"

definition resp_number :: "char \<Rightarrow> string \<Rightarrow> (nat \<times> string) option" where
  "resp_number mark s =
     (case s of
        [] \<Rightarrow> None
      | c # s1 \<Rightarrow>
          let ds = takeWhile is_digit s1; rest = dropWhile is_digit s1
          in if c = mark \<and> ds \<noteq> [] \<and> HasPrefix rest crlf then Some (digits_value ds, drop 2 rest) else None)"

definition resp_bulk :: "string \<Rightarrow> (string \<times> string) option" where
  "resp_bulk s =
     (case resp_number CHR ''$'' s of
        None \<Rightarrow> None
      | Some (n, s1) \<Rightarrow>
          if n \<le> length s1 \<and> HasPrefix (drop n s1) crlf then Some (take n s1, drop (n + 2) s1) else None)"

fun resp_bulks :: "nat \<Rightarrow> string \<Rightarrow> (string list \<times> string) option" where
  "resp_bulks 0 s = Some ([], s)"
| "resp_bulks (Suc n) s =
     (case resp_bulk s of
        None \<Rightarrow> None
      | Some (b, s1) \<Rightarrow> map_option (\<lambda>(bs, s2). (b # bs, s2)) (resp_bulks n s1))"

definition resp_command :: "string \<Rightarrow> (string list \<times> string) option" where
  "resp_command s = Option.bind (resp_number CHR ''*'' s) (\<lambda>(n, s1). resp_bulks n s1)"

lemma of_char_digit: "n < 10 \<Longrightarrow> of_char (digit_char n) = (48 + n :: nat)"
  by (simp add: digit_char_def)

lemma nat_decimal_digits: "\<forall>c \<in> set (nat_decimal n). is_digit c"
proof (induction n rule: nat_decimal.induct)
  case (1 n)
  then show ?case by (subst nat_decimal.simps) (auto simp: is_digit_def of_char_digit)
qed

lemma nat_decimal_nonempty [simp]: "nat_decimal n \<noteq> []"
  by (subst nat_decimal.simps) simp

lemma digits_value_decimal: "digits_value (nat_decimal n) = n"
proof (induction n rule: nat_decimal.induct)
  case (1 n)
  show ?case
  proof (cases "n < 10")
    case False
    then have "digits_value (nat_decimal n) = 10 * digits_value (nat_decimal (n div 10)) + n mod 10"
      by (subst nat_decimal.simps) (simp add: digits_value_def of_char_digit)
    with 1 False show ?thesis by simp
  qed (subst nat_decimal.simps, simp add: digits_value_def of_char_digit)
qed

lemma takeWhile_digits: "takeWhile is_digit (nat_decimal n @ crlf @ s) = nat_decimal n"
  "dropWhile is_digit (nat_decimal n @ crlf @ s) = crlf @ s"
  using nat_decimal_digits by (simp_all add: crlf_def is_digit_def)

lemma resp_number_print: "resp_number mark (mark # nat_decimal n @ crlf @ s) = Some (n, s)"
  unfolding resp_number_def list.case Let_def takeWhile_digits
  by (simp add: digits_value_decimal) (simp add: crlf_def)

lemma resp_bulk_print:
  "resp_bulk (CHR ''$'' # nat_decimal (length b) @ crlf @ b @ crlf @ s) = Some (b, s)"
  unfolding resp_bulk_def resp_number_print by (simp add: crlf_def HasPrefix_def)

lemma decimal_small:
  "nat_decimal 1 = ''1''" "nat_decimal 2 = ''2''"
  "nat_decimal (length ''AUTH'') = ''4''" "nat_decimal (length ''PING'') = ''4''"
  by code_simp+

section \<open>The bytes decide, not the packets\<close>

text \<open>
  A scripted peer: the chunks it will deliver (then the end of the stream), and what was written to it.
\<close>

record script =
  sc_chunks :: "string list"
  sc_written :: string

fun script_read :: "script \<Rightarrow> (go_error + string) \<times> script" where
  "script_read k = (case sc_chunks k of [] \<Rightarrow> (Inl (Sentinel EOF), k) | bs # cs \<Rightarrow> (Inr bs, k\<lparr>sc_chunks := cs\<rparr>))"

definition script_conn :: "script net_conn" where
  "script_conn = \<lparr>nc_Write = (\<lambda>bs k. (None, k\<lparr>sc_written := sc_written k @ bs\<rparr>)), nc_Read = script_read\<rparr>"

definition split_line :: "string \<Rightarrow> (string \<times> string) option" where
  "split_line bs =
     (if CHR 0x0A \<in> set bs
      then Some (takeWhile (\<lambda>c. c \<noteq> CHR 0x0A) bs @ [CHR 0x0A], drop 1 (dropWhile (\<lambda>c. c \<noteq> CHR 0x0A) bs)) else None)"

text \<open>What a stream of bytes means to the checker: the first line answers \<^verbatim>\<open>AUTH\<close>, if it is sent, the next one \<^verbatim>\<open>PING\<close>.\<close>

definition pong_ok :: "string \<Rightarrow> bool" where
  "pong_ok bs = (case split_line bs of None \<Rightarrow> False | Some (line, rest) \<Rightarrow> HasPrefix line ''+PONG'')"

definition answers_ok :: "bool \<Rightarrow> string \<Rightarrow> bool" where
  "answers_ok auth bs =
     (if auth then (case split_line bs of None \<Rightarrow> False
        | Some (line, rest) \<Rightarrow> HasPrefix line ''+'' \<and> 3 \<le> length line \<and> pong_ok rest)
      else pong_ok bs)"

lemma split_line_append:
  assumes "CHR 0x0A \<in> set buf"
  shows "split_line (buf @ bs) =
    Some (takeWhile (\<lambda>c. c \<noteq> CHR 0x0A) buf @ [CHR 0x0A], drop 1 (dropWhile (\<lambda>c. c \<noteq> CHR 0x0A) buf) @ bs)"
proof -
  have "dropWhile (\<lambda>c. c \<noteq> CHR 0x0A) buf \<noteq> []" using assms by (auto simp: dropWhile_eq_Nil_conv)
  with assms show ?thesis
    by (cases "dropWhile (\<lambda>c. c \<noteq> CHR 0x0A) buf") (auto simp: split_line_def takeWhile_append1 dropWhile_append1)
qed

lemma sc_chunks_twice [simp]: "k\<lparr>sc_chunks := cs, sc_chunks := cs'\<rparr> = k\<lparr>sc_chunks := cs'\<rparr>"
  by (cases k) simp

text \<open>Reading a line from a scripted peer, in terms of all the bytes that are left.\<close>

lemma ReadString_script:
  "\<exists>buf' cs'. ReadString script_read buf k =
     Some (case split_line (buf @ concat (sc_chunks k)) of
             None \<Rightarrow> (Inl (Sentinel EOF), buf', k\<lparr>sc_chunks := cs'\<rparr>)
           | Some (line, rest) \<Rightarrow> (Inr line, buf', k\<lparr>sc_chunks := cs'\<rparr>)) \<and>
     (\<forall>line rest. split_line (buf @ concat (sc_chunks k)) = Some (line, rest) \<longrightarrow> buf' @ concat cs' = rest)"
proof (induction "sc_chunks k" arbitrary: buf k)
  case Nil
  note e = Nil [symmetric]
  show ?case
  proof (cases "CHR 0x0A \<in> set buf")
    case True
    then show ?thesis
      using e split_line_append [OF True, of "[]"]
      by (subst ReadString.simps) (auto intro!: exI [of _ "[]::string list"])
  next
    case False
    then show ?thesis
      using e by (subst ReadString.simps) (auto simp: split_line_def intro!: exI [of _ "[]::string list"])
  qed
next
  case (Cons bs cs)
  note e = Cons.hyps(2) [symmetric]
  show ?case
  proof (cases "CHR 0x0A \<in> set buf")
    case True
    then show ?thesis
      using e split_line_append [OF True, of "bs @ concat cs"]
      by (subst ReadString.simps) (auto intro!: exI [of _ "bs # cs"])
  next
    case False
    have "ReadString script_read buf k = ReadString script_read (buf @ bs) (k\<lparr>sc_chunks := cs\<rparr>)"
      using False e by (subst ReadString.simps) simp
    then show ?thesis
      using Cons.hyps(1) [of "k\<lparr>sc_chunks := cs\<rparr>" "buf @ bs"] e
      by (cases "split_line (buf @ bs @ concat cs)") auto
  qed
qed

lemma ping_script:
  "\<exists>err buf' k'. redis_ping script_conn buf k = Some (err, buf', k') \<and>
     (err = None \<longleftrightarrow> pong_ok (buf @ concat (sc_chunks k)))"
proof -
  let ?k = "k\<lparr>sc_written := sc_written k @ ping_command\<rparr>"
  obtain buf' cs' where "ReadString script_read buf ?k =
     Some (case split_line (buf @ concat (sc_chunks k)) of
             None \<Rightarrow> (Inl (Sentinel EOF), buf', ?k\<lparr>sc_chunks := cs'\<rparr>)
           | Some (line, rest) \<Rightarrow> (Inr line, buf', ?k\<lparr>sc_chunks := cs'\<rparr>))"
    using ReadString_script [of buf ?k] by auto
  moreover have "HasPrefix line ''+PONG'' \<longleftrightarrow> take 5 line = ''+PONG''" for line
    by (simp add: HasPrefix_def numeral_eq_Suc)
  ultimately show ?thesis
    by (auto simp: redis_ping_def script_conn_def pong_ok_def split: option.split prod.split)
qed

lemma auth_script:
  "\<exists>err buf' k'. authenticate script_conn ck buf k = Some (err, buf', k') \<and>
     (err = None \<longrightarrow> (\<exists>line rest. split_line (buf @ concat (sc_chunks k)) = Some (line, rest) \<and>
        HasPrefix line ''+'' \<and> 3 \<le> length line \<and> buf' @ concat (sc_chunks k') = rest)) \<and>
     (err \<noteq> None \<longrightarrow> \<not> (\<exists>line rest. split_line (buf @ concat (sc_chunks k)) = Some (line, rest) \<and>
        HasPrefix line ''+'' \<and> 3 \<le> length line))"
proof -
  let ?k = "k\<lparr>sc_written := sc_written k @ auth_command (rd_password ck)\<rparr>"
  obtain buf' cs' where r: "ReadString script_read buf ?k =
     Some (case split_line (buf @ concat (sc_chunks k)) of
             None \<Rightarrow> (Inl (Sentinel EOF), buf', ?k\<lparr>sc_chunks := cs'\<rparr>)
           | Some (line, rest) \<Rightarrow> (Inr line, buf', ?k\<lparr>sc_chunks := cs'\<rparr>))"
    and rest: "\<forall>line rest. split_line (buf @ concat (sc_chunks k)) = Some (line, rest) \<longrightarrow> buf' @ concat cs' = rest"
    using ReadString_script [of buf ?k] by auto
  have "HasPrefix line ''+'' \<longleftrightarrow> line ! 0 = CHR ''+''" if "3 \<le> length line" for line
    using that by (cases line) (auto simp: HasPrefix_def)
  with r rest show ?thesis
    by (cases "split_line (buf @ concat (sc_chunks k))") (auto simp: authenticate_def script_conn_def)
qed

definition demo_redis :: RedisChecker where
  "demo_redis = Redis_NewChecker ''cache'' ''localhost:6379'' [Redis_WithPassword ''secret'']"

text \<open>
  C23: the verdict of the Redis checker depends on the bytes the server sends and not on how they are
  cut into packets: once the connection is made, the check is healthy exactly if, after the line that
  accepts the password (when there is one), the next line starts with \<^verbatim>\<open>+PONG\<close>.
\<close>

theorem redis_verdict_by_bytes:
  assumes "dial (rd_timeout ck) c (rd_addr ck) = Inr \<lparr>sc_chunks = chunks, sc_written = []\<rparr>"
  shows "\<exists>hc. Redis_Check dial script_conn start stop c ck = Some (Returned (Some hc)) \<and>
    result_ok (rd_name ck) start hc \<and>
    (hc_Status hc = StatusHealthy \<longleftrightarrow> answers_ok (rd_password ck \<noteq> []) (concat chunks))"
proof -
  let ?k = "\<lparr>sc_chunks = chunks, sc_written = []\<rparr>"
  note ok = result_ok_def unhealthy_def CheckResult_zero_def
  show ?thesis
  proof (cases "rd_password ck = []")
    case True
    obtain err buf k' where p: "redis_ping script_conn [] ?k = Some (err, buf, k')"
      and e: "err = None \<longleftrightarrow> pong_ok (concat chunks)"
      using ping_script [of "[]" ?k] by auto
    show ?thesis
      using e by (cases err) (auto simp: Redis_Check_def assms True p answers_ok_def ok)
  next
    case False
    obtain err buf k1 where a: "authenticate script_conn ck [] ?k = Some (err, buf, k1)"
      and good: "err = None \<longrightarrow> (\<exists>line rest. split_line (concat chunks) = Some (line, rest) \<and>
        HasPrefix line ''+'' \<and> 3 \<le> length line \<and> buf @ concat (sc_chunks k1) = rest)"
      and bad: "err \<noteq> None \<longrightarrow> \<not> (\<exists>line rest. split_line (concat chunks) = Some (line, rest) \<and>
        HasPrefix line ''+'' \<and> 3 \<le> length line)"
      using auth_script [of ck "[]" ?k] by auto
    obtain err2 buf2 k2 where p: "redis_ping script_conn buf k1 = Some (err2, buf2, k2)"
      and e: "err2 = None \<longleftrightarrow> pong_ok (buf @ concat (sc_chunks k1))"
      using ping_script [of buf k1] by auto
    show ?thesis
    proof (cases err)
      case None
      with good e show ?thesis
        by (cases err2) (auto simp: Redis_Check_def assms False a p answers_ok_def ok)
    next
      case (Some x)
      with bad show ?thesis
        by (auto simp: Redis_Check_def assms False a answers_ok_def ok split: option.splits)
    qed
  qed
qed

theorem redis_verdict_by_bytes_witness:
  "\<exists>hc. Redis_Check (\<lambda>_ _ _. Inr \<lparr>sc_chunks = [''+O'', ''K'' @ crlf @ ''+PO'', ''NG'' @ crlf], sc_written = []\<rparr>)
      script_conn 5 7 CtxActive demo_redis = Some (Returned (Some hc)) \<and>
    result_ok ''cache'' 5 hc \<and> hc_Status hc = StatusHealthy"
proof -
  have d: "rd_name demo_redis = ''cache''" "rd_password demo_redis \<noteq> []"
    by (simp_all add: demo_redis_def Redis_NewChecker_def Redis_WithPassword_def)
  have "answers_ok True (concat [''+O'', ''K'' @ crlf @ ''+PO'', ''NG'' @ crlf])" by code_simp
  then show ?thesis
    using redis_verdict_by_bytes [of "\<lambda>_ _ _. Inr \<lparr>sc_chunks = [''+O'', ''K'' @ crlf @ ''+PO'', ''NG'' @ crlf], sc_written = []\<rparr>"
      demo_redis CtxActive "[''+O'', ''K'' @ crlf @ ''+PO'', ''NG'' @ crlf]" 5 7] d
    by simp
qed


text \<open>A peer that sends a byte at each read and never a newline, until the deadline has passed.\<close>

fun drip_read :: "nat \<Rightarrow> (go_error + string) \<times> nat" where
  "drip_read 0 = (Inl (Sentinel DeadlineExceeded), 0)"
| "drip_read (Suc n) = (Inr ''+'', n)"

lemma drip_ends: "reads_end drip_read k"
  by (induction k) (auto intro: reads_end.intros)


text \<open>
  C22: the commands are well formed whatever the password: a server that reads the bytes the checker
  writes reads exactly one \<^verbatim>\<open>AUTH\<close> with the password as its only argument, byte for byte, even if the
  password contains line breaks or looks like a command, and exactly one \<^verbatim>\<open>PING\<close>.
\<close>

theorem redis_commands_roundtrip:
  "resp_command (auth_command password @ rest) = Some ([''AUTH'', password], rest) \<and>
   resp_command (ping_command @ rest) = Some ([''PING''], rest)"
proof -
  have "auth_command password @ rest = CHR ''*'' # nat_decimal 2 @ crlf @
      CHR ''$'' # nat_decimal (length ''AUTH'') @ crlf @ ''AUTH'' @ crlf @
      CHR ''$'' # nat_decimal (length password) @ crlf @ password @ crlf @ rest"
    unfolding decimal_small by (simp add: auth_command_def Itoa_def)
  moreover have "ping_command @ rest = CHR ''*'' # nat_decimal 1 @ crlf @
      CHR ''$'' # nat_decimal (length ''PING'') @ crlf @ ''PING'' @ crlf @ rest"
    unfolding decimal_small by (simp add: ping_command_def)
  ultimately show ?thesis
    unfolding resp_command_def
    by (simp only: resp_number_print resp_bulk_print bind.simps prod.case resp_bulks.simps numeral_2_eq_2 One_nat_def
        option.case option.map)
qed

end
