(* ===== verification/All_Checkers.thy ===== *)
theory All_Checkers
  imports Redis_Checker
begin

text \<open>
  A value of the interface \<^verbatim>\<open>health.Checker\<close> that holds one of the repository's checkers: its \<^verbatim>\<open>Check\<close>
  dispatches on what it holds.  What the manager gets from it is read off the contracts.
\<close>

datatype 'cl any_checker =
  ACommand CommandChecker | ADb DbChecker | ADns DnsChecker | AHttp "'cl HttpChecker" | ATcp TcpChecker

text \<open>What the calls see of the world, and the readings of the clock.\<close>

record ('cl, 'k) world =
  wo_resolver :: resolver
  wo_http :: "'cl request_env"
  wo_dial :: "'k dialer"
  wo_start :: instant
  wo_before :: instant
  wo_stop :: instant

fun Any_Check :: "('cl, 'k) world \<Rightarrow> ctx \<Rightarrow> 'cl any_checker \<Rightarrow> check_outcome" where
  "Any_Check w c (ACommand ck) = Command_Check (wo_start w) (wo_stop w) c ck"
| "Any_Check w c (ADb ck) = Db_Check (wo_start w) (wo_before w) (wo_stop w) c ck"
| "Any_Check w c (ADns ck) = Dns_Check (wo_resolver w) (wo_start w) (wo_stop w) c ck"
| "Any_Check w c (AHttp ck) = HttpCheck_Check (wo_http w) (wo_start w) (wo_stop w) c ck"
| "Any_Check w c (ATcp ck) = Tcp_Check (wo_dial w) (wo_start w) (wo_stop w) c ck"

fun any_ok :: "('cl, 'k) world \<Rightarrow> ctx \<Rightarrow> 'cl any_checker \<Rightarrow> bool" where
  "any_ok w c (ACommand ck) = command_ok c ck"
| "any_ok w c (ADb ck) = db_ok c ck"
| "any_ok w c (ADns ck) = dns_ok (wo_resolver w) c ck"
| "any_ok w c (AHttp ck) = http_check_ok (wo_http w) c ck"
| "any_ok w c (ATcp ck) = tcp_ok (wo_dial w) c ck"

fun any_panic :: "ctx \<Rightarrow> 'cl any_checker \<Rightarrow> string option" where
  "any_panic c (ADb ck) = db_panic c ck"
| "any_panic c _ = None"

fun any_name :: "'cl any_checker \<Rightarrow> string" where
  "any_name (ACommand ck) = cmd_name ck"
| "any_name (ADb ck) = db_name ck"
| "any_name (ADns ck) = dns_name ck"
| "any_name (AHttp ck) = hck_name ck"
| "any_name (ATcp ck) = tcp_name ck"

interpretation any_ck: checker_contract "Any_Check w c" any_name "\<lambda>_. wo_start w" "any_ok w c" "any_panic c"
  for w :: "('cl, 'k) world" and c
proof unfold_locales
  fix i :: "'cl any_checker"
  show "\<exists>hc. Any_Check w c i = Returned (Some hc) \<and> result_ok (any_name i) (wo_start w) hc \<and>
      (hc_Status hc = StatusHealthy \<longleftrightarrow> any_ok w c i)" if "any_panic c i = None"
    using that command_ck.returns db_ck.returns dns_ck.returns http_ck.returns tcp_ck.returns by (cases i) simp_all
  show "Any_Check w c i = Panicked r" if "any_panic c i = Some r" for r
    using that db_ck.panics by (cases i) simp_all
  show "\<not> any_ok w c i" if "any_panic c i \<noteq> None"
    using that db_ck.panic_bad by (cases i) (auto split: if_splits option.splits)
qed


end
