(* ===== verification/Manifest_Json.thy ===== *)
theory Manifest_Json
  imports Discovery "HOL-Library.List_Lexorder" "HOL-Library.Char_ord"
begin

text \<open>
  JSON values as \<^verbatim>\<open>encoding/json\<close> writes them from structs with field tags and reads them back, and the
  encoding of the manifest of \<^verbatim>\<open>discovery/manifest.go\<close>, which one service writes and another reads.
  A text in the body of a response is represented by the value it encodes; an instant in its JSON
  text by \<open>JTime\<close>.
\<close>

datatype json =
  JNull | JNum int | JBool bool | JString string | JTime instant | JArray "json list" | JObject "(string \<times> json) list"

text \<open>A field with a tag, a field with \<^verbatim>\<open>omitempty\<close>, and the fields of an object in order.\<close>

definition field :: "string \<Rightarrow> json \<Rightarrow> (string \<times> json) list" where
  "field name v = [(name, v)]"

fun json_empty :: "json \<Rightarrow> bool" where
  "json_empty JNull = True"
| "json_empty (JNum n) = (n = 0)"
| "json_empty (JBool b) = (\<not> b)"
| "json_empty (JString s) = (s = [])"
| "json_empty (JTime t) = False"
| "json_empty (JArray xs) = (xs = [])"
| "json_empty (JObject fs) = (fs = [])"

definition omitempty :: "string \<Rightarrow> json \<Rightarrow> (string \<times> json) list" where
  "omitempty name v = (if json_empty v then [] else [(name, v)])"

text \<open>A map is written with its keys sorted.\<close>

definition json_map :: "('v \<Rightarrow> json) \<Rightarrow> (string \<times> 'v) list \<Rightarrow> json" where
  "json_map f m = JObject (map (\<lambda>(k, v). (k, f v)) (sort_key fst m))"

section \<open>Writing a manifest\<close>

definition CheckEntry_json :: "CheckEntry \<Rightarrow> json" where
  "CheckEntry_json e = JObject
     (field ''name'' (JString (ce_Name e)) @
      field ''status'' (JString (ce_Status e)) @
      omitempty ''group'' (JString (ce_Group e)) @
      omitempty ''componentType'' (JString (ce_ComponentType e)) @
      omitempty ''affectsLiveness'' (JBool (ce_AffectsLiveness e)) @
      omitempty ''affectsReadiness'' (JBool (ce_AffectsReadiness e)) @
      omitempty ''affectsStartup'' (JBool (ce_AffectsStartup e)) @
      omitempty ''dependsOn'' (JArray (map JString (ce_DependsOn e))) @
      omitempty ''duration'' (JString (ce_Duration e)) @
      omitempty ''lastCheck'' (JString (ce_LastCheck e)) @
      omitempty ''error'' (JString (ce_Error e)))"

definition Manifest_json :: "Manifest \<Rightarrow> json" where
  "Manifest_json m = JObject
     (field ''service'' (JString (mf_Service m)) @
      omitempty ''version'' (JString (mf_Version m)) @
      field ''status'' (JString (mf_Status m)) @
      field ''checks'' (JArray (map CheckEntry_json (mf_Checks m))) @
      field ''timestamp'' (JTime (mf_Timestamp m)))"

section \<open>Reading a manifest\<close>

text \<open>
  Decoding a field into its Go type: a missing field or null keeps the zero value, a value of another
  type is an error.  (A repeated field is decoded again: the last one stays.)
\<close>

definition json_field :: "string \<Rightarrow> (string \<times> json) list \<Rightarrow> json option" where
  "json_field name fs = map_of (rev fs) name"

definition type_error :: go_error where
  "type_error = ErrorString ''json: cannot unmarshal value into Go struct field''"

fun decode_string :: "json option \<Rightarrow> go_error + string" where
  "decode_string None = Inr []"
| "decode_string (Some JNull) = Inr []"
| "decode_string (Some (JString s)) = Inr s"
| "decode_string (Some _) = Inl type_error"

fun decode_bool :: "json option \<Rightarrow> go_error + bool" where
  "decode_bool None = Inr False"
| "decode_bool (Some JNull) = Inr False"
| "decode_bool (Some (JBool b)) = Inr b"
| "decode_bool (Some _) = Inl type_error"

fun decode_time :: "json option \<Rightarrow> go_error + instant" where
  "decode_time None = Inr 0"
| "decode_time (Some JNull) = Inr 0"
| "decode_time (Some (JTime t)) = Inr t"
| "decode_time (Some _) = Inl type_error"

fun decode_all :: "('a \<Rightarrow> go_error + 'b) \<Rightarrow> 'a list \<Rightarrow> go_error + 'b list" where
  "decode_all f [] = Inr []"
| "decode_all f (x # xs) =
     (case f x of Inl e \<Rightarrow> Inl e | Inr y \<Rightarrow> (case decode_all f xs of Inl e \<Rightarrow> Inl e | Inr ys \<Rightarrow> Inr (y # ys)))"

fun decode_list :: "(json \<Rightarrow> go_error + 'b) \<Rightarrow> json option \<Rightarrow> go_error + 'b list" where
  "decode_list f None = Inr []"
| "decode_list f (Some JNull) = Inr []"
| "decode_list f (Some (JArray xs)) = decode_all f xs"
| "decode_list f (Some _) = Inl type_error"

definition bind_dec :: "go_error + 'a \<Rightarrow> ('a \<Rightarrow> go_error + 'b) \<Rightarrow> go_error + 'b" where
  "bind_dec r f = (case r of Inl e \<Rightarrow> Inl e | Inr x \<Rightarrow> f x)"

fun CheckEntry_decode :: "json \<Rightarrow> go_error + CheckEntry" where
  "CheckEntry_decode (JObject fs) =
     bind_dec (decode_string (json_field ''name'' fs)) (\<lambda>name.
     bind_dec (decode_string (json_field ''status'' fs)) (\<lambda>status.
     bind_dec (decode_string (json_field ''group'' fs)) (\<lambda>grp.
     bind_dec (decode_string (json_field ''componentType'' fs)) (\<lambda>ct.
     bind_dec (decode_bool (json_field ''affectsLiveness'' fs)) (\<lambda>al.
     bind_dec (decode_bool (json_field ''affectsReadiness'' fs)) (\<lambda>ar.
     bind_dec (decode_bool (json_field ''affectsStartup'' fs)) (\<lambda>as.
     bind_dec (decode_list (\<lambda>j. decode_string (Some j)) (json_field ''dependsOn'' fs)) (\<lambda>deps.
     bind_dec (decode_string (json_field ''duration'' fs)) (\<lambda>dur.
     bind_dec (decode_string (json_field ''lastCheck'' fs)) (\<lambda>last.
     bind_dec (decode_string (json_field ''error'' fs)) (\<lambda>err.
       Inr \<lparr>ce_Name = name, ce_Status = status, ce_Group = grp, ce_ComponentType = ct, ce_AffectsLiveness = al,
            ce_AffectsReadiness = ar, ce_AffectsStartup = as, ce_DependsOn = deps, ce_Duration = dur,
            ce_LastCheck = last, ce_Error = err\<rparr>)))))))))))"
| "CheckEntry_decode JNull = Inr \<lparr>ce_Name = [], ce_Status = [], ce_Group = [], ce_ComponentType = [],
     ce_AffectsLiveness = False, ce_AffectsReadiness = False, ce_AffectsStartup = False, ce_DependsOn = [],
     ce_Duration = [], ce_LastCheck = [], ce_Error = []\<rparr>"
| "CheckEntry_decode _ = Inl type_error"

fun Manifest_decode :: "json \<Rightarrow> go_error + Manifest" where
  "Manifest_decode (JObject fs) =
     bind_dec (decode_string (json_field ''service'' fs)) (\<lambda>service.
     bind_dec (decode_string (json_field ''version'' fs)) (\<lambda>version.
     bind_dec (decode_string (json_field ''status'' fs)) (\<lambda>status.
     bind_dec (decode_list CheckEntry_decode (json_field ''checks'' fs)) (\<lambda>checks.
     bind_dec (decode_time (json_field ''timestamp'' fs)) (\<lambda>ts.
       Inr \<lparr>mf_Service = service, mf_Version = version, mf_Status = status, mf_Checks = checks, mf_Timestamp = ts\<rparr>)))))"
| "Manifest_decode JNull = Inr \<lparr>mf_Service = [], mf_Version = [], mf_Status = [], mf_Checks = [], mf_Timestamp = 0\<rparr>"
| "Manifest_decode _ = Inl type_error"

section \<open>Round trip\<close>

lemma bind_dec_Inr [simp]: "bind_dec (Inr x) f = f x"
  by (simp add: bind_dec_def)

lemma json_field_append [simp]:
  "n \<noteq> m \<Longrightarrow> json_field n (field m v @ gs) = json_field n gs"
  "json_field n gs = None \<Longrightarrow> json_field n (field n v @ gs) = Some v"
  "n \<noteq> m \<Longrightarrow> json_field n (omitempty m v @ gs) = json_field n gs"
  "json_field n gs = None \<Longrightarrow> json_field n (omitempty n v @ gs) = (if json_empty v then None else Some v)"
  by (auto simp: json_field_def field_def omitempty_def map_add_def split: option.splits)

lemma json_field_last [simp]:
  "n \<noteq> m \<Longrightarrow> json_field n (field m v) = None" "json_field n (field n v) = Some v"
  "n \<noteq> m \<Longrightarrow> json_field n (omitempty m v) = None"
  "json_field n (omitempty n v) = (if json_empty v then None else Some v)"
  by (simp_all add: json_field_def field_def omitempty_def)

lemma decode_string_omitted [simp]:
  "decode_string (if s = [] then None else Some (JString s)) = Inr s"
  by simp

lemma decode_bool_omitted [simp]: "decode_bool (if \<not> b then None else Some (JBool b)) = Inr b"
  by simp

lemma decode_all_map: "(\<And>x. x \<in> set xs \<Longrightarrow> f (g x) = Inr x) \<Longrightarrow> decode_all f (map g xs) = Inr xs"
  by (induction xs) simp_all

lemma decode_list_omitted [simp]:
  "decode_list (\<lambda>j. decode_string (Some j)) (if xs = [] then None else Some (JArray (map JString xs))) = Inr xs"
  by (simp add: decode_all_map)

lemma CheckEntry_roundtrip [simp]: "CheckEntry_decode (CheckEntry_json e) = Inr e"
  by (simp add: CheckEntry_json_def split del: if_split)

lemma Manifest_decode_json: "Manifest_decode (Manifest_json m) = Inr m"
  by (simp add: Manifest_json_def decode_all_map split del: if_split)


end
