(* ===== verification/Http_Server.thy ===== *)
theory Http_Server
  imports Reporter_Interface Manifest_Json
begin

text \<open>
  \<^verbatim>\<open>reporter/httpserver\<close>: \<^verbatim>\<open>cache.go\<close>, \<^verbatim>\<open>config.go\<close>, \<^verbatim>\<open>middleware.go\<close> and \<^verbatim>\<open>reporter.go\<close>, with what they use of
  \<^verbatim>\<open>net/http\<close>: a request, a response writer, a handler, the patterns of a \<^verbatim>\<open>ServeMux\<close> (for paths in
  canonical form), the timeout handler and the life of a server.
\<close>

section \<open>The cache\<close>

text \<open>The semaphore is a channel of capacity one; its length is the number of holders.  A lock that has to
  wait is \<^const>\<open>None\<close>.\<close>

record cache =
  c_sema :: nat
  c_data :: "json option"

definition mkCache :: cache where
  "mkCache = \<lparr>c_sema = 0, c_data = None\<rparr>"

definition cache_lock :: "cache \<Rightarrow> cache option" where
  "cache_lock c = (if c_sema c < 1 then Some (c\<lparr>c_sema := c_sema c + 1\<rparr>) else None)"

definition cache_unlock :: "cache \<Rightarrow> cache" where
  "cache_unlock c = c\<lparr>c_sema := c_sema c - 1\<rparr>"

definition cache_write :: "json \<Rightarrow> cache \<Rightarrow> cache option" where
  "cache_write data c = map_option (\<lambda>c'. cache_unlock (c'\<lparr>c_data := Some data\<rparr>)) (cache_lock c)"

definition cache_read :: "cache \<Rightarrow> (json option \<times> cache) option" where
  "cache_read c = map_option (\<lambda>c'. (c_data c', cache_unlock c')) (cache_lock c)"

lemma cache_write_read:
  "c_sema c = 0 \<Longrightarrow> \<exists>c'. cache_write data c = Some c' \<and> c_sema c' = 0 \<and> cache_read c' = Some (Some data, c')"
  by (simp add: cache_write_def cache_read_def cache_lock_def cache_unlock_def)

section \<open>Requests, responses and handlers\<close>

text \<open>
  A request: its path, the values of its query parameters, the user and password that
  \<^verbatim>\<open>BasicAuth()\<close> finds in its header, and whether the handler exceeds the time limit of the timeout handler.
\<close>

record request =
  rq_path :: string
  rq_query :: "(string \<times> string list) list"
  rq_auth :: "(string \<times> string) option"
  rq_slow :: bool

datatype body = Text string | Json json | NoBody

text \<open>
  The response writer of the timeout handler collects the header, the first status code and what is
  written, and sends them when the handler has returned: a header set after \<^verbatim>\<open>WriteHeader\<close> still counts.
\<close>

record response =
  rs_code :: "int option"
  rs_header :: "(string \<times> string) list"
  rs_body :: body

definition empty_response :: response where
  "empty_response = \<lparr>rs_code = None, rs_header = [], rs_body = NoBody\<rparr>"

definition Header_Set :: "string \<Rightarrow> string \<Rightarrow> response \<Rightarrow> response" where
  "Header_Set k v rw = rw\<lparr>rs_header := AList.update k v (rs_header rw)\<rparr>"

definition WriteHeader :: "int \<Rightarrow> response \<Rightarrow> response" where
  "WriteHeader code rw = (case rs_code rw of None \<Rightarrow> rw\<lparr>rs_code := Some code\<rparr> | Some _ \<Rightarrow> rw)"

definition Write :: "body \<Rightarrow> response \<Rightarrow> response" where
  "Write b rw = (WriteHeader 200 rw)\<lparr>rs_body := b\<rparr>"

definition StatusOK :: int where "StatusOK = 200"
definition StatusUnauthorized :: int where "StatusUnauthorized = 401"
definition StatusNotFound :: int where "StatusNotFound = 404"
definition StatusServiceUnavailable :: int where "StatusServiceUnavailable = 503"

text \<open>\<^verbatim>\<open>http.Error\<close> and \<^verbatim>\<open>http.NotFound\<close>.\<close>

definition http_Error :: "string \<Rightarrow> int \<Rightarrow> response \<Rightarrow> response" where
  "http_Error msg code rw =
     Write (Text (msg @ newline)) (WriteHeader code (Header_Set ''Content-Type'' ''text/plain; charset=utf-8'' rw))"

definition http_NotFound :: "response \<Rightarrow> response" where
  "http_NotFound rw = http_Error ''404 page not found'' StatusNotFound rw"

text \<open>A handler answers, panics or waits forever; it may change the state of the reporter behind it.\<close>

datatype answer = Answer response | Panic string | Blocked

type_synonym 's handler = "request \<Rightarrow> response \<Rightarrow> 's \<Rightarrow> answer \<times> 's"

type_synonym 's Middleware = "'s handler \<Rightarrow> 's handler"

text \<open>\<^verbatim>\<open>http.TimeoutHandler\<close>: a handler that takes too long is answered for, and its own answer is dropped.\<close>

definition TimeoutHandler :: "'s handler \<Rightarrow> string \<Rightarrow> 's handler" where
  "TimeoutHandler h msg rq rw s =
     (case h rq empty_response s of
        (Panic p, s') \<Rightarrow> (Panic p, s')
      | (Blocked, s') \<Rightarrow> (Answer (Write (Text msg) (WriteHeader StatusServiceUnavailable rw)), s')
      | (Answer a, s') \<Rightarrow>
          if rq_slow rq then (Answer (Write (Text msg) (WriteHeader StatusServiceUnavailable rw)), s')
          else (Answer (Write (rs_body a)
                  (WriteHeader (case rs_code a of None \<Rightarrow> 200 | Some code \<Rightarrow> code)
                    (rw\<lparr>rs_header := fold (\<lambda>(k, v). AList.update k v) (rs_header a) (rs_header rw)\<rparr>))), s'))"

section \<open>Middleware\<close>

unbundle bit_operations_syntax

definition bytes :: "string \<Rightarrow> 8 word list" where
  "bytes s = map (\<lambda>c. word_of_nat (of_char c)) s"

text \<open>\<^verbatim>\<open>subtle.ConstantTimeCompare\<close>: the differing bits of all bytes, collected without a branch.\<close>

definition ConstantTimeCompare :: "8 word list \<Rightarrow> 8 word list \<Rightarrow> int" where
  "ConstantTimeCompare x y =
     (if length x \<noteq> length y then 0
      else if fold (\<lambda>(a, b) v. v OR (a XOR b)) (zip x y) 0 = 0 then 1 else 0)"

definition BasicAuth :: "string \<Rightarrow> string \<Rightarrow> 's Middleware" where
  "BasicAuth username password next rq rw s =
     (case rq_auth rq of
        Some (u, p) \<Rightarrow>
          if ConstantTimeCompare (bytes u) (bytes username) \<noteq> 1 \<or>
             ConstantTimeCompare (bytes p) (bytes password) \<noteq> 1
          then (Answer (http_Error ''Unauthorized'' StatusUnauthorized
                 (Header_Set ''WWW-Authenticate'' (''Basic realm='' @ dquote @ ''health'' @ dquote) rw)), s)
          else next rq rw s
      | None \<Rightarrow>
          (Answer (http_Error ''Unauthorized'' StatusUnauthorized
             (Header_Set ''WWW-Authenticate'' (''Basic realm='' @ dquote @ ''health'' @ dquote) rw)), s))"

lemma fold_or_zero:
  "fold (\<lambda>(a, b) v. v OR (a XOR b)) ps v = (0 :: 8 word) \<longleftrightarrow> v = 0 \<and> (\<forall>(a, b)\<in>set ps. a = b)"
proof (induction ps arbitrary: v)
  case (Cons p ps)
  obtain a b where "p = (a, b)" by (cases p)
  moreover have "v OR (a XOR b) = 0 \<longleftrightarrow> v = 0 \<and> a = b"
    by (auto simp: bit_eq_iff bit_simps)
  ultimately show ?case using Cons by auto
qed simp

lemma ConstantTimeCompare_iff: "ConstantTimeCompare x y = 1 \<longleftrightarrow> x = y"
  by (auto simp: ConstantTimeCompare_def fold_or_zero list_eq_iff_zip_eq)

lemma bytes_inject: "bytes x = bytes y \<longleftrightarrow> x = y"
proof
  have "inj (\<lambda>c :: char. (word_of_nat (of_char c) :: 8 word))"
  proof (rule injI)
    fix a b :: char
    assume eq: "(word_of_nat (of_char a) :: 8 word) = word_of_nat (of_char b)"
    have "unat (word_of_nat (of_char c) :: 8 word) = of_char c" for c :: char
      using of_char_mod_256 [of c, where 'a = nat] by (simp add: unat_of_nat)
    with arg_cong [OF eq, of unat] have "(of_char a :: nat) = of_char b" by simp
    then show "a = b" by simp
  qed
  then show "bytes x = bytes y \<Longrightarrow> x = y" by (simp add: bytes_def inj_map_eq_map)
qed simp

end
