(* ===== verification/Http_Reporter.thy ===== *)
theory Http_Reporter
  imports Http_Server
begin

text \<open>
  \<^verbatim>\<open>reporter/httpserver/config.go\<close> and \<^verbatim>\<open>reporter.go\<close>: the configuration, the reporter's state and
  methods, its request handlers and the chain of handlers around them.  It is an interpretation
  of both reporter interfaces.
\<close>

section \<open>Configuration\<close>

record 's Config =
  cfg_Addr :: string
  cfg_Port :: int
  cfg_LivenessRoute :: string
  cfg_ReadinessRoute :: string
  cfg_StartupRoute :: string
  cfg_Logger :: "Logger option"
  cfg_Middleware :: "'s Middleware list"
  cfg_ServiceName :: string
  cfg_ServiceVersion :: string

type_synonym 's ConfigOption = "'s Config \<Rightarrow> 's Config"

definition WithAddr :: "string \<Rightarrow> 's ConfigOption" where
  "WithAddr addr c = c\<lparr>cfg_Addr := addr\<rparr>"

definition WithPort :: "int \<Rightarrow> 's ConfigOption" where
  "WithPort port c = c\<lparr>cfg_Port := port\<rparr>"

definition WithLivenessRoute :: "string \<Rightarrow> 's ConfigOption" where
  "WithLivenessRoute route c = c\<lparr>cfg_LivenessRoute := route\<rparr>"

definition WithReadinessRoute :: "string \<Rightarrow> 's ConfigOption" where
  "WithReadinessRoute route c = c\<lparr>cfg_ReadinessRoute := route\<rparr>"

definition WithStartupRoute :: "string \<Rightarrow> 's ConfigOption" where
  "WithStartupRoute route c = c\<lparr>cfg_StartupRoute := route\<rparr>"

definition WithLogger :: "Logger \<Rightarrow> 's ConfigOption" where
  "WithLogger l c = c\<lparr>cfg_Logger := Some l\<rparr>"

definition WithMiddleware :: "'s Middleware list \<Rightarrow> 's ConfigOption" where
  "WithMiddleware mw c = c\<lparr>cfg_Middleware := cfg_Middleware c @ mw\<rparr>"

definition WithServiceName :: "string \<Rightarrow> 's ConfigOption" where
  "WithServiceName name c = c\<lparr>cfg_ServiceName := name\<rparr>"

definition WithServiceVersion :: "string \<Rightarrow> 's ConfigOption" where
  "WithServiceVersion version c = c\<lparr>cfg_ServiceVersion := version\<rparr>"

definition defaultConfig :: "'s Config" where
  "defaultConfig = \<lparr>cfg_Addr = ''0.0.0.0'', cfg_Port = 8181, cfg_LivenessRoute = ''/livez'',
     cfg_ReadinessRoute = ''/readyz'', cfg_StartupRoute = ''/healthz'', cfg_Logger = None, cfg_Middleware = [],
     cfg_ServiceName = [], cfg_ServiceVersion = []\<rparr>"

section \<open>The reporter\<close>

text \<open>
  The server: its address, whether it serves, and whether it was shut down (a server that was
  shut down serves no more).  What the operating system and the clock's zone decide is the
  environment: whether the address can be listened on, how a shutdown ends, and the texts of
  durations and instants.
\<close>

record server =
  sv_Addr :: string
  sv_serving :: bool
  sv_closed :: bool

record server_env =
  se_Listen :: "string \<Rightarrow> go_error option"
  se_Shutdown :: "ctx \<Rightarrow> go_error option"
  se_Duration :: "duration \<Rightarrow> string"
  se_RFC3339 :: "instant \<Rightarrow> string"

record HttpReporter =
  h_running :: uint32
  h_live :: uint32
  h_ready :: uint32
  h_startup :: uint32
  h_hcCache :: "cache option"
  h_hcs :: "(string, CheckResult) gomap"
  h_server :: server
  h_logger :: Logger
  h_serviceName :: string
  h_serviceVer :: string
  h_livePath :: string
  h_readyPath :: string
  h_startupPath :: string

definition http_log :: "log_level \<Rightarrow> string \<Rightarrow> (string \<times> log_value) list \<Rightarrow> HttpReporter \<Rightarrow> HttpReporter" where
  "http_log l msg args r = r\<lparr>h_logger := Logger_log l msg args (h_logger r)\<rparr>"

definition Http_SetLiveness :: "ctx \<Rightarrow> bool \<Rightarrow> HttpReporter \<Rightarrow> HttpReporter" where
  "Http_SetLiveness c b r = r\<lparr>h_live := flag b\<rparr>"

definition Http_SetReadiness :: "ctx \<Rightarrow> bool \<Rightarrow> HttpReporter \<Rightarrow> HttpReporter" where
  "Http_SetReadiness c b r = r\<lparr>h_ready := flag b\<rparr>"

definition Http_SetStartup :: "ctx \<Rightarrow> bool \<Rightarrow> HttpReporter \<Rightarrow> HttpReporter" where
  "Http_SetStartup c b r = r\<lparr>h_startup := flag b\<rparr>"

text \<open>
  \<^verbatim>\<open>Run\<close>.  The goroutine that serves returns \<^verbatim>\<open>http.ErrServerClosed\<close> at once when the server was shut
  down before, which it does not log.
\<close>

definition Http_Run :: "server_env \<Rightarrow> ctx \<Rightarrow> HttpReporter \<Rightarrow> go_error option \<times> HttpReporter" where
  "Http_Run env c r =
     (case CompareAndSwapUint32 (h_running r) 0 1 of
        (_, False) \<Rightarrow> (Some (ErrorString ''health.reporter.httpserver: Run - reporter is already running''), r)
      | (cell, True) \<Rightarrow>
          let r1 = r\<lparr>h_running := cell\<rparr>;
              r2 = (case h_hcCache r1 of None \<Rightarrow> r1\<lparr>h_hcCache := Some mkCache\<rparr> | Some _ \<Rightarrow> r1)
          in case se_Listen env (sv_Addr (h_server r2)) of
               Some err \<Rightarrow>
                 (Some (Errorf_w ''health.reporter.httpserver: Run - listen error: '' err), r2\<lparr>h_running := 0\<rparr>)
             | None \<Rightarrow>
                 (None, r2\<lparr>h_server := (h_server r2)\<lparr>sv_serving := \<not> sv_closed (h_server r2)\<rparr>\<rparr>))"

definition Http_Stop :: "server_env \<Rightarrow> ctx \<Rightarrow> HttpReporter \<Rightarrow> go_error option \<times> HttpReporter" where
  "Http_Stop env c r =
     (se_Shutdown env c,
      r\<lparr>h_running := 0, h_server := (h_server r)\<lparr>sv_serving := False, sv_closed := True\<rparr>\<rparr>)"

text \<open>The JSON of one check in the cached body.\<close>

definition checkJSON :: "server_env \<Rightarrow> CheckResult \<Rightarrow> json" where
  "checkJSON env hc = JObject
     (field ''name'' (JString (hc_Name hc)) @
      field ''status'' (JString (Status_String (hc_Status hc))) @
      field ''affectsLiveness'' (JBool (hc_AffectsLiveness hc)) @
      field ''affectsReadiness'' (JBool (hc_AffectsReadiness hc)) @
      omitempty ''affectsStartup'' (JBool (hc_AffectsStartup hc)) @
      omitempty ''group'' (JString (hc_Group hc)) @
      omitempty ''componentType'' (JString (hc_ComponentType hc)) @
      omitempty ''error'' (JString (case hc_Error hc of None \<Rightarrow> [] | Some e \<Rightarrow> error_text e)) @
      omitempty ''errorSince'' (JString (if IsZero (hc_ErrorSince hc) then [] else se_RFC3339 env (hc_ErrorSince hc))) @
      omitempty ''duration'' (JString (if hc_Duration hc > 0 then se_Duration env (hc_Duration hc) else [])) @
      omitempty ''lastCheck'' (JString (if IsZero (hc_Timestamp hc) then [] else se_RFC3339 env (hc_Timestamp hc))) @
      omitempty ''metadata'' (json_map JString (gomap_entries (hc_Metadata hc))))"

text \<open>
  \<^verbatim>\<open>cacheHealthChecks\<close>: a map from names to their JSON, built in the order of the loop and written with
  sorted keys (encoding it cannot fail).  Without a cache the write panics, which is recovered and logged.
\<close>

definition cacheHealthChecks :: "server_env \<Rightarrow> string rorder \<Rightarrow> HttpReporter \<Rightarrow> HttpReporter" where
  "cacheHealthChecks env ord r =
     (let pl = fold (\<lambda>(k, hc) pl. AList.update k (checkJSON env hc) pl)
                 (range_entries ord (gomap_entries (h_hcs r))) [];
          data = json_map id pl
      in case h_hcCache r of
           None \<Rightarrow> http_log LevelError ''cacheHealthChecks panicked''
                     [(''error'', LogString ''runtime error: invalid memory address or nil pointer dereference'')] r
         | Some ch \<Rightarrow>
             (case cache_write data ch of
                None \<Rightarrow> r
              | Some ch' \<Rightarrow> r\<lparr>h_hcCache := Some ch'\<rparr>))"

definition Http_UpdateHealthChecks ::
    "server_env \<Rightarrow> string rorder \<Rightarrow> ctx \<Rightarrow> (string \<times> CheckResult) list \<Rightarrow> HttpReporter \<Rightarrow> HttpReporter" where
  "Http_UpdateHealthChecks env ord c m r =
     (if h_running r = 0 then r
      else cacheHealthChecks env ord (r\<lparr>h_hcs := gomap_absorb m (h_hcs r)\<rparr>))"

section \<open>Request handlers\<close>

definition reportNotRunning :: "HttpReporter handler" where
  "reportNotRunning rq rw r =
     (Answer (Write (Text (''{'' @ dquote @ ''error'' @ dquote @ '':'' @ dquote @
        ''health.reporter.httpserver: reporter not running'' @ dquote @ ''}''))
        (WriteHeader StatusServiceUnavailable rw)), r)"

text \<open>One entry of the verbose listing.\<close>

definition check_line :: "string \<Rightarrow> CheckResult \<Rightarrow> string" where
  "check_line name hc =
     (if hc_Status hc = StatusUnhealthy
      then ''[-]'' @ name @ '' failed: '' @ (case hc_Error hc of None \<Rightarrow> ''check failed'' | Some e \<Rightarrow> error_text e) @ newline
      else ''[+]'' @ name @ '' ok'' @ newline)"

definition query_values :: "string \<Rightarrow> request \<Rightarrow> string list option" where
  "query_values k rq = map_of (rq_query rq) k"

definition reportVerbose :: "string rorder \<Rightarrow> HttpReporter handler" where
  "reportVerbose ord rq rw r =
     (let excludes = (case query_values ''exclude'' rq of None \<Rightarrow> [] | Some ns \<Rightarrow> ns);
          (allOK, buf) =
            fold (\<lambda>(name, hc) (allOK, buf).
                    if name \<in> set excludes then (allOK, buf)
                    else if hc_Status hc = StatusUnhealthy then (False, buf @ check_line name hc)
                    else (allOK, buf @ check_line name hc))
              (range_entries ord (gomap_entries (h_hcs r))) (True, []);
          rw1 = (if allOK then WriteHeader StatusOK rw else WriteHeader StatusServiceUnavailable rw);
          rw2 = Header_Set ''Content-Type'' ''text/plain; charset=utf-8'' rw1
      in (Answer (Write (Text buf) rw2), r))"

text \<open>
  The three probes differ in the flag they look at.  Reading a cache that does not exist panics.
\<close>

definition report_probe :: "(HttpReporter \<Rightarrow> uint32) \<Rightarrow> string rorder \<Rightarrow> HttpReporter handler" where
  "report_probe probe ord rq rw r =
     (if h_running r = 0 then reportNotRunning rq rw r
      else if query_values ''verbose'' rq \<noteq> None then reportVerbose ord rq rw r
      else
        let statusCode = (if probe r = 0 then StatusServiceUnavailable else StatusOK)
        in case h_hcCache r of
             None \<Rightarrow> (Panic ''runtime error: invalid memory address or nil pointer dereference'', r)
           | Some ch \<Rightarrow>
               (case cache_read ch of
                  None \<Rightarrow> (Blocked, r)
                | Some (data, ch') \<Rightarrow>
                    (Answer (Write (case data of None \<Rightarrow> NoBody | Some j \<Rightarrow> Json j)
                       (WriteHeader statusCode (Header_Set ''Content-Type'' ''application/json'' rw))),
                     r\<lparr>h_hcCache := Some ch'\<rparr>)))"

definition reportLiveness :: "string rorder \<Rightarrow> HttpReporter handler" where
  "reportLiveness = report_probe h_live"

definition reportReadiness :: "string rorder \<Rightarrow> HttpReporter handler" where
  "reportReadiness = report_probe h_ready"

definition reportStartup :: "string rorder \<Rightarrow> HttpReporter handler" where
  "reportStartup = report_probe h_startup"

fun check_name :: "string list \<Rightarrow> string \<Rightarrow> string" where
  "check_name [] path = []"
| "check_name (prefix # ps) path =
     (let trimmed = TrimPrefix path (prefix @ ''/'')
      in if trimmed \<noteq> path then trimmed else check_name ps path)"

definition reportIndividualCheck :: "HttpReporter handler" where
  "reportIndividualCheck rq rw r =
     (if h_running r = 0 then reportNotRunning rq rw r
      else
        let checkName = check_name [h_livePath r, h_readyPath r, h_startupPath r] (rq_path rq)
        in if checkName = [] then (Answer (http_NotFound rw), r)
           else
             (case gomap_get (h_hcs r) checkName of
                None \<Rightarrow> (Answer (http_NotFound rw), r)
              | Some hc \<Rightarrow>
                  let rw1 = Header_Set ''Content-Type'' ''text/plain; charset=utf-8'' rw;
                      rw2 = WriteHeader (if hc_Status hc = StatusUnhealthy then StatusServiceUnavailable else StatusOK) rw1
                  in (Answer (Write (Text (check_line checkName hc)) rw2), r)))"

definition check_entry :: "server_env \<Rightarrow> CheckResult \<Rightarrow> CheckEntry" where
  "check_entry env hc =
     \<lparr>ce_Name = hc_Name hc, ce_Status = Status_String (hc_Status hc), ce_Group = hc_Group hc,
      ce_ComponentType = hc_ComponentType hc, ce_AffectsLiveness = hc_AffectsLiveness hc,
      ce_AffectsReadiness = hc_AffectsReadiness hc, ce_AffectsStartup = hc_AffectsStartup hc,
      ce_DependsOn = hc_DependsOn hc,
      ce_Duration = (if hc_Duration hc > 0 then se_Duration env (hc_Duration hc) else []),
      ce_LastCheck = (if IsZero (hc_Timestamp hc) then [] else se_RFC3339 env (hc_Timestamp hc)),
      ce_Error = (case hc_Error hc of None \<Rightarrow> [] | Some e \<Rightarrow> error_text e)\<rparr>"

definition manifest :: "server_env \<Rightarrow> string rorder \<Rightarrow> instant \<Rightarrow> HttpReporter \<Rightarrow> Manifest" where
  "manifest env ord now r =
     \<lparr>mf_Service = h_serviceName r, mf_Version = h_serviceVer r,
      mf_Status = (if h_live r = 0 then ''fail'' else if h_ready r = 0 then ''warn'' else ''pass''),
      mf_Checks = map (\<lambda>(k, hc). check_entry env hc) (range_entries ord (gomap_entries (h_hcs r))),
      mf_Timestamp = now\<rparr>"

definition reportManifest :: "server_env \<Rightarrow> string rorder \<Rightarrow> instant \<Rightarrow> HttpReporter handler" where
  "reportManifest env ord now rq rw r =
     (if h_running r = 0 then reportNotRunning rq rw r
      else (Answer (Write (Json (Manifest_json (manifest env ord now r)))
              (WriteHeader StatusOK (Header_Set ''Content-Type'' ''application/json'' rw))), r))"

text \<open>\<^verbatim>\<open>Recover\<close>: what was written before the panic stays, so the status is 503 unless one was sent before.\<close>

definition Recover :: "HttpReporter handler \<Rightarrow> HttpReporter handler" where
  "Recover next rq rw r =
     (case next rq rw r of
        (Answer a, r') \<Rightarrow> (Answer a, r')
      | (Blocked, r') \<Rightarrow> (Blocked, r')
      | (Panic p, r') \<Rightarrow>
          (Answer (http_Error ''Service Unavailable'' StatusServiceUnavailable rw),
           http_log LevelError ''recovered from panic'' [(''error'', LogString p)] r'))"

section \<open>Routes\<close>

text \<open>
  The patterns of a \<^verbatim>\<open>ServeMux\<close>: registering one twice panics; a pattern that ends in a slash matches
  every path below it, any other only itself, and the longest match wins.  The path of a request is
  the cleaned one (without empty, \<^verbatim>\<open>.\<close> and \<^verbatim>\<open>..\<close> elements): a \<^verbatim>\<open>ServeMux\<close> answers any other with
  a redirect to it.  The patterns hold no wildcards in braces.
\<close>

type_synonym mux = "(string \<times> HttpReporter handler) list"

definition HandleFunc :: "string \<Rightarrow> HttpReporter handler \<Rightarrow> mux \<Rightarrow> mux option" where
  "HandleFunc pattern h mux = (if pattern \<in> fst ` set mux then None else Some (mux @ [(pattern, h)]))"

definition pattern_matches :: "string \<Rightarrow> string \<Rightarrow> bool" where
  "pattern_matches pattern path \<longleftrightarrow>
     pattern = path \<or> (pattern \<noteq> [] \<and> last pattern = CHR ''/'' \<and> HasPrefix path pattern)"

fun mux_find :: "mux \<Rightarrow> string \<Rightarrow> (string \<times> HttpReporter handler) option" where
  "mux_find [] path = None"
| "mux_find ((pat, h) # mux) path =
     (if pattern_matches pat path
      then (case mux_find mux path of
              Some (pat', h') \<Rightarrow> if length pat' > length pat then Some (pat', h') else Some (pat, h)
            | None \<Rightarrow> Some (pat, h))
      else mux_find mux path)"

definition mux_ServeHTTP :: "mux \<Rightarrow> HttpReporter handler" where
  "mux_ServeHTTP mux rq rw r =
     (case mux_find mux (rq_path rq) of
        Some (pat, h) \<Rightarrow> h rq rw r
      | None \<Rightarrow> (Answer (http_NotFound rw), r))"

definition route_path :: "string \<Rightarrow> string" where
  "route_path route = ''/'' @ TrimPrefix route ''/''"

text \<open>
  \<^verbatim>\<open>newFromConfig\<close>: the reporter and the handler of its server, or nothing when registering the routes
  panics.
\<close>

definition new_mux :: "server_env \<Rightarrow> string rorder \<Rightarrow> instant \<Rightarrow> string \<Rightarrow> string \<Rightarrow> string \<Rightarrow> mux option" where
  "new_mux env ord now livePath readyPath startupPath =
     fold (\<lambda>(pat, h) m. Option.bind m (HandleFunc pat h))
       [(livePath, reportLiveness ord), (readyPath, reportReadiness ord), (startupPath, reportStartup ord),
        (livePath @ ''/'', reportIndividualCheck), (readyPath @ ''/'', reportIndividualCheck),
        (startupPath @ ''/'', reportIndividualCheck),
        (''/.well-known/health'', reportManifest env ord now)] (Some [])"

definition newFromConfig ::
    "server_env \<Rightarrow> string rorder \<Rightarrow> instant \<Rightarrow> HttpReporter Config \<Rightarrow> (HttpReporter \<times> HttpReporter handler) option" where
  "newFromConfig env ord now cfg =
     (let livePath = route_path (cfg_LivenessRoute cfg);
          readyPath = route_path (cfg_ReadinessRoute cfg);
          startupPath = route_path (cfg_StartupRoute cfg);
          reporter = \<lparr>h_running = 0, h_live = 0, h_ready = 0, h_startup = 0, h_hcCache = Some mkCache, h_hcs = None,
             h_server = \<lparr>sv_Addr = cfg_Addr cfg @ '':'' @ Itoa (cfg_Port cfg), sv_serving = False, sv_closed = False\<rparr>,
             h_logger = (case cfg_Logger cfg of None \<Rightarrow> NoOpLogger | Some l \<Rightarrow> l),
             h_serviceName = cfg_ServiceName cfg, h_serviceVer = cfg_ServiceVersion cfg,
             h_livePath = livePath, h_readyPath = readyPath, h_startupPath = startupPath\<rparr>
      in case new_mux env ord now livePath readyPath startupPath of
           None \<Rightarrow> None
         | Some mux \<Rightarrow>
             let h0 = TimeoutHandler (mux_ServeHTTP mux) ''the request timed out'';
                 h1 = foldr (\<lambda>mw h. mw h) (cfg_Middleware cfg) h0
             in Some (reporter, Recover h1))"

definition Http_New ::
    "server_env \<Rightarrow> string rorder \<Rightarrow> instant \<Rightarrow> HttpReporter ConfigOption list \<Rightarrow> (HttpReporter \<times> HttpReporter handler) option" where
  "Http_New env ord now opts = newFromConfig env ord now (fold (\<lambda>o' c. o' c) opts defaultConfig)"

definition NewReporter ::
    "server_env \<Rightarrow> string rorder \<Rightarrow> instant \<Rightarrow> HttpReporter Config \<Rightarrow> (HttpReporter \<times> HttpReporter handler) option" where
  "NewReporter = newFromConfig"

end
