(* ===== verification/Http_Properties.thy ===== *)
theory Http_Properties
  imports Http_Reporter
begin

text \<open>
  The HTTP reporter against its interfaces and its users: what a request to each route is
  answered with, through the whole chain of handlers.
\<close>

section \<open>The reporter interfaces\<close>

definition HttpReporter_ops :: "server_env \<Rightarrow> string rorder \<Rightarrow> HttpReporter Reporter_ops" where
  "HttpReporter_ops env ord = \<lparr>r_Run = Http_Run env, r_Stop = Http_Stop env, r_SetLiveness = Http_SetLiveness,
     r_SetReadiness = Http_SetReadiness, r_SetStartup = Http_SetStartup,
     r_UpdateHealthChecks = Http_UpdateHealthChecks env ord\<rparr>"

definition HttpReporter_view :: "HttpReporter \<Rightarrow> probes" where
  "HttpReporter_view r = \<lparr>p_live = (h_live r = 1), p_ready = (h_ready r = 1), p_startup = (h_startup r = 1)\<rparr>"

lemma HttpReporter_ops_simps [simp]:
  "r_Run (HttpReporter_ops env ord) = Http_Run env" "r_Stop (HttpReporter_ops env ord) = Http_Stop env"
  "r_SetLiveness (HttpReporter_ops env ord) = Http_SetLiveness"
  "r_SetReadiness (HttpReporter_ops env ord) = Http_SetReadiness"
  "r_SetStartup (HttpReporter_ops env ord) = Http_SetStartup"
  "r_UpdateHealthChecks (HttpReporter_ops env ord) = Http_UpdateHealthChecks env ord"
  by (simp_all add: HttpReporter_ops_def)

lemma http_log_fields [simp]:
  "h_running (http_log l t a r) = h_running r" "h_live (http_log l t a r) = h_live r"
  "h_ready (http_log l t a r) = h_ready r" "h_startup (http_log l t a r) = h_startup r"
  "h_hcs (http_log l t a r) = h_hcs r" "h_hcCache (http_log l t a r) = h_hcCache r"
  by (simp_all add: http_log_def)

lemma cacheHealthChecks_fields [simp]:
  "h_running (cacheHealthChecks env ord r) = h_running r" "h_live (cacheHealthChecks env ord r) = h_live r"
  "h_ready (cacheHealthChecks env ord r) = h_ready r" "h_startup (cacheHealthChecks env ord r) = h_startup r"
  "h_hcs (cacheHealthChecks env ord r) = h_hcs r"
  by (simp_all add: cacheHealthChecks_def Let_def split: option.split)

lemmas Http_method_defs = Http_Run_def Http_Stop_def Http_SetLiveness_def Http_SetReadiness_def
  Http_SetStartup_def Http_UpdateHealthChecks_def

lemma Http_Run_fields:
  "h_live (snd (Http_Run env c r)) = h_live r" "h_ready (snd (Http_Run env c r)) = h_ready r"
  "h_startup (snd (Http_Run env c r)) = h_startup r"
  "fst (Http_Run env c r) = None \<Longrightarrow> h_running (snd (Http_Run env c r)) = 1"
  by (auto simp: Http_Run_def CompareAndSwapUint32_def Let_def split: option.splits)

interpretation http_rep: reporter_store "HttpReporter_ops env ord" HttpReporter_view
    "\<lambda>r. gomap_get (h_hcs r)" "\<lambda>r. h_running r \<noteq> 0" for env ord
proof unfold_locales
  fix c r
  show "HttpReporter_view (snd (r_Run (HttpReporter_ops env ord) c r)) = HttpReporter_view r"
    by (simp add: HttpReporter_view_def Http_Run_fields)
  show "fst (r_Run (HttpReporter_ops env ord) c r) = None \<Longrightarrow> h_running (snd (r_Run (HttpReporter_ops env ord) c r)) \<noteq> 0"
    by (simp add: Http_Run_fields)
qed (auto simp: Http_method_defs HttpReporter_view_def gomap_absorb_single gomap_get_put)

section \<open>Routing\<close>

lemma pattern_matches_length: "pattern_matches pat path \<Longrightarrow> length pat \<le> length path \<and> (length pat = length path \<longrightarrow> pat = path)"
  by (auto simp: pattern_matches_def HasPrefix_iff)

lemma mux_find_matches: "mux_find mux path = Some (pat, h) \<Longrightarrow> pattern_matches pat path \<and> (pat, h) \<in> set mux"
  by (induction mux path rule: mux_find.induct) (auto split: if_splits option.splits)

lemma mux_find_Some:
  assumes "(pat, h) \<in> set mux" "pattern_matches pat path"
  obtains pat' h' where "mux_find mux path = Some (pat', h')" "(pat', h') \<in> set mux"
proof -
  from assms have "mux_find mux path \<noteq> None"
    by (induction mux) (auto split: option.splits)
  then show thesis using that mux_find_matches by (metis not_None_eq surj_pair)
qed

text \<open>An exact pattern wins.\<close>

lemma mux_find_exact:
  assumes "distinct (map fst mux)" "(path, h) \<in> set mux"
  shows "mux_find mux path = Some (path, h)"
  using assms
proof (induction mux path rule: mux_find.induct)
  case (2 pat h' mux path)
  show ?case
  proof (cases "pat = path")
    case True
    then have "h' = h" using 2(3,4) by (auto simp: rev_image_eqI)
    moreover have "mux_find mux path = Some (p, k) \<Longrightarrow> \<not> length p > length path" for p k
      using mux_find_matches pattern_matches_length by fastforce
    ultimately show ?thesis using True by (auto simp: pattern_matches_def split: option.splits)
  next
    case False
    then have m: "(path, h) \<in> set mux" "distinct (map fst mux)" using 2(3,4) by auto
    show ?thesis
    proof (cases "pattern_matches pat path")
      case True
      then have "mux_find mux path = Some (path, h)" using 2(1) m by simp
      moreover have "length pat < length path"
        using pattern_matches_length [OF True] False by fastforce
      ultimately show ?thesis using True by simp
    next
      case no: False
      then show ?thesis using 2(2) m by simp
    qed
  qed
qed simp

lemma HandleFunc_None: "fold (\<lambda>(pat, h) m. Option.bind m (HandleFunc pat h)) ps None = None"
  by (induction ps) auto

lemma HandleFunc_fold:
  "fold (\<lambda>(pat, h) m. Option.bind m (HandleFunc pat h)) ps (Some mux0) = Some mux \<Longrightarrow>
   distinct (map fst mux0) \<Longrightarrow> mux = mux0 @ ps \<and> distinct (map fst mux)"
proof (induction ps arbitrary: mux0)
  case (Cons p ps)
  obtain pat h where p: "p = (pat, h)" by (cases p)
  show ?case
  proof (cases "pat \<in> fst ` set mux0")
    case True
    then have "HandleFunc pat h mux0 = None" by (simp add: HandleFunc_def)
    with Cons.prems(1) p show ?thesis by (simp add: HandleFunc_None)
  next
    case False
    then have "HandleFunc pat h mux0 = Some (mux0 @ [(pat, h)])" by (simp add: HandleFunc_def)
    with Cons.prems p have f: "fold (\<lambda>(pat, h) m. Option.bind m (HandleFunc pat h)) ps (Some (mux0 @ [(pat, h)])) = Some mux"
      by simp
    have "distinct (map fst (mux0 @ [(pat, h)]))" using Cons.prems(2) False by simp
    from Cons.IH [OF f this] p show ?thesis by (metis append_assoc append_Cons append_Nil)
  qed
qed simp

lemma new_mux_routes:
  assumes "new_mux env ord now live ready startup = Some mux"
  shows "distinct (map fst mux)"
    and "mux = [(live, reportLiveness ord), (ready, reportReadiness ord), (startup, reportStartup ord),
        (live @ ''/'', reportIndividualCheck), (ready @ ''/'', reportIndividualCheck),
        (startup @ ''/'', reportIndividualCheck), (''/.well-known/health'', reportManifest env ord now)]"
proof -
  note r = HandleFunc_fold [OF assms [unfolded new_mux_def], unfolded append_Nil]
  have d: "distinct (map fst ([] :: mux))" by simp
  show "distinct (map fst mux)" using r [OF d] by blast
  show "mux = [(live, reportLiveness ord), (ready, reportReadiness ord), (startup, reportStartup ord),
        (live @ ''/'', reportIndividualCheck), (ready @ ''/'', reportIndividualCheck),
        (startup @ ''/'', reportIndividualCheck), (''/.well-known/health'', reportManifest env ord now)]"
    using r [OF d] by (rule conjunct1)
qed

section \<open>Answers\<close>

definition answer_code :: "answer \<Rightarrow> int option" where
  "answer_code a = (case a of Answer rs \<Rightarrow> rs_code rs | _ \<Rightarrow> None)"

definition answer_body :: "answer \<Rightarrow> body" where
  "answer_body a = (case a of Answer rs \<Rightarrow> rs_body rs | _ \<Rightarrow> NoBody)"

lemmas writer_defs = Write_def WriteHeader_def Header_Set_def http_Error_def http_NotFound_def empty_response_def
  answer_code_def answer_body_def StatusOK_def StatusServiceUnavailable_def StatusNotFound_def StatusUnauthorized_def

lemma Timeout_answer:
  assumes "h rq empty_response s = (Answer a, s')" "\<not> rq_slow rq" "rs_code a \<noteq> None"
  shows "answer_code (fst (TimeoutHandler h msg rq empty_response s)) = rs_code a"
    "answer_body (fst (TimeoutHandler h msg rq empty_response s)) = rs_body a"
    "snd (TimeoutHandler h msg rq empty_response s) = s'"
  using assms by (auto simp: TimeoutHandler_def writer_defs)

text \<open>A request for a registered pattern reaches its handler through the plain chain.\<close>

lemma plain_chain:
  assumes new: "newFromConfig env ord now cfg = Some (r0, serve)" and mw: "cfg_Middleware cfg = []"
    and mux: "new_mux env ord now (route_path (cfg_LivenessRoute cfg)) (route_path (cfg_ReadinessRoute cfg))
        (route_path (cfg_StartupRoute cfg)) = Some mux"
    and h: "mux_find mux (rq_path rq) = Some (pat, h)"
    and a: "h rq empty_response r = (Answer a, r')" "\<not> rq_slow rq" "rs_code a \<noteq> None"
  shows "answer_code (fst (serve rq empty_response r)) = rs_code a \<and>
    answer_body (fst (serve rq empty_response r)) = rs_body a \<and> snd (serve rq empty_response r) = r'"
proof -
  have serve: "serve = Recover (TimeoutHandler (mux_ServeHTTP mux) ''the request timed out'')"
    using new mw mux by (simp add: newFromConfig_def Let_def)
  have "mux_ServeHTTP mux rq empty_response r = (Answer a, r')"
    using h a(1) by (simp add: mux_ServeHTTP_def)
  note t = Timeout_answer [of "mux_ServeHTTP mux", OF this a(2,3), of "''the request timed out''"]
  then show ?thesis
    unfolding serve using a(3)
    by (auto simp: Recover_def answer_code_def split: prod.splits answer.splits)
qed

lemma newFromConfig_mux:
  assumes "newFromConfig env ord now cfg = Some (r0, serve)"
  obtains mux where "new_mux env ord now (route_path (cfg_LivenessRoute cfg)) (route_path (cfg_ReadinessRoute cfg))
        (route_path (cfg_StartupRoute cfg)) = Some mux"
  using assms by (auto simp: newFromConfig_def Let_def split: option.splits)

lemma report_probe_answer:
  assumes "h_running r \<noteq> 0" "query_values ''verbose'' rq = None" "h_hcCache r = Some ch" "c_sema ch = 0"
  shows "\<exists>a. report_probe probe ord rq empty_response r = (Answer a, r) \<and>
    rs_code a = Some (if probe r = 0 then 503 else 200) \<and>
    rs_body a = (case c_data ch of None \<Rightarrow> NoBody | Some j \<Rightarrow> Json j)"
  using assms by (simp add: report_probe_def Let_def cache_read_def cache_lock_def cache_unlock_def writer_defs)

section \<open>Properties\<close>

text \<open>An environment for the examples: every address is free and shutdowns succeed.\<close>

definition demo_server :: server_env where
  "demo_server = \<lparr>se_Listen = (\<lambda>_. None), se_Shutdown = (\<lambda>_. None), se_Duration = (\<lambda>d. Itoa d @ ''ns''), se_RFC3339 = Itoa\<rparr>"

definition demo_http :: "(HttpReporter \<times> HttpReporter handler) option" where
  "demo_http = Http_New demo_server id 0 []"

definition get_path :: "string \<Rightarrow> request" where
  "get_path path = \<lparr>rq_path = path, rq_query = [], rq_auth = None, rq_slow = False\<rparr>"

lemma demo_http_Some: "\<exists>r serve. demo_http = Some (r, serve)"
proof -
  have "distinct [''/livez'', ''/readyz'', ''/healthz'', ''/livez/'', ''/readyz/'', ''/healthz/'', ''/.well-known/health'']"
    by simp
  then have "new_mux env ord now ''/livez'' ''/readyz'' ''/healthz'' \<noteq> None" for env ord now
    by (simp add: new_mux_def HandleFunc_def)
  then show ?thesis
    by (simp add: demo_http_def Http_New_def defaultConfig_def newFromConfig_def route_path_def TrimPrefix_def HasPrefix_def
        Let_def split: option.split)
qed

text \<open>
  The probes over HTTP: for any configuration whose routes can be registered and that has no
  middleware, a request for one of the three probe routes, neither verbose nor too slow, to a
  running reporter is answered with 200 if that probe was last set true and 503 otherwise, and the
  body is the cached JSON of the checks.
\<close>

theorem probe_answers:
  assumes "newFromConfig env ord now cfg = Some (r0, serve)" "cfg_Middleware cfg = []"
    and "h_running r \<noteq> 0" "h_hcCache r = Some ch" "c_sema ch = 0"
    and "query_values ''verbose'' rq = None" "\<not> rq_slow rq"
    and "(rq_path rq, probe) \<in> {(route_path (cfg_LivenessRoute cfg), h_live), (route_path (cfg_ReadinessRoute cfg), h_ready),
           (route_path (cfg_StartupRoute cfg), h_startup)}"
  shows "answer_code (fst (serve rq empty_response r)) = Some (if probe r = 0 then 503 else 200) \<and>
    answer_body (fst (serve rq empty_response r)) = (case c_data ch of None \<Rightarrow> NoBody | Some j \<Rightarrow> Json j) \<and>
    snd (serve rq empty_response r) = r"
proof -
  obtain mux where mux: "new_mux env ord now (route_path (cfg_LivenessRoute cfg)) (route_path (cfg_ReadinessRoute cfg))
      (route_path (cfg_StartupRoute cfg)) = Some mux"
    using newFromConfig_mux [OF assms(1)] .
  note routes = new_mux_routes [OF mux]
  have "(rq_path rq, report_probe probe ord) \<in> set mux"
    unfolding routes(2) using assms(8) by (auto simp: reportLiveness_def reportReadiness_def reportStartup_def)
  from mux_find_exact [OF routes(1) this]
  have find: "mux_find mux (rq_path rq) = Some (rq_path rq, report_probe probe ord)" .
  obtain a where a: "report_probe probe ord rq empty_response r = (Answer a, r)"
      "rs_code a = Some (if probe r = 0 then 503 else 200)"
      "rs_body a = (case c_data ch of None \<Rightarrow> NoBody | Some j \<Rightarrow> Json j)"
    using report_probe_answer [OF assms(3,6,4,5)] by metis
  then have "rs_code a \<noteq> None" by simp
  from plain_chain [OF assms(1,2) mux find a(1) assms(7) this] a show ?thesis by simp
qed

lemma demo_cfg: "newFromConfig demo_server id 0 defaultConfig = demo_http"
  by (simp add: demo_http_def Http_New_def)

definition demo_up :: HttpReporter where
  "demo_up = Http_SetLiveness CtxActive True (snd (Http_Run demo_server CtxActive (fst (the demo_http))))"

lemma demo_up_fields:
  "h_running demo_up = 1" "h_live demo_up = 1" "h_ready demo_up = 0" "h_hcCache demo_up = Some mkCache"
  "h_livePath demo_up = ''/livez'' \<and> h_readyPath demo_up = ''/readyz'' \<and> h_startupPath demo_up = ''/healthz''"
proof -
  obtain r serve where d: "demo_http = Some (r, serve)" using demo_http_Some by blast
  then have "h_running r = 0" "h_ready r = 0" "h_hcCache r = Some mkCache"
      "h_livePath r = ''/livez'' \<and> h_readyPath r = ''/readyz'' \<and> h_startupPath r = ''/healthz''"
    by (auto simp: demo_http_def Http_New_def newFromConfig_def Let_def defaultConfig_def route_path_def TrimPrefix_def
        HasPrefix_def split: option.splits)
  then show "h_running demo_up = 1" "h_live demo_up = 1" "h_ready demo_up = 0" "h_hcCache demo_up = Some mkCache"
    "h_livePath demo_up = ''/livez'' \<and> h_readyPath demo_up = ''/readyz'' \<and> h_startupPath demo_up = ''/healthz''"
    by (simp_all add: demo_up_def d Http_Run_def Http_SetLiveness_def demo_server_def Let_def)
qed

theorem probe_answers_witness:
  "answer_code (fst (snd (the demo_http) (get_path ''/livez'') empty_response demo_up)) = Some 200 \<and>
   answer_code (fst (snd (the demo_http) (get_path ''/readyz'') empty_response demo_up)) = Some 503"
proof -
  obtain r serve where d: "demo_http = Some (r, serve)" using demo_http_Some by blast
  have paths: "route_path (cfg_LivenessRoute (defaultConfig :: HttpReporter Config)) = ''/livez''" "route_path (cfg_ReadinessRoute (defaultConfig :: HttpReporter Config)) = ''/readyz''"
    by (simp_all add: defaultConfig_def route_path_def TrimPrefix_def HasPrefix_def)
  have ans: "answer_code (fst (serve (get_path path) empty_response demo_up)) = Some (if probe demo_up = 0 then 503 else 200)"
    if "(rq_path (get_path path), probe) \<in> {(route_path (cfg_LivenessRoute (defaultConfig :: HttpReporter Config)), h_live),
      (route_path (cfg_ReadinessRoute (defaultConfig :: HttpReporter Config)), h_ready), (route_path (cfg_StartupRoute (defaultConfig :: HttpReporter Config)), h_startup)}"
    for path probe
    using probe_answers [OF demo_cfg [unfolded d] _ _ demo_up_fields(4) _ _ _ that]
    by (simp add: defaultConfig_def demo_up_fields mkCache_def get_path_def query_values_def)
  have "answer_code (fst (serve (get_path ''/livez'') empty_response demo_up)) = Some 200"
    using ans [of "''/livez''" h_live] by (simp add: paths get_path_def demo_up_fields)
  moreover have "answer_code (fst (serve (get_path ''/readyz'') empty_response demo_up)) = Some 503"
    using ans [of "''/readyz''" h_ready] by (simp add: paths get_path_def demo_up_fields)
  ultimately show ?thesis by (simp add: d)
qed

text \<open>
  C31: a reporter that is not running answers 503 on every route it registers, whatever the request:
  on the three probe paths, on every path below one of them, and on the path of the manifest.
\<close>

theorem not_running_answers_503:
  assumes "newFromConfig env ord now cfg = Some (r0, serve)" "cfg_Middleware cfg = []" "h_running r = 0"
    and "rq_path rq = ''/.well-known/health'' \<or>
      (\<exists>route \<in> {cfg_LivenessRoute cfg, cfg_ReadinessRoute cfg, cfg_StartupRoute cfg}.
        rq_path rq = route_path route \<or> HasPrefix (rq_path rq) (route_path route @ ''/''))"
  shows "answer_code (fst (serve rq empty_response r)) = Some 503"
proof -
  obtain mux where mux: "new_mux env ord now (route_path (cfg_LivenessRoute cfg)) (route_path (cfg_ReadinessRoute cfg))
      (route_path (cfg_StartupRoute cfg)) = Some mux"
    using newFromConfig_mux [OF assms(1)] .
  note routes = new_mux_routes(2) [OF mux]
  obtain pat h where "(pat, h) \<in> set mux" "pattern_matches pat (rq_path rq)"
    unfolding routes using assms(4) by (fastforce simp: pattern_matches_def)
  then obtain pat h where find: "mux_find mux (rq_path rq) = Some (pat, h)" and "(pat, h) \<in> set mux"
    by (rule mux_find_Some)
  then have "h rq empty_response r = reportNotRunning rq empty_response r"
    unfolding routes using assms(3)
    by (auto simp: reportLiveness_def reportReadiness_def reportStartup_def report_probe_def reportManifest_def
        reportIndividualCheck_def)
  with find have "mux_ServeHTTP mux rq empty_response r = reportNotRunning rq empty_response r"
    by (simp add: mux_ServeHTTP_def)
  moreover have "serve = Recover (TimeoutHandler (mux_ServeHTTP mux) ''the request timed out'')"
    using assms(1,2) mux by (simp add: newFromConfig_def Let_def)
  ultimately show ?thesis
    by (simp add: Recover_def TimeoutHandler_def reportNotRunning_def writer_defs)
qed

theorem not_running_answers_503_witness:
  "answer_code (fst (snd (the demo_http) (get_path ''/livez/db'') empty_response (fst (the demo_http)))) = Some 503"
proof -
  obtain r serve where d: "demo_http = Some (r, serve)" using demo_http_Some by blast
  then have "h_running r = 0"
    by (auto simp: demo_http_def Http_New_def newFromConfig_def Let_def split: option.splits)
  moreover have "HasPrefix ''/livez/db'' (route_path (cfg_LivenessRoute defaultConfig) @ ''/'')" by code_simp
  ultimately show ?thesis
    using not_running_answers_503 [OF demo_cfg [unfolded d], of r "get_path ''/livez/db''"]
    by (simp add: d defaultConfig_def get_path_def)
qed

text \<open>
  C32: basic authentication guards everything behind it: when \<^verbatim>\<open>BasicAuth\<close> is the first middleware, a
  request without exactly the configured user and password is answered with 401 and reaches no
  other middleware and no handler; with them it is answered as if the guard were not there.
\<close>

theorem basic_auth_guards:
  assumes "newFromConfig env ord now cfg = Some (r0, serve)" "cfg_Middleware cfg = BasicAuth user pass # mws"
    and "newFromConfig env ord now (cfg\<lparr>cfg_Middleware := mws\<rparr>) = Some (r0', serve')"
  shows "if rq_auth rq = Some (user, pass) then serve rq empty_response r = serve' rq empty_response r
    else answer_code (fst (serve rq empty_response r)) = Some 401 \<and> snd (serve rq empty_response r) = r"
proof -
  obtain h where h: "serve = Recover (BasicAuth user pass h)" "serve' = Recover h"
    using assms by (auto simp: newFromConfig_def Let_def split: option.splits)
  show ?thesis
  proof (cases "rq_auth rq = Some (user, pass)")
    case True
    then show ?thesis
      by (simp add: h Recover_def BasicAuth_def ConstantTimeCompare_iff split: prod.splits)
  next
    case False
    then have "BasicAuth user pass h rq empty_response r =
        (Answer (http_Error ''Unauthorized'' StatusUnauthorized
           (Header_Set ''WWW-Authenticate'' (''Basic realm='' @ dquote @ ''health'' @ dquote) empty_response)), r)"
      by (auto simp: BasicAuth_def ConstantTimeCompare_iff bytes_inject split: option.splits)
    with False show ?thesis by (simp add: h Recover_def writer_defs)
  qed
qed

theorem basic_auth_guards_witness:
  "\<exists>r serve. newFromConfig demo_server id 0 (defaultConfig\<lparr>cfg_Middleware := [BasicAuth ''u'' ''p'']\<rparr>) = Some (r, serve) \<and>
     answer_code (fst (serve (get_path ''/livez'') empty_response demo_up)) = Some 401"
proof -
  obtain r' serve' where d: "newFromConfig demo_server id 0 defaultConfig = Some (r', serve')"
    using demo_http_Some demo_cfg by metis
  then obtain r serve where s: "newFromConfig demo_server id 0 (defaultConfig\<lparr>cfg_Middleware := [BasicAuth ''u'' ''p'']\<rparr>) = Some (r, serve)"
    by (auto simp: newFromConfig_def Let_def defaultConfig_def split: option.splits)
  have "(defaultConfig :: HttpReporter Config)\<lparr>cfg_Middleware := []\<rparr> = defaultConfig" by (simp add: defaultConfig_def)
  then show ?thesis
    using basic_auth_guards [OF s, of "''u''" "''p''" "[]" r' serve' "get_path ''/livez''" demo_up] d s
    by (simp add: get_path_def)
qed

end
