(* ===== verification/Reporter_Invariants.thy ===== *)
theory Reporter_Invariants
  imports Manager_Safety
begin

text \<open>
  Invariants of reporters under the manager: a property that every method of a reporter keeps holds
  of every registered reporter in every reachable state of the system, if it holds when the reporter
  is registered.  The locale \<open>reporter_invariant\<close> is interpreted for the invariants of the HTTP and
  the gRPC reporter.
\<close>

definition all_reporters :: "('r \<Rightarrow> bool) \<Rightarrow> ('c, 'r) Manager \<Rightarrow> bool" where
  "all_reporters P m \<longleftrightarrow> (\<forall>k r. Map_Get (reporters m) k = Some r \<longrightarrow> P r)"

lemma all_reporters_cong: "reporters m = reporters m' \<Longrightarrow> all_reporters P m = all_reporters P m'"
  by (simp add: all_reporters_def)

lemma all_reporters_core: "core m = core m' \<Longrightarrow> all_reporters P m = all_reporters P m'"
  by (rule all_reporters_cong) (auto dest: core_eqD)

lemma setup_event_ok: "list_all (is_setup fresh) es \<Longrightarrow> list_all (event_ok fresh) es"
  by (induction es) (auto elim: is_setup.elims)

locale reporter_invariant =
  fixes ops :: "'r Reporter_ops"
    and inv :: "'r \<Rightarrow> bool"
  assumes inv_Run: "inv r \<Longrightarrow> inv (snd (r_Run ops c r))"
    and inv_Stop: "inv r \<Longrightarrow> inv (snd (r_Stop ops c r))"
    and inv_SetLiveness: "inv r \<Longrightarrow> inv (r_SetLiveness ops c b r)"
    and inv_SetReadiness: "inv r \<Longrightarrow> inv (r_SetReadiness ops c b r)"
    and inv_SetStartup: "inv r \<Longrightarrow> inv (r_SetStartup ops c b r)"
    and inv_UpdateHealthChecks: "inv r \<Longrightarrow> inv (r_UpdateHealthChecks ops c m r)"
begin

lemmas inv_laws = inv_Run inv_Stop inv_SetLiveness inv_SetReadiness inv_SetStartup inv_UpdateHealthChecks

lemma inv_fitness: "all_reporters inv m \<Longrightarrow> all_reporters inv (fitness_result ops c m)"
  by (auto simp: all_reporters_def fitness_result_def Let_def inv_laws)

lemma inv_evaluateFitness:
  assumes "range_order ord" "all_reporters inv m" "mgr_inv m"
  shows "all_reporters inv (evaluateFitness ops ord c m)"
proof -
  have "core (evaluateFitness ops ord c m) = core (if gate_open m then fitness_result ops c m else m)"
    using assms by (simp add: evaluateFitness_core mgr_invD)
  from all_reporters_core [OF this] show ?thesis using assms(2) by (simp add: inv_fitness)
qed

lemma inv_processHealthCheck:
  assumes "range_order ord" "all_reporters inv m" "mgr_inv m"
  shows "all_reporters inv (processHealthCheck ops ord c hco m)"
proof (cases "hco = None \<or> ctx_done c")
  case True
  then show ?thesis
    using assms(2) by (auto simp: processHealthCheck_def all_reporters_def split: option.splits)
next
  case False
  then obtain hc where hc: "hco = Some hc" and nd: "\<not> ctx_done c" by auto
  have "reporters (processHealthCheck ops ord c hco m) =
      Map_update_values (r_UpdateHealthChecks ops c [(hc_Name hc, hc)]) (reporters m)"
    using core_eqD(8) [OF processHealthCheck_core [OF assms(1) mgr_invD(1) [OF assms(3)] nd, folded core_update]]
    by (simp add: hc)
  then show ?thesis using assms(2) by (auto simp: all_reporters_def inv_laws)
qed

lemma inv_loop_body:
  assumes "range_order ord" "all_reporters inv m" "mgr_inv m"
  shows "all_reporters inv (loop_body ops ord c hco m)"
  using assms by (simp add: loop_body_def inv_evaluateFitness inv_processHealthCheck)

lemma inv_Manager_Stop:
  assumes "range_order ord" "all_reporters inv m" "mgr_inv m"
  shows "all_reporters inv (snd (Manager_Stop ops ord c m))"
  using assms by (auto simp: Manager_Stop_eq mgr_invD Let_def all_reporters_def inv_laws)

lemma inv_initStartupState:
  assumes "range_order ord" "all_reporters inv m" "mgr_inv m"
  shows "all_reporters inv (initStartupState ops ord c m)"
  using assms by (auto simp: initStartupState_eq mgr_invD all_reporters_def inv_laws)

lemma inv_setLive:
  assumes "range_order ord" "all_reporters inv m" "mgr_inv m"
  shows "all_reporters inv (snd (setLive ops ord c b m))"
  using assms by (auto simp: setLive_eq mgr_invD all_reporters_def inv_laws)

lemma inv_Run_start:
  assumes "all_reporters inv m" "mgr_inv m"
  shows "all_reporters inv (snd (Run_start ops ord c m))"
proof -
  have upd: "all_reporters inv (m'\<lparr>reporters := rs\<rparr>)"
    if "\<And>k r'. Map_Get rs k = Some r' \<Longrightarrow>
        \<exists>r. Map_Get (reporters m) k = Some r \<and> (r' = r \<or> r' = snd (r_Run ops c r))" for m' :: "('c, 'r) Manager" and rs
    using that assms(1) by (fastforce simp: all_reporters_def inv_laws)
  show ?thesis
    using mgr_invD(5) [OF assms(2)]
  proof (cases rule: Run_start_cases [where ops = ops and ord = ord and c = c])
    case (failed err rs ch m1)
    have "all_reporters inv m1" unfolding failed(2) by (rule upd) (simp_all add: failed(8))
    with failed(3) show ?thesis by (simp add: all_reporters_def)
  qed (use assms(1) in \<open>simp_all add: upd\<close>)
qed

lemma inv_event:
  assumes s: "sys_inv s" and a: "all_reporters inv (s_mgr s)" and e: "event_ok fresh e" "\<And>r. fresh r \<Longrightarrow> inv r"
    and t: "sys_event ops chk e s = Some t"
  shows "all_reporters inv (s_mgr t)"
proof (cases e)
  case (EAddReporter n r)
  then show ?thesis using t e a by (auto split: if_splits simp: all_reporters_def AddReporter_def)
next
  case (ERun ord)
  have "s_mgr t = snd (Run_start ops ord (s_ctx s) (s_mgr s))"
    using t ERun by (auto split: if_splits prod.splits run_result.splits)
  with a sys_invD(1) [OF s] show ?thesis by (simp add: inv_Run_start)
next
  case (ERunStartup ord)
  with t e a sys_invD(1) [OF s] show ?thesis by (auto split: if_splits simp: inv_initStartupState)
next
  case (ERunLive ord)
  with t e a sys_invD(1) [OF s] show ?thesis by (auto split: if_splits simp: inv_setLive)
next
  case (EStop ord)
  with t e a sys_invD(1) [OF s] show ?thesis by (auto split: if_splits simp: inv_Manager_Stop)
next
  case (ELoopStop ord)
  with t e a sys_invD(1) [OF s] show ?thesis by (auto split: if_splits simp: inv_Manager_Stop)
next
  case (EGo i ev now)
  then obtain g where "go_step chk (s_ctx s) now ev (s_gs s ! i) (s_mgr s) = (g, s_mgr t)"
    using t by (auto split: if_splits prod.splits)
  then have "core (s_mgr t) = core (s_mgr s)" by (rule go_step_facts(1))
  with a show ?thesis using all_reporters_core by blast
next
  case (EHandoff i ord)
  with t e a sys_invD(1) [OF s] show ?thesis
    by (auto split: if_splits g_pc.splits option.splits simp: inv_loop_body)
next
  case (ERecv ord)
  then obtain ch hc hcs where r: "s_mgr t = loop_body ops ord (s_ctx s) hc ((s_mgr s)\<lparr>checkFunnel := Some (ch\<lparr>ch_buf := hcs\<rparr>)\<rparr>)"
    using t by (auto split: if_splits list.splits option.splits)
  have "all_reporters inv ((s_mgr s)\<lparr>checkFunnel := Some (ch\<lparr>ch_buf := hcs\<rparr>)\<rparr>)"
    using a by (simp add: all_reporters_def)
  then show ?thesis unfolding r using e ERecv sys_invD(1) [OF s] by (simp add: inv_loop_body)
qed (use t a in \<open>auto split: if_splits user_pc.splits option.splits list.splits g_pc.splits
      simp: all_reporters_def AddCheck_def Let_def\<close>)

lemma reach_reporters:
  assumes "reach ops chk fresh s" "\<And>r. fresh r \<Longrightarrow> inv r"
  shows "all_reporters inv (s_mgr s)"
  using assms(1)
proof induction
  case (init lg)
  show ?case by (simp add: all_reporters_def sys_init_def Manager_zero_def)
next
  case (step s e t)
  then have t: "sys_event ops chk e s = Some t" by (simp add: sys_do_def split: if_splits)
  show ?case
    by (rule inv_event [OF reach_inv [OF step.hyps(1)] step.IH step.hyps(2) assms(2) t])
qed

lemma history_reporter:
  assumes "list_all (event_ok fresh) es" "\<And>r. fresh r \<Longrightarrow> inv r"
    and "sys_run ops chk es (sys_init lg) = Some t" "Map_Get (reporters (s_mgr t)) k = Some r"
  shows "inv r"
  using reach_reporters [OF reach_run [OF reach.init assms(1,3)] assms(2)] assms(4)
  by (auto simp: all_reporters_def)

end

end
