(* ===== verification/Grpc_Reporter.thy ===== *)
theory Grpc_Reporter
  imports Reporter_Interface
begin

text \<open>
  \<^verbatim>\<open>reporter/grpc/reporter.go\<close>: the reporter that serves the gRPC health checking protocol.  The
  gRPC server and the listening socket are not part of the repository: the server is a value of an
  unknown type, and the environment says what creating it, registering a service on it, serving and
  stopping do to it.  The statuses are the constants of the protocol that the code uses.
\<close>

section \<open>The reporter\<close>

record 'g grpc_env =
  ge_NewServer :: 'g
  ge_Register :: "'g \<Rightarrow> 'g"
  ge_Listen :: "string \<Rightarrow> go_error option"
  ge_Serve :: "'g \<Rightarrow> go_error option \<times> 'g"
  ge_GracefulStop :: "'g \<Rightarrow> 'g"

record 'g GrpcReporter =
  gr_running :: uint32
  gr_live :: uint32
  gr_ready :: uint32
  gr_startup :: uint32
  gr_hcs :: "(string, CheckResult) gomap"
  gr_server :: 'g
  gr_addr :: string
  gr_logger :: Logger

record 'g GrpcConfig =
  gc_Server :: "'g option"
  gc_Addr :: string
  gc_Logger :: "Logger option"

definition Grpc_NewReporter :: "'g grpc_env \<Rightarrow> 'g GrpcConfig \<Rightarrow> 'g GrpcReporter" where
  "Grpc_NewReporter env cfg =
     (let logger = (case gc_Logger cfg of None \<Rightarrow> NoOpLogger | Some l \<Rightarrow> l);
          server = (case gc_Server cfg of Some s \<Rightarrow> s | None \<Rightarrow> ge_NewServer env)
      in \<lparr>gr_running = 0, gr_live = 0, gr_ready = 0, gr_startup = 0, gr_hcs = None,
          gr_server = ge_Register env server, gr_addr = gc_Addr cfg, gr_logger = logger\<rparr>)"

text \<open>
  \<^verbatim>\<open>Run\<close>.  The goroutine it starts calls \<^verbatim>\<open>Serve\<close>, which either serves or returns an error, which
  is logged.
\<close>

definition Grpc_Run :: "'g grpc_env \<Rightarrow> ctx \<Rightarrow> 'g GrpcReporter \<Rightarrow> go_error option \<times> 'g GrpcReporter" where
  "Grpc_Run env c r =
     (case CompareAndSwapUint32 (gr_running r) 0 1 of
        (_, False) \<Rightarrow> (Some (ErrorString ''health.reporter.grpc: already running''), r)
      | (cell, True) \<Rightarrow>
          let r1 = r\<lparr>gr_running := cell\<rparr>
          in case ge_Listen env (gr_addr r1) of
               Some err \<Rightarrow>
                 (Some (Errorf_w ''health.reporter.grpc: listen error: '' err), r1\<lparr>gr_running := 0\<rparr>)
             | None \<Rightarrow>
                 (case ge_Serve env (gr_server r1) of
                    (None, s) \<Rightarrow> (None, r1\<lparr>gr_server := s\<rparr>)
                  | (Some err, s) \<Rightarrow>
                      (None, r1\<lparr>gr_server := s, gr_logger := Logger_log LevelError ''gRPC server error''
                         [(''error'', LogError err)] (gr_logger r1)\<rparr>)))"

definition Grpc_Stop :: "'g grpc_env \<Rightarrow> ctx \<Rightarrow> 'g GrpcReporter \<Rightarrow> go_error option \<times> 'g GrpcReporter" where
  "Grpc_Stop env c r =
     (case CompareAndSwapUint32 (gr_running r) 1 0 of
        (_, False) \<Rightarrow> (None, r)
      | (cell, True) \<Rightarrow> (None, r\<lparr>gr_running := cell, gr_server := ge_GracefulStop env (gr_server r)\<rparr>))"

definition Grpc_SetLiveness :: "ctx \<Rightarrow> bool \<Rightarrow> 'g GrpcReporter \<Rightarrow> 'g GrpcReporter" where
  "Grpc_SetLiveness c b r = r\<lparr>gr_live := flag b\<rparr>"

definition Grpc_SetReadiness :: "ctx \<Rightarrow> bool \<Rightarrow> 'g GrpcReporter \<Rightarrow> 'g GrpcReporter" where
  "Grpc_SetReadiness c b r = r\<lparr>gr_ready := flag b\<rparr>"

definition Grpc_SetStartup :: "ctx \<Rightarrow> bool \<Rightarrow> 'g GrpcReporter \<Rightarrow> 'g GrpcReporter" where
  "Grpc_SetStartup c b r = r\<lparr>gr_startup := flag b\<rparr>"

text \<open>The entries of the argument come in the order of the loop over it.\<close>

definition Grpc_UpdateHealthChecks ::
    "ctx \<Rightarrow> (string \<times> CheckResult) list \<Rightarrow> 'g GrpcReporter \<Rightarrow> 'g GrpcReporter" where
  "Grpc_UpdateHealthChecks c m r = r\<lparr>gr_hcs := gomap_absorb m (gr_hcs r)\<rparr>"

section \<open>The health service\<close>

datatype ServingStatus = SERVING | NOT_SERVING | SERVICE_UNKNOWN

text \<open>
  \<^verbatim>\<open>Check\<close> for the service name of the request; \<^verbatim>\<open>Watch\<close> sends one response on the stream, which is
  a function from the response to the error of the send.
\<close>

definition Grpc_Check :: "string \<Rightarrow> 'g GrpcReporter \<Rightarrow> go_error + ServingStatus" where
  "Grpc_Check svc r =
     (if svc = [] then
        (if gr_live r = 0 \<or> gr_ready r = 0 then Inr NOT_SERVING else Inr SERVING)
      else case gomap_get (gr_hcs r) svc of
          None \<Rightarrow> Inr SERVICE_UNKNOWN
        | Some hc \<Rightarrow> if hc_Status hc = StatusUnhealthy then Inr NOT_SERVING else Inr SERVING)"

definition Grpc_List :: "string rorder \<Rightarrow> 'g GrpcReporter \<Rightarrow> go_error + (string, ServingStatus) gomap" where
  "Grpc_List ord r =
     Inr (fold (\<lambda>(name, hc) statuses.
            gomap_put name (if hc_Status hc = StatusUnhealthy then NOT_SERVING else SERVING) statuses)
          (range_entries ord (gomap_entries (gr_hcs r))) (Some []))"

definition Grpc_Watch :: "string \<Rightarrow> (ServingStatus \<Rightarrow> go_error option) \<Rightarrow> 'g GrpcReporter \<Rightarrow> go_error option" where
  "Grpc_Watch svc send r =
     (case Grpc_Check svc r of Inl err \<Rightarrow> Some err | Inr resp \<Rightarrow> send resp)"

definition Grpc_ops :: "'g grpc_env \<Rightarrow> 'g GrpcReporter Reporter_ops" where
  "Grpc_ops env = \<lparr>r_Run = Grpc_Run env, r_Stop = Grpc_Stop env, r_SetLiveness = Grpc_SetLiveness,
     r_SetReadiness = Grpc_SetReadiness, r_SetStartup = Grpc_SetStartup,
     r_UpdateHealthChecks = Grpc_UpdateHealthChecks\<rparr>"

definition Grpc_view :: "'g GrpcReporter \<Rightarrow> probes" where
  "Grpc_view r = \<lparr>p_live = (gr_live r = 1), p_ready = (gr_ready r = 1), p_startup = (gr_startup r = 1)\<rparr>"

text \<open>The flags of a reporter that was created and then only driven by its methods are 0 or 1.\<close>

definition grpc_flags :: "'g GrpcReporter \<Rightarrow> bool" where
  "grpc_flags r \<longleftrightarrow> gr_running r \<in> {0, 1} \<and> gr_live r \<in> {0, 1} \<and> gr_ready r \<in> {0, 1} \<and> gr_startup r \<in> {0, 1}"

section \<open>The reporter interface\<close>

lemma Grpc_ops_simps [simp]:
  "r_Run (Grpc_ops env) = Grpc_Run env" "r_Stop (Grpc_ops env) = Grpc_Stop env"
  "r_SetLiveness (Grpc_ops env) = Grpc_SetLiveness" "r_SetReadiness (Grpc_ops env) = Grpc_SetReadiness"
  "r_SetStartup (Grpc_ops env) = Grpc_SetStartup" "r_UpdateHealthChecks (Grpc_ops env) = Grpc_UpdateHealthChecks"
  by (simp_all add: Grpc_ops_def)

lemmas Grpc_method_defs = Grpc_Run_def Grpc_Stop_def Grpc_SetLiveness_def Grpc_SetReadiness_def
  Grpc_SetStartup_def Grpc_UpdateHealthChecks_def

interpretation grpc_rep: reporter_store "Grpc_ops env" Grpc_view
    "\<lambda>r. gomap_get (gr_hcs r)" "\<lambda>_. True" for env
  by unfold_locales
    (auto simp: Grpc_method_defs Grpc_view_def gomap_absorb_single gomap_get_put CompareAndSwapUint32_def
      Let_def split: option.splits prod.splits)

lemma grpc_flags_kept:
  assumes "grpc_flags r"
  shows "grpc_flags (snd (Grpc_Run env c r))" "grpc_flags (snd (Grpc_Stop env c r))"
    "grpc_flags (Grpc_SetLiveness c b r)" "grpc_flags (Grpc_SetReadiness c b r)"
    "grpc_flags (Grpc_SetStartup c b r)" "grpc_flags (Grpc_UpdateHealthChecks c m r)"
  using assms
  by (auto simp: grpc_flags_def Grpc_method_defs CompareAndSwapUint32_def Let_def flag_def
      split: option.splits prod.splits)

lemma grpc_flags_new: "grpc_flags (Grpc_NewReporter env cfg)"
  by (simp add: grpc_flags_def Grpc_NewReporter_def Let_def)

section \<open>Answers\<close>

lemma fold_put_map_of:
  "gomap_get (fold (\<lambda>(k, v) m. gomap_put k (f v) m) es m) =
     gomap_get m ++ (\<lambda>k. map_option f (map_of (rev es) k))"
proof (induction es arbitrary: m)
  case (Cons p es)
  obtain k v where "p = (k, v)" by (cases p)
  with Cons show ?case by (auto simp: gomap_get_put map_add_def fun_eq_iff split: option.splits)
qed simp

lemma Grpc_List_get:
  assumes "range_order ord" "gomap_wf (gr_hcs r)"
  shows "\<exists>m. Grpc_List ord r = Inr m \<and> gomap_get m = (\<lambda>k. map_option
    (\<lambda>hc. if hc_Status hc = StatusUnhealthy then NOT_SERVING else SERVING) (gomap_get (gr_hcs r) k))"
proof -
  have e: "gomap_get (Some []) = Map.empty" by (rule ext) (simp add: gomap_get_def gomap_entries_def)
  have "map_of (rev (range_entries ord (gomap_entries (gr_hcs r)))) = gomap_get (gr_hcs r)"
    using assms by (auto simp: gomap_wf_def map_of_range_entries gomap_get_def fun_eq_iff)
  then show ?thesis by (simp add: Grpc_List_def fold_put_map_of e)
qed

text \<open>A server of which only one thing matters here: whether it was stopped.\<close>

definition demo_grpc :: "bool grpc_env" where
  "demo_grpc = \<lparr>ge_NewServer = False, ge_Register = id, ge_Listen = (\<lambda>_. None),
     ge_Serve = (\<lambda>stopped. (if stopped then Some (ErrorString ''grpc: the server has been stopped'') else None, stopped)),
     ge_GracefulStop = (\<lambda>_. True)\<rparr>"

definition demo_grpc_cfg :: "bool GrpcConfig" where
  "demo_grpc_cfg = \<lparr>gc_Server = None, gc_Addr = '':8182'', gc_Logger = Some DefaultLogger\<rparr>"

definition demo_grpc_rep :: "bool GrpcReporter" where
  "demo_grpc_rep = Grpc_UpdateHealthChecks CtxActive [(''db'', CheckResult_zero\<lparr>hc_Status := StatusUnhealthy\<rparr>)]
     (Grpc_SetReadiness CtxActive True (Grpc_SetLiveness CtxActive True
       (snd (Grpc_Run demo_grpc CtxActive (Grpc_NewReporter demo_grpc demo_grpc_cfg)))))"

lemmas demo_grpc_defs = demo_grpc_rep_def demo_grpc_cfg_def demo_grpc_def Grpc_NewReporter_def Grpc_method_defs



text \<open>
  C39: a gRPC reporter cannot be restarted: a server that was stopped for good refuses to serve, and
  the second \<^verbatim>\<open>Run\<close> still returns nil and marks the reporter as running; all there is to see is a
  record in the log.
\<close>

theorem grpc_restart_unnoticed:
  assumes "\<And>s. fst (ge_Serve env (ge_GracefulStop env s)) \<noteq> None"
    and "ge_Listen env (gr_addr r) = None" "gr_running r = 1"
  shows "\<exists>e r'. Grpc_Run env c' (snd (Grpc_Stop env c r)) = (None, r') \<and> gr_running r' = 1 \<and>
    fst (ge_Serve env (ge_GracefulStop env (gr_server r))) = Some e \<and>
    gr_logger r' = Logger_log LevelError ''gRPC server error'' [(''error'', LogError e)] (gr_logger r)"
  using assms(1) [of "gr_server r"] assms(2,3)
  by (auto simp: Grpc_Run_def Grpc_Stop_def Let_def split: prod.splits)

theorem grpc_restart_unnoticed_witness:
  "\<exists>e r'. Grpc_Run demo_grpc CtxActive (snd (Grpc_Stop demo_grpc CtxActive demo_grpc_rep)) = (None, r') \<and>
    gr_running r' = 1 \<and> fst (ge_Serve demo_grpc (ge_GracefulStop demo_grpc (gr_server demo_grpc_rep))) = Some e \<and>
    gr_logger r' = Logger_log LevelError ''gRPC server error'' [(''error'', LogError e)] (gr_logger demo_grpc_rep)"
  by (rule grpc_restart_unnoticed) (simp_all add: demo_grpc_defs Let_def)

end
