(* ===== verification/Http_System.thy ===== *)
theory Http_System
  imports Http_Properties Reporter_Invariants Grpc_Reporter Manager_Properties
begin

text \<open>
  The components together: the manager and its goroutines drive HTTP and gRPC reporters, clients probe
  them, and the discovery client of another service fetches the manifest.  What a client sees is
  what the manager holds.  The invariants of the reporters that this rests on are interpretations of
  \<open>reporter_invariant\<close>.
\<close>

section \<open>The invariant of the HTTP reporter\<close>

text \<open>A map's JSON does not depend on the order of its entries.\<close>

lemma json_map_perm:
  assumes "distinct (map fst xs)" "set ys = set xs" "distinct (map fst ys)"
  shows "json_map f ys = json_map f xs"
proof -
  have "mset ys = mset xs" using assms by (simp add: set_eq_iff_mset_eq_distinct distinct_map)
  moreover have "inj_on fst (set ys)" using assms by (simp add: distinct_map)
  ultimately have "sort_key fst ys = sort_key fst xs"
    by (intro sort_key_inj_key_eq) simp_all
  then show ?thesis by (simp add: json_map_def)
qed

lemma insort_map_values:
  "insort_key fst (k, f v) (map (\<lambda>(k, v). (k, f v)) es) = map (\<lambda>(k, v). (k, f v)) (insort_key fst (k, v) es)"
  by (induction es) auto

lemma sort_map_values:
  "sort_key fst (map (\<lambda>(k, v). (k, f v)) es) = map (\<lambda>(k, v). (k, f v)) (sort_key fst es)"
  by (induction es) (auto simp: insort_map_values)

lemma json_map_values: "json_map id (map (\<lambda>(k, v). (k, f v)) es) = json_map f es"
  by (simp add: json_map_def sort_map_values split_beta comp_def)

lemma fold_update_map:
  "distinct (map fst es) \<Longrightarrow> fst ` set es \<inter> fst ` set d = {} \<Longrightarrow>
   fold (\<lambda>(k, v) d. AList.update k (f v) d) es d = d @ map (\<lambda>(k, v). (k, f v)) es"
proof (induction es arbitrary: d)
  case (Cons e es)
  obtain k v where e: "e = (k, v)" by (cases e)
  have "AList.update k w d = d @ [(k, w)]" if "k \<notin> fst ` set d" for w
    using that by (induction d) auto
  with Cons e show ?case by (auto simp: image_iff)
qed simp

text \<open>The flags are 0 or 1, the stored checks form a map, and the cache is free and holds their JSON.\<close>

definition http_inv :: "server_env \<Rightarrow> HttpReporter \<Rightarrow> bool" where
  "http_inv env r \<longleftrightarrow> h_live r \<in> {0, 1} \<and> h_ready r \<in> {0, 1} \<and> h_startup r \<in> {0, 1} \<and> gomap_wf (h_hcs r) \<and>
     h_hcCache r = Some \<lparr>c_sema = 0, c_data = map_option (json_map (checkJSON env)) (h_hcs r)\<rparr>"

lemma cacheHealthChecks_inv:
  assumes "range_order ord" "gomap_wf (h_hcs r)" "h_hcs r = Some hcs" "h_hcCache r = Some ch" "c_sema ch = 0"
  shows "h_hcCache (cacheHealthChecks env ord r) = Some \<lparr>c_sema = 0, c_data = Some (json_map (checkJSON env) hcs)\<rparr>"
proof -
  let ?es = "range_entries ord hcs"
  have d: "distinct (map fst hcs)" using assms(2,3) by (simp add: gomap_wf_def gomap_entries_def)
  have e: "distinct (map fst ?es)" "set ?es = set hcs"
    using assms(1) d by (simp_all add: range_entries_distinct range_entries_set)
  have "json_map id (map (\<lambda>(k, v). (k, checkJSON env v)) ?es) = json_map (checkJSON env) ?es"
    by (rule json_map_values)
  also have "\<dots> = json_map (checkJSON env) hcs" using d e by (intro json_map_perm) simp_all
  finally have j: "json_map id (fold (\<lambda>(k, hc) pl. AList.update k (checkJSON env hc) pl) ?es []) = json_map (checkJSON env) hcs"
    using fold_update_map [of ?es "[]" "checkJSON env"] e(1) by simp
  show ?thesis
    using assms(5) unfolding cacheHealthChecks_def assms(3,4)
    by (simp add: Let_def j gomap_entries_def cache_write_def cache_lock_def cache_unlock_def)
qed

interpretation http_invariant: reporter_invariant "HttpReporter_ops env ord" "\<lambda>r. range_order ord \<and> http_inv env r" for env ord
proof unfold_locales
  fix r c m
  assume r: "range_order ord \<and> http_inv env r"
  show "range_order ord \<and> http_inv env (snd (r_Run (HttpReporter_ops env ord) c r))"
    using r by (auto simp: http_inv_def Http_Run_def CompareAndSwapUint32_def Let_def split: option.splits)
  show "range_order ord \<and> http_inv env (r_UpdateHealthChecks (HttpReporter_ops env ord) c m r)"
  proof (cases "h_running r = 0")
    case False
    let ?r = "r\<lparr>h_hcs := gomap_absorb m (h_hcs r)\<rparr>"
    obtain hcs where h: "gomap_absorb m (h_hcs r) = Some hcs" by (simp add: gomap_absorb_def)
    have w: "gomap_wf (gomap_absorb m (h_hcs r))" using r by (simp add: http_inv_def)
    have "h_hcCache (cacheHealthChecks env ord ?r) = Some \<lparr>c_sema = 0, c_data = Some (json_map (checkJSON env) hcs)\<rparr>"
      using r w h by (intro cacheHealthChecks_inv) (auto simp: http_inv_def)
    then show ?thesis using r w h False by (simp add: http_inv_def Http_UpdateHealthChecks_def)
  qed (use r in \<open>simp add: Http_UpdateHealthChecks_def\<close>)
qed (auto simp: http_inv_def Http_method_defs flag_def)

interpretation grpc_invariant: reporter_invariant "Grpc_ops env" "\<lambda>r. grpc_flags r \<and> gomap_wf (gr_hcs r)" for env
  by unfold_locales (auto simp: grpc_flags_kept,
    auto simp: Grpc_method_defs CompareAndSwapUint32_def Let_def split: option.splits prod.splits)

lemma newFromConfig_fresh:
  assumes "newFromConfig env ord now cfg = Some (r0, serve)"
  shows "http_inv env r0" "HttpReporter_view r0 = probes_down" "h_running r0 = 0"
  using assms
  by (auto simp: newFromConfig_def Let_def http_inv_def mkCache_def HttpReporter_view_def probes_down_def split: option.splits)

lemma Grpc_fresh:
  "gomap_wf (gr_hcs (Grpc_NewReporter env cfg))" "Grpc_view (Grpc_NewReporter env cfg) = probes_down"
  by (simp_all add: Grpc_NewReporter_def Let_def Grpc_view_def probes_down_def)

section \<open>A run\<close>

text \<open>One healthy check with readiness impact, one HTTP reporter, and a run until the check is reported.\<close>

definition http_zero :: HttpReporter where
  "http_zero = \<lparr>h_running = 0, h_live = 0, h_ready = 0, h_startup = 0, h_hcCache = Some mkCache, h_hcs = None,
     h_server = \<lparr>sv_Addr = ''0.0.0.0:8181'', sv_serving = False, sv_closed = False\<rparr>, h_logger = NoOpLogger,
     h_serviceName = [], h_serviceVer = [], h_livePath = ''/livez'', h_readyPath = ''/readyz'', h_startupPath = ''/healthz''\<rparr>"

definition http_setup :: "(check_outcome, HttpReporter) event list" where
  "http_setup = [EAddCheck ''db'' (Returned (Some CheckResult_zero)) [WithReadinessImpact],
     EAddReporter ''http'' http_zero]"

definition until_reported :: "(check_outcome, 'r) event list" where
  "until_reported = [ERun id, ERunStartup id, ERunLive id, EGo 0 GProceed 0, EGo 0 GProceed 0, ESend 0, ERecv id]"

definition http_final :: "(check_outcome, HttpReporter) sys option" where
  "http_final = sys_run (HttpReporter_ops demo_server id) fixed_check (http_setup @ until_reported) (sys_init None)"

definition grpc_final :: "(check_outcome, bool GrpcReporter) sys option" where
  "grpc_final = sys_run (Grpc_ops demo_grpc) fixed_check
     ([EAddCheck ''db'' (Returned (Some CheckResult_zero)) [WithReadinessImpact],
       EAddReporter ''grpc'' (Grpc_NewReporter demo_grpc demo_grpc_cfg)] @ until_reported) (sys_init None)"

lemma http_run:
  obtains t r where "http_final = Some t" "Map_Get (reporters (s_mgr t)) ''http'' = Some r" "h_running r = 1"
    "isLive (s_mgr t)" "isReady (s_mgr t)"
proof -
  have "(case http_final of None \<Rightarrow> False
      | Some t \<Rightarrow> (case Map_Get (reporters (s_mgr t)) ''http'' of None \<Rightarrow> False
          | Some r \<Rightarrow> h_running r = 1 \<and> isLive (s_mgr t) \<and> isReady (s_mgr t))) = True"
    by code_simp
  then show ?thesis using that by (auto split: option.splits)
qed

lemma grpc_run:
  obtains t r where "grpc_final = Some t" "Map_Get (reporters (s_mgr t)) ''grpc'' = Some r"
    "isLive (s_mgr t)" "isReady (s_mgr t)"
proof -
  have "(case grpc_final of None \<Rightarrow> False
      | Some t \<Rightarrow> (case Map_Get (reporters (s_mgr t)) ''grpc'' of None \<Rightarrow> False
          | Some r \<Rightarrow> isLive (s_mgr t) \<and> isReady (s_mgr t))) = True"
    by code_simp
  then show ?thesis using that by (auto split: option.splits)
qed

lemma http_run_ok:
  "list_all (is_setup (\<lambda>r. r = http_zero)) http_setup"
  "list_all (event_ok fresh) until_reported" "list_all (\<lambda>e. \<not> is_AddReporter e) until_reported"
  by (simp_all add: http_setup_def until_reported_def)

lemma demo_new: "newFromConfig demo_server id 0 defaultConfig = Some (http_zero, snd (the demo_http))"
proof -
  obtain r serve where d: "demo_http = Some (r, serve)" using demo_http_Some by blast
  have "digit_char 8 = CHR ''8''" "digit_char 1 = CHR ''1''" by code_simp+
  then have p: "Itoa 8181 = ''8181''" by (simp add: Itoa_def nat_decimal.simps)
  have "r = http_zero"
    using d p
    by (auto simp: demo_http_def Http_New_def newFromConfig_def Let_def defaultConfig_def route_path_def TrimPrefix_def
        HasPrefix_def http_zero_def split: option.splits)
  then show ?thesis unfolding demo_cfg d by simp
qed

section \<open>What clients see\<close>

text \<open>
  The three probe routes of a configuration with the probe of the manager each of them stands for.
\<close>

definition probe_routes :: "HttpReporter Config \<Rightarrow> (string \<times> (probes \<Rightarrow> bool)) list" where
  "probe_routes cfg = [(route_path (cfg_LivenessRoute cfg), p_live), (route_path (cfg_ReadinessRoute cfg), p_ready),
     (route_path (cfg_StartupRoute cfg), p_startup)]"

lemma http_probe_of_view:
  assumes new: "newFromConfig env ord now cfg = Some (r0, serve)" "cfg_Middleware cfg = []"
    and r: "http_inv env r" "h_running r \<noteq> 0"
    and rq: "query_values ''verbose'' rq = None" "\<not> rq_slow rq" "(rq_path rq, p) \<in> set (probe_routes cfg)"
  shows "answer_code (fst (serve rq empty_response r)) = Some (if p (HttpReporter_view r) then 200 else 503) \<and>
    answer_body (fst (serve rq empty_response r)) =
      (case h_hcs r of None \<Rightarrow> NoBody | Some hcs \<Rightarrow> Json (json_map (checkJSON env) hcs))"
proof -
  obtain mux where mux: "new_mux env ord now (route_path (cfg_LivenessRoute cfg)) (route_path (cfg_ReadinessRoute cfg))
      (route_path (cfg_StartupRoute cfg)) = Some mux"
    using newFromConfig_mux [OF new(1)] .
  note routes = new_mux_routes [OF mux]
  obtain probe where probe: "(rq_path rq, report_probe probe ord) \<in> set mux" "probe r = 0 \<longleftrightarrow> \<not> p (HttpReporter_view r)"
  proof -
    have "(rq_path rq, report_probe h_live ord) \<in> set mux \<and> p = p_live \<or>
        (rq_path rq, report_probe h_ready ord) \<in> set mux \<and> p = p_ready \<or>
        (rq_path rq, report_probe h_startup ord) \<in> set mux \<and> p = p_startup"
      unfolding routes(2) using rq(3)
      by (auto simp: probe_routes_def reportLiveness_def reportReadiness_def reportStartup_def)
    moreover have "h_live r = 0 \<longleftrightarrow> \<not> p_live (HttpReporter_view r)" "h_ready r = 0 \<longleftrightarrow> \<not> p_ready (HttpReporter_view r)"
        "h_startup r = 0 \<longleftrightarrow> \<not> p_startup (HttpReporter_view r)"
      using r(1) by (auto simp: http_inv_def HttpReporter_view_def)
    ultimately show ?thesis using that by blast
  qed
  let ?ch = "\<lparr>c_sema = 0, c_data = map_option (json_map (checkJSON env)) (h_hcs r)\<rparr>"
  have ch: "h_hcCache r = Some ?ch" "c_sema ?ch = 0" using r(1) by (simp_all add: http_inv_def)
  obtain a where a: "report_probe probe ord rq empty_response r = (Answer a, r)"
      "rs_code a = Some (if probe r = 0 then 503 else 200)"
      "rs_body a = (case c_data ?ch of None \<Rightarrow> NoBody | Some j \<Rightarrow> Json j)"
    using report_probe_answer [OF r(2) rq(1) ch] by metis
  then have "rs_code a \<noteq> None" by simp
  from plain_chain [OF new mux mux_find_exact [OF routes(1) probe(1)] a(1) rq(2) this] a probe(2) show ?thesis
    by (cases "h_hcs r") simp_all
qed

lemma http_history:
  assumes "newFromConfig env ord now cfg = Some (r0, serve)" "range_order ord"
    and "list_all (is_setup (\<lambda>r. r = r0)) setup" "list_all (event_ok (\<lambda>r. r = r0)) es" "list_all (\<lambda>e. \<not> is_AddReporter e) es"
    and "sys_run (HttpReporter_ops env ord) chk (setup @ es) (sys_init lg) = Some t"
    and "Map_Get (reporters (s_mgr t)) k = Some r"
  shows "http_inv env r" "HttpReporter_view r = mgr_probes (s_mgr t)"
proof -
  note new = newFromConfig_fresh [OF assms(1)]
  have ok: "list_all (event_ok (\<lambda>r. r = r0)) (setup @ es)"
    using assms(4) setup_event_ok [OF assms(3)] by simp
  show "http_inv env r"
    using http_invariant.history_reporter [OF ok _ assms(6,7)] new(1) assms(2) by blast
  have "synced HttpReporter_view (s_mgr t)"
    using reporter.synced_history [OF http_rep.reporter_axioms _ assms(3-6)] new(2) by blast
  then show "HttpReporter_view r = mgr_probes (s_mgr t)" using assms(7) by (simp add: synced_def)
qed



text \<open>
  A service that answers the discovery client of another with its own handler: the request carries
  the well-known path, and the body is decoded as a manifest.
\<close>

fun decode_body :: "body \<Rightarrow> go_error + Manifest" where
  "decode_body (Json j) = Manifest_decode j"
| "decode_body _ = Inl (ErrorString ''invalid character'')"

definition served_env :: "HttpReporter handler \<Rightarrow> (unit, body, HttpReporter) http_env" where
  "served_env serve = \<lparr>he_NewRequest = (\<lambda>_. None),
     he_Do = (\<lambda>cl c d url r.
       let (a, r') = serve (get_path WellKnownPath) empty_response r
       in case answer_code a of
            None \<Rightarrow> (Inl (Sentinel EOF), r')
          | Some code \<Rightarrow> (Inr (code, answer_body a), r')),
     he_Decode = decode_body\<rparr>"

lemma served_answer:
  assumes "newFromConfig env ord now cfg = Some (r0, serve)" "cfg_Middleware cfg = []" "h_running r \<noteq> 0"
  shows "answer_code (fst (serve (get_path WellKnownPath) empty_response r)) = Some 200 \<and>
    answer_body (fst (serve (get_path WellKnownPath) empty_response r)) = Json (Manifest_json (manifest env ord now r)) \<and>
    snd (serve (get_path WellKnownPath) empty_response r) = r"
proof -
  obtain mux where mux: "new_mux env ord now (route_path (cfg_LivenessRoute cfg)) (route_path (cfg_ReadinessRoute cfg))
      (route_path (cfg_StartupRoute cfg)) = Some mux"
    using newFromConfig_mux [OF assms(1)] .
  note routes = new_mux_routes [OF mux]
  have "(rq_path (get_path WellKnownPath), reportManifest env ord now) \<in> set mux"
    unfolding routes(2) by (simp add: get_path_def WellKnownPath_def)
  note find = mux_find_exact [OF routes(1) this]
  obtain a where a: "reportManifest env ord now (get_path WellKnownPath) empty_response r = (Answer a, r)"
      "rs_code a = Some 200" "rs_body a = Json (Manifest_json (manifest env ord now r))"
    using assms(3) by (simp add: reportManifest_def writer_defs)
  have "\<not> rq_slow (get_path WellKnownPath)" "rs_code a \<noteq> None" by (simp_all add: get_path_def a)
  from plain_chain [OF assms(1,2) mux find a(1) this] a show ?thesis by simp
qed



text \<open>
  The overall status of the gRPC health service is the manager's: after any history, a gRPC reporter
  answers the empty service name with \<^verbatim>\<open>SERVING\<close> exactly if the manager is live and ready.
\<close>

theorem grpc_status_follows_manager:
  assumes "list_all (is_setup (\<lambda>r. r = Grpc_NewReporter env cfg)) setup"
    and "list_all (event_ok (\<lambda>r. r = Grpc_NewReporter env cfg)) es" "list_all (\<lambda>e. \<not> is_AddReporter e) es"
    and "sys_run (Grpc_ops env) chk (setup @ es) (sys_init lg) = Some t"
    and "Map_Get (reporters (s_mgr t)) k = Some r"
  shows "Grpc_Check [] r = Inr (if isLive (s_mgr t) \<and> isReady (s_mgr t) then SERVING else NOT_SERVING)"
proof -
  let ?f = "\<lambda>r. r = Grpc_NewReporter env cfg"
  have ok: "list_all (event_ok ?f) (setup @ es)" using assms(2) setup_event_ok [OF assms(1)] by simp
  have f: "grpc_flags r"
    using grpc_invariant.history_reporter [OF ok _ assms(4,5)] by (simp add: grpc_flags_new Grpc_fresh)
  have "synced Grpc_view (s_mgr t)"
    using reporter.synced_history [OF grpc_rep.reporter_axioms _ assms(1-4)] Grpc_fresh(2) by blast
  then have "Grpc_view r = mgr_probes (s_mgr t)" using assms(5) by (simp add: synced_def)
  then have "gr_live r = 1 \<longleftrightarrow> isLive (s_mgr t)" "gr_ready r = 1 \<longleftrightarrow> isReady (s_mgr t)"
    by (simp_all add: Grpc_view_def mgr_probes_def)
  with f show ?thesis by (auto simp: Grpc_Check_def grpc_flags_def)
qed

theorem grpc_status_follows_manager_witness:
  "\<exists>t r. grpc_final = Some t \<and> Map_Get (reporters (s_mgr t)) ''grpc'' = Some r \<and> Grpc_Check [] r = Inr SERVING"
proof -
  obtain t r where t: "grpc_final = Some t" "Map_Get (reporters (s_mgr t)) ''grpc'' = Some r"
      "isLive (s_mgr t)" "isReady (s_mgr t)"
    by (rule grpc_run)
  have ok: "list_all (is_setup (\<lambda>r. r = Grpc_NewReporter demo_grpc demo_grpc_cfg))
      [EAddCheck ''db'' (Returned (Some CheckResult_zero)) [WithReadinessImpact],
       EAddReporter ''grpc'' (Grpc_NewReporter demo_grpc demo_grpc_cfg)]"
    by simp
  from grpc_status_follows_manager [OF ok http_run_ok(2,3) t(1) [unfolded grpc_final_def] t(2)] t
  have "Grpc_Check [] r = Inr SERVING" by simp
  with t show ?thesis by blast
qed

end
