(* ===== verification/Http_Endpoints.thy ===== *)
theory Http_Endpoints
  imports Http_System
begin

text \<open>
  The endpoints of the HTTP reporter about single checks: \<^verbatim>\<open>/livez/<name>\<close> and the verbose form of the
  probe routes with its \<^verbatim>\<open>exclude\<close> parameter.
\<close>

section \<open>The verbose listing\<close>

definition listed :: "string list \<Rightarrow> (string \<times> CheckResult) list \<Rightarrow> (string \<times> CheckResult) list" where
  "listed excludes es = filter (\<lambda>(name, hc). name \<notin> set excludes) es"

lemma verbose_fold:
  "fold (\<lambda>(name, hc) (allOK, buf).
      if name \<in> set excludes then (allOK, buf)
      else if hc_Status hc = StatusUnhealthy then (False, buf @ check_line name hc)
      else (allOK, buf @ check_line name hc)) es (ok, b) =
   (ok \<and> (\<forall>(name, hc) \<in> set (listed excludes es). hc_Status hc \<noteq> StatusUnhealthy),
    b @ concat (map (\<lambda>(name, hc). check_line name hc) (listed excludes es)))"
  by (induction es arbitrary: ok b) (auto simp: listed_def)

lemma reportVerbose_answer:
  "\<exists>a. reportVerbose ord rq empty_response r = (Answer a, r) \<and>
     rs_code a = Some (if \<forall>(name, hc) \<in> set (listed (case query_values ''exclude'' rq of None \<Rightarrow> [] | Some ns \<Rightarrow> ns)
         (range_entries ord (gomap_entries (h_hcs r)))). hc_Status hc \<noteq> StatusUnhealthy then 200 else 503) \<and>
     rs_body a = Text (concat (map (\<lambda>(name, hc). check_line name hc)
       (listed (case query_values ''exclude'' rq of None \<Rightarrow> [] | Some ns \<Rightarrow> ns) (range_entries ord (gomap_entries (h_hcs r))))))"
  unfolding reportVerbose_def Let_def verbose_fold by (simp add: writer_defs)

section \<open>Routes of single checks\<close>

lemma mux_find_check:
  assumes "new_mux env ord now ''/livez'' ''/readyz'' ''/healthz'' = Some mux" "name \<noteq> []"
    and "p \<in> {''/livez'', ''/readyz'', ''/healthz''}"
  shows "mux_find mux (p @ ''/'' @ name) = Some (p @ ''/'', reportIndividualCheck)"
proof -
  consider "p = ''/livez''" | "p = ''/readyz''" | "p = ''/healthz''" using assms(3) by blast
  then show ?thesis
    unfolding new_mux_routes(2) [OF assms(1)] using assms(2)
    by cases (simp_all add: pattern_matches_def HasPrefix_def)
qed

lemma check_name_default:
  "p \<in> {''/livez'', ''/readyz'', ''/healthz''} \<Longrightarrow>
   check_name [''/livez'', ''/readyz'', ''/healthz''] (p @ ''/'' @ name) = name"
  by (auto simp: TrimPrefix_def HasPrefix_def Let_def)

lemma individual_answer:
  assumes "h_running r \<noteq> 0" "check_name [h_livePath r, h_readyPath r, h_startupPath r] (rq_path rq) = name" "name \<noteq> []"
  shows "\<exists>a. reportIndividualCheck rq empty_response r = (Answer a, r) \<and>
    rs_code a = Some (case gomap_get (h_hcs r) name of None \<Rightarrow> 404
      | Some hc \<Rightarrow> if hc_Status hc = StatusUnhealthy then 503 else 200)"
proof (cases "gomap_get (h_hcs r) name")
  case None
  then show ?thesis
    unfolding reportIndividualCheck_def Let_def assms(2) using assms(1,3) by (simp add: writer_defs)
next
  case (Some hc)
  then show ?thesis
    unfolding reportIndividualCheck_def Let_def assms(2) using assms(1,3) by (simp add: writer_defs)
qed

lemma map_of_eqI:
  assumes "distinct (map fst es)" "\<And>k v. (k, v) \<in> set es \<longleftrightarrow> f k = Some v"
  shows "map_of es = f"
proof
  fix k
  show "map_of es k = f k"
    using assms by (metis map_of_SomeD map_of_is_SomeI not_Some_eq)
qed


definition http_sick :: HttpReporter where
  "http_sick = Http_UpdateHealthChecks demo_server id CtxActive [(''db'', sick)] (snd (Http_Run demo_server CtxActive http_zero))"

lemma http_sick_fields:
  "http_inv demo_server http_sick" "h_running http_sick = 1" "gomap_get (h_hcs http_sick) = [''db'' \<mapsto> sick]"
  "h_livePath http_sick = ''/livez''" "h_readyPath http_sick = ''/readyz''" "h_startupPath http_sick = ''/healthz''"
proof -
  let ?up = "snd (Http_Run demo_server CtxActive http_zero)"
  have "http_inv demo_server http_zero" by (rule newFromConfig_fresh(1) [OF demo_new])
  then show "http_inv demo_server http_sick"
    using http_invariant.inv_Run [of id demo_server http_zero CtxActive]
      http_invariant.inv_UpdateHealthChecks [of id demo_server ?up CtxActive "[(''db'', sick)]"]
    by (simp add: http_sick_def)
  have up: "h_running ?up = 1" "h_hcs ?up = None" "h_livePath ?up = ''/livez''" "h_readyPath ?up = ''/readyz''" "h_startupPath ?up = ''/healthz''"
    by (simp_all add: Http_Run_def http_zero_def demo_server_def Let_def)
  then show "h_running http_sick = 1" "gomap_get (h_hcs http_sick) = [''db'' \<mapsto> sick]"
    by (simp_all add: http_sick_def Http_UpdateHealthChecks_def gomap_absorb_single gomap_get_put fun_eq_iff)
  show "h_livePath http_sick = ''/livez''" "h_readyPath http_sick = ''/readyz''" "h_startupPath http_sick = ''/healthz''"
    using up by (simp_all add: http_sick_def Http_UpdateHealthChecks_def cacheHealthChecks_def Let_def http_log_def
        split: option.split)
qed


end
