(* ===== verification/Test_Report_Json.thy ===== *)
theory Test_Report_Json
  imports Test_Reporter Manifest_Json
begin

text \<open>
  The JSON of a report of the test reporter (\<^verbatim>\<open>Report.MarshalJSON\<close> in \<^verbatim>\<open>reporter/test/reporter.go\<close>): the
  counters under their names and the results as \<^verbatim>\<open>encoding/json\<close> writes a \<^verbatim>\<open>CheckResult\<close>, which has no
  field tags.  An error is an interface value, and what its dynamic type marshals to is a
  parameter.  An empty list of dependencies is the nil slice that the manager leaves when no option
  set any.
\<close>

fun Status_int :: "Status \<Rightarrow> int" where
  "Status_int StatusHealthy = 0"
| "Status_int StatusDegraded = 1"
| "Status_int StatusUnhealthy = 2"
| "Status_int (StatusOther n) = n"

definition CheckResult_json :: "(go_error \<Rightarrow> json) \<Rightarrow> CheckResult \<Rightarrow> json" where
  "CheckResult_json err_json hc = JObject
     (field ''Name'' (JString (hc_Name hc)) @
      field ''Status'' (JNum (Status_int (hc_Status hc))) @
      field ''AffectsLiveness'' (JBool (hc_AffectsLiveness hc)) @
      field ''AffectsReadiness'' (JBool (hc_AffectsReadiness hc)) @
      field ''AffectsStartup'' (JBool (hc_AffectsStartup hc)) @
      field ''Group'' (JString (hc_Group hc)) @
      field ''ComponentType'' (JString (hc_ComponentType hc)) @
      field ''DependsOn'' (if hc_DependsOn hc = [] then JNull else JArray (map JString (hc_DependsOn hc))) @
      field ''Error'' (case hc_Error hc of None \<Rightarrow> JNull | Some e \<Rightarrow> err_json e) @
      field ''ErrorSince'' (JTime (hc_ErrorSince hc)) @
      field ''Duration'' (JNum (hc_Duration hc)) @
      field ''Metadata'' (case hc_Metadata hc of None \<Rightarrow> JNull | Some m \<Rightarrow> json_map JString m) @
      field ''Timestamp'' (JTime (hc_Timestamp hc)))"

text \<open>The results are copied into a map of values of any type, in the order of the loop.\<close>

definition Report_MarshalJSON :: "(go_error \<Rightarrow> json) \<Rightarrow> string rorder \<Rightarrow> Report \<Rightarrow> json" where
  "Report_MarshalJSON err_json ord r =
     (let hcs = gomap_absorb (range_entries ord (gomap_entries (HealthChecks r))) (Some [])
      in JObject
        (field ''isRunning'' (JBool (IsRunning r)) @
         field ''numRunningStateChanges'' (JNum (uint (NumRunningStateChanges r))) @
         field ''isLive'' (JBool (IsLive r)) @
         field ''numLivenessStateChanges'' (JNum (uint (NumLivenessStateChanges r))) @
         field ''numLivenessSetTrue'' (JNum (uint (NumLivenessSetTrue r))) @
         field ''numLivenessSetFalse'' (JNum (uint (NumLivenessSetFalse r))) @
         field ''isReady'' (JBool (IsReady r)) @
         field ''numReadinessStateChanges'' (JNum (uint (NumReadinessStateChanges r))) @
         field ''numReadinessSetTrue'' (JNum (uint (NumReadinessSetTrue r))) @
         field ''numReadinessSetFalse'' (JNum (uint (NumReadinessSetFalse r))) @
         field ''isStartup'' (JBool (IsStartup r)) @
         field ''numStartupStateChanges'' (JNum (uint (NumStartupStateChanges r))) @
         field ''numStartupSetTrue'' (JNum (uint (NumStartupSetTrue r))) @
         field ''numStartupSetFalse'' (JNum (uint (NumStartupSetFalse r))) @
         field ''numHealthCheckUpdates'' (JNum (uint (NumHealthCheckUpdates r))) @
         field ''healthChecks'' (json_map (CheckResult_json err_json) (gomap_entries hcs))))"

text \<open>
  The counters that a reader of the JSON finds are those of the reporter: the three counters of a probe
  add up, modulo their width, for a reporter that started from zero.
\<close>

lemma liveness_counters_add_up:
  assumes "t = fold (do_call TestReporter_ops c) calls TestReporter_zero"
  shows "NumLivenessStateChanges (TestReporter_Report ord t) =
    NumLivenessSetTrue (TestReporter_Report ord t) + NumLivenessSetFalse (TestReporter_Report ord t)"
proof -
  have "t_liveToggles (fold (do_call TestReporter_ops c) calls t0) = t_liveUp (fold (do_call TestReporter_ops c) calls t0) +
      t_liveDown (fold (do_call TestReporter_ops c) calls t0)"
    if "t_liveToggles t0 = t_liveUp t0 + t_liveDown t0" for t0
    using that
  proof (induction calls arbitrary: t0)
    case (Cons e calls)
    then show ?case by (cases e) (auto simp: TestReporter_defs)
  qed simp
  then show ?thesis by (simp add: assms TestReporter_Report_def TestReporter_zero_def)
qed

end
