(* ===== verification/Stdout_Reporter.thy ===== *)
theory Stdout_Reporter
  imports Sync_Map Reporter_Interface
begin

text \<open>
  \<^verbatim>\<open>reporter/stdout/reporter.go\<close>: the reporter that prints a table after every update.  What it
  writes goes to the process's standard output, which the model keeps beside the reporter's fields
  as the bytes written so far.  Strings are byte strings; the frame's corners are their UTF-8
  bytes, and a padded verb counts runes, as \<^verbatim>\<open>fmt\<close> does.
\<close>

section \<open>Runes and padded verbs\<close>

definition byte_in :: "nat \<Rightarrow> nat \<Rightarrow> char \<Rightarrow> bool" where
  "byte_in lo hi c \<longleftrightarrow> lo \<le> of_char c \<and> of_char c \<le> (hi::nat)"

text \<open>
  The number of bytes of the first rune of a string: a byte that does not start a complete, valid
  encoding is a rune (the replacement character) of its own.
\<close>

fun rune_len :: "string \<Rightarrow> nat" where
  "rune_len (a # b # c # d # s) =
     (if byte_in 0xC2 0xDF a \<and> byte_in 0x80 0xBF b then 2
      else if byte_in 0xE0 0xEF a \<and>
        byte_in (if byte_in 0xE0 0xE0 a then 0xA0 else 0x80) (if byte_in 0xED 0xED a then 0x9F else 0xBF) b \<and>
        byte_in 0x80 0xBF c then 3
      else if byte_in 0xF0 0xF4 a \<and>
        byte_in (if byte_in 0xF0 0xF0 a then 0x90 else 0x80) (if byte_in 0xF4 0xF4 a then 0x8F else 0xBF) b \<and>
        byte_in 0x80 0xBF c \<and> byte_in 0x80 0xBF d then 4
      else 1)"
| "rune_len [a, b, c] =
     (if byte_in 0xC2 0xDF a \<and> byte_in 0x80 0xBF b then 2
      else if byte_in 0xE0 0xEF a \<and>
        byte_in (if byte_in 0xE0 0xE0 a then 0xA0 else 0x80) (if byte_in 0xED 0xED a then 0x9F else 0xBF) b \<and>
        byte_in 0x80 0xBF c then 3
      else 1)"
| "rune_len [a, b] = (if byte_in 0xC2 0xDF a \<and> byte_in 0x80 0xBF b then 2 else 1)"
| "rune_len [a] = 1"
| "rune_len [] = 1"

lemma rune_len_pos [simp]: "0 < rune_len s"
  by (induction s rule: rune_len.induct) auto

fun RuneCountInString :: "string \<Rightarrow> nat" where
  "RuneCountInString [] = 0"
| "RuneCountInString (a # s) = Suc (RuneCountInString (drop (rune_len (a # s) - 1) s))"

text \<open>The verb \<^verbatim>\<open>%<n>s\<close>: blanks on the left up to the width.\<close>

definition pad_left :: "nat \<Rightarrow> string \<Rightarrow> string" where
  "pad_left n s = replicate (n - RuneCountInString s) CHR '' '' @ s"

section \<open>The reporter\<close>

definition so_header :: string where
  "so_header = [CHR 0xE2, CHR 0x95, CHR 0xAD] @ replicate 38 CHR ''-'' @ [CHR 0xE2, CHR 0x95, CHR 0xAE]"

definition so_smHeader :: string where
  "so_smHeader = ''|'' @ [CHR 0xE2, CHR 0x95, CHR 0xAD] @ replicate 36 CHR ''-'' @ [CHR 0xE2, CHR 0x95, CHR 0xAE] @ ''|''"

definition so_footer :: string where
  "so_footer = [CHR 0xE2, CHR 0x95, CHR 0xB0] @ replicate 38 CHR ''-'' @ [CHR 0xE2, CHR 0x95, CHR 0xAF]"

definition so_smFooter :: string where
  "so_smFooter = ''|'' @ [CHR 0xE2, CHR 0x95, CHR 0xB0] @ replicate 36 CHR ''-'' @ [CHR 0xE2, CHR 0x95, CHR 0xAF] @ ''|''"

definition so_hl :: string where
  "so_hl = ''|'' @ replicate 38 CHR ''-'' @ ''|''"

definition yes_no :: "bool \<Rightarrow> string" where
  "yes_no b = (if b then ''yes'' else ''no'')"

record StdoutReporter =
  so_live :: uint32
  so_ready :: uint32
  so_startup :: uint32
  so_healthChecks :: "(string, CheckResult) syncmap"
  so_w :: string

text \<open>\<^verbatim>\<open>fmt.Fprintln(out, line)\<close>.\<close>

definition Fprintln :: "string \<Rightarrow> StdoutReporter \<Rightarrow> StdoutReporter" where
  "Fprintln line r = r\<lparr>so_w := so_w r @ line @ newline\<rparr>"

definition Stdout_Run :: "ctx \<Rightarrow> StdoutReporter \<Rightarrow> go_error option \<times> StdoutReporter" where
  "Stdout_Run c r = (None, r)"

definition Stdout_Stop :: "ctx \<Rightarrow> StdoutReporter \<Rightarrow> go_error option \<times> StdoutReporter" where
  "Stdout_Stop c r = (None, r)"

definition Stdout_SetLiveness :: "ctx \<Rightarrow> bool \<Rightarrow> StdoutReporter \<Rightarrow> StdoutReporter" where
  "Stdout_SetLiveness c b r = r\<lparr>so_live := flag b\<rparr>"

definition Stdout_SetReadiness :: "ctx \<Rightarrow> bool \<Rightarrow> StdoutReporter \<Rightarrow> StdoutReporter" where
  "Stdout_SetReadiness c b r = r\<lparr>so_ready := flag b\<rparr>"

definition Stdout_SetStartup :: "ctx \<Rightarrow> bool \<Rightarrow> StdoutReporter \<Rightarrow> StdoutReporter" where
  "Stdout_SetStartup c b r = r\<lparr>so_startup := flag b\<rparr>"

definition Stdout_reportLiveness :: "StdoutReporter \<Rightarrow> StdoutReporter" where
  "Stdout_reportLiveness r = Fprintln (''|live:'' @ pad_left 33 (yes_no (so_live r = 1)) @ ''|'') r"

definition Stdout_reportReadiness :: "StdoutReporter \<Rightarrow> StdoutReporter" where
  "Stdout_reportReadiness r = Fprintln (''|ready:'' @ pad_left 32 (yes_no (so_ready r = 1)) @ ''|'') r"

definition Stdout_reportStartup :: "StdoutReporter \<Rightarrow> StdoutReporter" where
  "Stdout_reportStartup r = Fprintln (''|startup:'' @ pad_left 30 (yes_no (so_startup r = 1)) @ ''|'') r"

text \<open>The box of one check.\<close>

definition report_check :: "string \<Rightarrow> CheckResult \<Rightarrow> StdoutReporter \<Rightarrow> StdoutReporter" where
  "report_check k hc r =
     (let status = Status_String (hc_Status hc);
          r1 = Fprintln so_smHeader r;
          r2 = Fprintln (''||name'' @ pad_left 32 k @ ''||'') r1;
          r3 = Fprintln (''||status'' @ pad_left 30 status @ ''||'') r2;
          r4 = Fprintln (''||affects liveness'' @ pad_left 20 (yes_no (hc_AffectsLiveness hc)) @ ''||'') r3;
          r5 = Fprintln (''||affects readiness'' @ pad_left 19 (yes_no (hc_AffectsReadiness hc)) @ ''||'') r4
      in Fprintln so_smFooter r5)"

text \<open>
  The first line goes to \<^verbatim>\<open>os.Stdout\<close> itself, the others to the writer \<^verbatim>\<open>out\<close>; the only caller
  passes \<^verbatim>\<open>os.Stdout\<close> for it, so all lines go to one stream.  The checks are those of a copy of
  the map, which is ranged over in any order.
\<close>

definition reportHealthChecks :: "string rorder \<Rightarrow> string rorder \<Rightarrow> StdoutReporter \<Rightarrow> StdoutReporter" where
  "reportHealthChecks cp ord r =
     (let r1 = Fprintln so_header r;
          r2 = Fprintln (''|Health Status                         |'') r1;
          r3 = Fprintln so_hl r2;
          r4 = Stdout_reportStartup (Stdout_reportReadiness (Stdout_reportLiveness r3));
          r5 = Fprintln so_hl r4;
          r6 = Fprintln (''|Checks                                |'') r5;
          checks = Map_Value cp (so_healthChecks r6);
          r7 = fold (\<lambda>(k, hc). report_check k hc) (range_entries ord (gomap_entries checks)) r6
      in Fprintln so_footer r7)"

text \<open>The entries of the argument come in the order of the loop over it.\<close>

definition Stdout_UpdateHealthChecks ::
    "string rorder \<Rightarrow> string rorder \<Rightarrow> ctx \<Rightarrow> (string \<times> CheckResult) list \<Rightarrow> StdoutReporter \<Rightarrow> StdoutReporter" where
  "Stdout_UpdateHealthChecks cp ord c m r =
     reportHealthChecks cp ord (r\<lparr>so_healthChecks := Map_AbsorbMap id m (so_healthChecks r)\<rparr>)"

definition Stdout_ops :: "string rorder \<Rightarrow> string rorder \<Rightarrow> StdoutReporter Reporter_ops" where
  "Stdout_ops cp ord = \<lparr>r_Run = Stdout_Run, r_Stop = Stdout_Stop, r_SetLiveness = Stdout_SetLiveness,
     r_SetReadiness = Stdout_SetReadiness, r_SetStartup = Stdout_SetStartup,
     r_UpdateHealthChecks = Stdout_UpdateHealthChecks cp ord\<rparr>"

definition Stdout_view :: "StdoutReporter \<Rightarrow> probes" where
  "Stdout_view r = \<lparr>p_live = (so_live r = 1), p_ready = (so_ready r = 1), p_startup = (so_startup r = 1)\<rparr>"

section \<open>Printing writes and changes nothing else\<close>

text \<open>The lines a call prints, in order, for the state in which it is called.\<close>

definition check_lines :: "string \<Rightarrow> CheckResult \<Rightarrow> string list" where
  "check_lines k hc =
     [so_smHeader, ''||name'' @ pad_left 32 k @ ''||'',
      ''||status'' @ pad_left 30 (Status_String (hc_Status hc)) @ ''||'',
      ''||affects liveness'' @ pad_left 20 (yes_no (hc_AffectsLiveness hc)) @ ''||'',
      ''||affects readiness'' @ pad_left 19 (yes_no (hc_AffectsReadiness hc)) @ ''||'', so_smFooter]"

definition table_lines :: "probes \<Rightarrow> (string \<times> CheckResult) list \<Rightarrow> string list" where
  "table_lines p checks =
     [so_header, ''|Health Status                         |'', so_hl,
      ''|live:'' @ pad_left 33 (yes_no (p_live p)) @ ''|'',
      ''|ready:'' @ pad_left 32 (yes_no (p_ready p)) @ ''|'',
      ''|startup:'' @ pad_left 30 (yes_no (p_startup p)) @ ''|'',
      so_hl, ''|Checks                                |''] @
     concat (map (\<lambda>(k, hc). check_lines k hc) checks) @ [so_footer]"

definition print_lines :: "string list \<Rightarrow> string" where
  "print_lines ls = concat (map (\<lambda>l. l @ newline) ls)"

lemma print_lines_append [simp]: "print_lines (xs @ ys) = print_lines xs @ print_lines ys"
  by (simp add: print_lines_def)

lemma print_lines_Cons [simp]: "print_lines (x # xs) = x @ newline @ print_lines xs"
  by (simp add: print_lines_def)

lemma print_lines_Nil [simp]: "print_lines [] = []"
  by (simp add: print_lines_def)

lemma report_check_prints:
  "report_check k hc r = r\<lparr>so_w := so_w r @ print_lines (check_lines k hc)\<rparr>"
  by (simp add: report_check_def check_lines_def Fprintln_def Let_def)

lemma fold_report_check:
  "fold (\<lambda>(k, hc). report_check k hc) es r =
     r\<lparr>so_w := so_w r @ print_lines (concat (map (\<lambda>(k, hc). check_lines k hc) es))\<rparr>"
  by (induction es arbitrary: r) (auto simp: report_check_prints)

lemma reportHealthChecks_prints:
  "reportHealthChecks cp ord r = r\<lparr>so_w := so_w r @ print_lines (table_lines (Stdout_view r)
     (range_entries ord (gomap_entries (Map_Value cp (so_healthChecks r)))))\<rparr>"
  by (simp add: reportHealthChecks_def table_lines_def Fprintln_def Let_def fold_report_check
      Stdout_reportLiveness_def Stdout_reportReadiness_def Stdout_reportStartup_def Stdout_view_def)

lemma Stdout_ops_simps [simp]:
  "r_Run (Stdout_ops cp ord) = Stdout_Run" "r_Stop (Stdout_ops cp ord) = Stdout_Stop"
  "r_SetLiveness (Stdout_ops cp ord) = Stdout_SetLiveness"
  "r_SetReadiness (Stdout_ops cp ord) = Stdout_SetReadiness"
  "r_SetStartup (Stdout_ops cp ord) = Stdout_SetStartup"
  "r_UpdateHealthChecks (Stdout_ops cp ord) = Stdout_UpdateHealthChecks cp ord"
  by (simp_all add: Stdout_ops_def)

lemmas Stdout_method_defs = Stdout_Run_def Stdout_Stop_def Stdout_SetLiveness_def
  Stdout_SetReadiness_def Stdout_SetStartup_def

lemma Stdout_Update_fields:
  "so_healthChecks (Stdout_UpdateHealthChecks cp ord c m r) = Map_AbsorbMap id m (so_healthChecks r)"
  "Stdout_view (Stdout_UpdateHealthChecks cp ord c m r) = Stdout_view r"
  by (simp_all add: Stdout_UpdateHealthChecks_def reportHealthChecks_prints Stdout_view_def)

lemma Map_AbsorbMap_single: "Map_Get (Map_AbsorbMap id [(k, v)] m) = (Map_Get m)(k \<mapsto> v)"
proof -
  have e: "range_entries id [(k, v)] = [(k, v)]" by (simp add: range_entries_def)
  show ?thesis
    by (rule ext, unfold Map_Get_def Map_AbsorbMap_def e) (simp add: gomap_absorb_single gomap_get_put)
qed

interpretation stdout_rep: reporter_store "Stdout_ops cp ord" Stdout_view
    "\<lambda>r. Map_Get (so_healthChecks r)" "\<lambda>_. True" for cp ord
  by unfold_locales
    (auto simp: Stdout_method_defs Stdout_Update_fields Map_AbsorbMap_single, auto simp: Stdout_view_def)

section \<open>The table is aligned\<close>

lemma rune_len_ascii: "of_char a < (0x80::nat) \<Longrightarrow> rune_len (a # s) = 1"
  by (cases "a # s" rule: rune_len.cases) (auto simp: byte_in_def)

lemma RuneCount_ascii [simp]:
  "of_char a < (0x80::nat) \<Longrightarrow> RuneCountInString (a # s) = Suc (RuneCountInString s)"
  by (simp add: rune_len_ascii)

text \<open>An ASCII byte never continues a rune, so counting splits before it.\<close>

lemma rune_len_before_ascii:
  assumes "of_char c < (0x80::nat)" "x \<noteq> []"
  shows "rune_len (x @ c # t) = rune_len x \<and> rune_len x \<le> length x"
proof -
  have b: "\<not> byte_in lo hi c" if "0x80 \<le> lo" for lo hi
    using that assms(1) by (simp add: byte_in_def)
  show ?thesis
  proof (cases x rule: rune_len.cases)
    case (2 a b c')
    then show ?thesis by (auto simp: b)
  next
    case (3 a b)
    then show ?thesis by (cases t) (auto simp: b)
  next
    case (4 a)
    then show ?thesis by (cases t rule: rune_len.cases) (auto simp: b)
  qed (use assms(2) in \<open>auto\<close>)
qed

lemma RuneCount_append_ascii:
  assumes "of_char c < (0x80::nat)"
  shows "RuneCountInString (s @ c # t) = RuneCountInString s + RuneCountInString (c # t)"
proof (induction s rule: RuneCountInString.induct)
  case (2 a s)
  have l: "rune_len (a # s @ c # t) = rune_len (a # s)" "rune_len (a # s) - 1 \<le> length s"
    using rune_len_before_ascii [OF assms, of "a # s" t] by auto
  then have "drop (rune_len (a # s @ c # t) - 1) (s @ c # t) = drop (rune_len (a # s) - 1) s @ c # t"
    by simp
  then have "RuneCountInString ((a # s) @ c # t) =
      Suc (RuneCountInString (drop (rune_len (a # s) - 1) s @ c # t))"
    by (simp only: RuneCountInString.simps append_Cons)
  with 2 show ?case by (simp only: RuneCountInString.simps)
qed simp

declare RuneCountInString.simps(2) [simp del]

lemma RuneCount_replicate:
  "of_char c < (0x80::nat) \<Longrightarrow> RuneCountInString (replicate n c @ s) = n + RuneCountInString s"
  by (induction n) simp_all

lemma RuneCount_pad_left [simp]:
  assumes "RuneCountInString s \<le> n" "of_char c < (0x80::nat)"
  shows "RuneCountInString (pad_left n s @ c # t) = n + RuneCountInString (c # t)"
  unfolding pad_left_def append.assoc RuneCount_append_ascii [OF assms(2)]
    RuneCount_replicate [of "CHR '' ''", simplified]
  using assms(1) by simp

lemma RuneCount_short [simp]:
  "3 \<le> n \<Longrightarrow> RuneCountInString (yes_no b) \<le> n"
  "9 \<le> m \<Longrightarrow> RuneCountInString (Status_String st) \<le> m"
  by (cases st; simp add: yes_no_def)+

lemma frame_width:
  "RuneCountInString so_header = 40" "RuneCountInString so_footer = 40" "RuneCountInString so_hl = 40"
  "RuneCountInString so_smHeader = 40" "RuneCountInString so_smFooter = 40"
  by code_simp+

lemma check_lines_width:
  "RuneCountInString k \<le> 32 \<Longrightarrow> l \<in> set (check_lines k hc) \<Longrightarrow> RuneCountInString l = 40"
  by (auto simp: check_lines_def frame_width)

lemma table_lines_width:
  assumes "\<forall>k \<in> fst ` set es. RuneCountInString k \<le> 32" "l \<in> set (table_lines p es)"
  shows "RuneCountInString l = 40"
  using assms by (fastforce simp: table_lines_def frame_width dest: check_lines_width)

text \<open>The copy of a map has the entries of the map, each of them once.\<close>

lemma Map_Value_wf: "gomap_wf (Map_Value cp m)"
  unfolding Map_Value_def by (rule gomap_wf_absorb) (simp add: gomap_wf_def gomap_entries_def)

lemma Map_Value_get:
  assumes "range_order cp" "Map_wf m"
  shows "gomap_get (Map_Value cp m) = Map_Get m"
proof -
  let ?es = "gomap_entries (sm_data m)"
  have d: "distinct (map fst ?es)" using assms(2) by (simp add: Map_wf_def gomap_wf_def)
  have e: "gomap_get (Some []) = Map.empty" by (rule ext) (simp add: gomap_get_def gomap_entries_def)
  have "map_of (rev (range_entries cp ?es)) = map_of ?es"
    using d assms(1) by (simp add: map_of_range_entries)
  moreover have "Map_Get m = map_of ?es"
    by (rule ext) (simp add: Map_Get_def gomap_get_def)
  ultimately show ?thesis
    by (simp add: Map_Value_def gomap_get_absorb e)
qed

lemma range_Map_Value:
  assumes "range_order cp" "range_order ord" "Map_wf m"
  shows "map_of (range_entries ord (gomap_entries (Map_Value cp m))) = Map_Get m"
    "distinct (map fst (range_entries ord (gomap_entries (Map_Value cp m))))"
proof -
  have d: "distinct (map fst (gomap_entries (Map_Value cp m)))"
    using Map_Value_wf [of cp m] by (simp add: gomap_wf_def)
  then show "distinct (map fst (range_entries ord (gomap_entries (Map_Value cp m))))"
    by (simp add: assms(2) range_entries_distinct)
  have "map_of (gomap_entries (Map_Value cp m)) = gomap_get (Map_Value cp m)"
    by (rule ext) (simp add: gomap_get_def)
  with d assms show "map_of (range_entries ord (gomap_entries (Map_Value cp m))) = Map_Get m"
    by (simp add: map_of_range_entries Map_Value_get)
qed

definition demo_stdout :: StdoutReporter where
  "demo_stdout = \<lparr>so_live = 1, so_ready = 0, so_startup = 1, so_healthChecks = Map_new, so_w = []\<rparr>"



end
