(* ===== verification/Go_Float.thy ===== *)
theory Go_Float
  imports Go_Prelude Complex_Main
begin

text \<open>
  The \<^verbatim>\<open>float64\<close> arithmetic the metric reporters use: a float is the rational number it stands for, and
  an operation rounds the exact result to 53 significant bits, to the nearest and to even in a tie.
  The values are durations and small integers, far from the limits of the exponent.
\<close>

definition round_even :: "rat \<Rightarrow> int" where
  "round_even x =
     (let f = \<lfloor>x\<rfloor>; d = x - of_int f
      in if d < 1/2 then f else if 1/2 < d then f + 1 else if even f then f else f + 1)"

text \<open>The binary exponent of a positive number.\<close>

function exp2 :: "rat \<Rightarrow> int" where
  "exp2 x = (if 2 \<le> x then exp2 (x / 2) + 1 else if 0 < x \<and> x < 1 then exp2 (x * 2) - 1 else 0)"
  by auto

lemma floor_half_less: "2 \<le> x \<Longrightarrow> \<lfloor>x / 2\<rfloor> < \<lfloor>x :: rat\<rfloor>"
  by linarith

termination exp2
proof (relation "measure (\<lambda>x. if 1 \<le> x then nat \<lfloor>x\<rfloor> else nat \<lfloor>1 / x\<rfloor> + 1)")
  fix x :: rat
  assume "2 \<le> x"
  then show "(x / 2, x) \<in> measure (\<lambda>x. if 1 \<le> x then nat \<lfloor>x\<rfloor> else nat \<lfloor>1 / x\<rfloor> + 1)"
    using floor_half_less [of x] by auto
next
  fix x :: rat
  assume x: "\<not> 2 \<le> x" "0 < x \<and> x < 1"
  then have "1 \<le> \<lfloor>1 / x\<rfloor>" by (simp add: le_floor_iff field_simps)
  moreover have "\<lfloor>x * 2\<rfloor> = 1" if "1 \<le> x * 2"
    using that x by (intro floor_unique) auto
  moreover have "\<lfloor>1 / (x * 2)\<rfloor> < \<lfloor>1 / x\<rfloor>" if "\<not> 1 \<le> x * 2"
    using that x floor_half_less [of "1 / x"] by (simp add: field_simps)
  ultimately show "(x * 2, x) \<in> measure (\<lambda>x. if 1 \<le> x then nat \<lfloor>x\<rfloor> else nat \<lfloor>1 / x\<rfloor> + 1)"
    using x by auto
qed simp

declare exp2.simps [simp del]

definition float64 :: "rat \<Rightarrow> rat" where
  "float64 x = (if x = 0 then 0 else let u = 2 powi (exp2 \<bar>x\<bar> - 52) in of_int (round_even (x / u)) * u)"

section \<open>How far a float is from the number\<close>

lemma exp2_bounds:
  assumes "0 < x"
  shows "2 powi exp2 x \<le> x \<and> x < 2 powi (exp2 x + 1)"
  using assms
proof (induction x rule: exp2.induct)
  case (1 x)
  consider "2 \<le> x" | "x < 1" | "1 \<le> x" "x < 2" by linarith
  then show ?case
  proof cases
    assume x: "2 \<le> x"
    then have "2 powi exp2 (x / 2) \<le> x / 2" "x / 2 < 2 powi (exp2 (x / 2) + 1)" using 1 by auto
    with x show ?case by (subst (1 2) exp2.simps) (simp add: power_int_add)
  next
    assume x: "x < 1"
    then have "2 powi exp2 (x * 2) \<le> x * 2" "x * 2 < 2 powi (exp2 (x * 2) + 1)" using 1 by auto
    with x 1(3) show ?case by (subst (1 2) exp2.simps) (simp add: power_int_add power_int_diff)
  qed (subst (1 2) exp2.simps, simp)
qed

lemma round_even_error: "\<bar>of_int (round_even x) - x\<bar> \<le> 1/2"
proof -
  have "0 \<le> x - of_int \<lfloor>x\<rfloor>" "x - of_int \<lfloor>x\<rfloor> < 1" by linarith+
  then show ?thesis by (simp add: round_even_def Let_def)
qed

lemma round_even_int [simp]: "round_even (of_int n) = n"
  by (simp add: round_even_def)

text \<open>The relative error of a conversion is at most half a unit in the last of 53 places.\<close>

lemma float64_error: "\<bar>float64 x - x\<bar> \<le> \<bar>x\<bar> / 2 ^ 53"
proof (cases "x = 0")
  case False
  define u where "u = (2 :: rat) powi (exp2 \<bar>x\<bar> - 52)"
  have u: "0 < u" by (simp add: u_def)
  have "float64 x - x = (of_int (round_even (x / u)) - x / u) * u"
    using False u by (simp add: float64_def Let_def u_def [symmetric] field_simps)
  then have "\<bar>float64 x - x\<bar> = \<bar>of_int (round_even (x / u)) - x / u\<bar> * u"
    using u by (simp add: abs_mult)
  also have "\<dots> \<le> 1/2 * u"
    using u by (intro mult_right_mono round_even_error) simp
  also have "\<dots> \<le> \<bar>x\<bar> / 2 ^ 53"
    using exp2_bounds [of "\<bar>x\<bar>"] False by (simp add: u_def power_int_diff)
  finally show ?thesis .
qed (simp add: float64_def)

text \<open>Integers of up to 53 bits are floats.\<close>

lemma float64_int:
  assumes "\<bar>n\<bar> < 2 ^ 53"
  shows "float64 (of_int n) = of_int n"
proof (cases "n = 0")
  case False
  let ?e = "exp2 \<bar>of_int n\<bar>"
  have n: "\<bar>of_int n :: rat\<bar> < 2 powi 53"
    using assms by (simp add: power_int_def)
  have "2 powi ?e \<le> \<bar>of_int n :: rat\<bar>" using exp2_bounds [of "\<bar>of_int n\<bar>"] False by simp
  then have "(2 :: rat) powi ?e < 2 powi 53" using n by linarith
  then have "?e \<le> 52"
    using power_int_increasing [of 53 ?e "2 :: rat"] by fastforce
  then obtain k where k: "?e - 52 = - int k" by (metis add.inverse_inverse diff_le_0_iff_le neg_0_le_iff_le zero_le_imp_eq_int)
  have "of_int n / (2 :: rat) powi (- int k) = of_int (n * 2 ^ k)"
    by (simp add: power_int_minus divide_inverse)
  then have "round_even (of_int n / (2 :: rat) powi (- int k)) = n * 2 ^ k"
    by (simp only: round_even_int)
  then show ?thesis
    using False by (simp add: float64_def Let_def k) (simp add: power_int_minus)
qed (simp add: float64_def)

text \<open>The error of two roundings in a row.\<close>

lemma two_roundings:
  fixes x y z :: rat
  assumes "0 \<le> x" "\<bar>y - x\<bar> \<le> x / 2 ^ 53" "\<bar>z - y\<bar> \<le> \<bar>y\<bar> / 2 ^ 53"
  shows "\<bar>z - x\<bar> \<le> x / 2 ^ 51"
proof -
  define e where "e = x / 2 ^ 53"
  have e: "0 \<le> e" "e \<le> x" "4 * e = x / 2 ^ 51" using assms(1) by (simp_all add: e_def)
  have "\<bar>y\<bar> \<le> 2 * x" using e assms(1,2) unfolding e_def [symmetric] by linarith
  then have "\<bar>y\<bar> / 2 ^ 53 \<le> 2 * e" unfolding e_def by (simp add: divide_right_mono)
  with e assms(2,3) show ?thesis unfolding e_def [symmetric] by linarith
qed

end
