(* ===== verification/Metric_Interface.thy ===== *)
theory Metric_Interface
  imports Reporter_Interface Go_Float
begin

text \<open>
  What the two metric reporters have in common.  The metric libraries are not part of the
  repository, so a metric reporter is known by the calls it makes on them, in order.  The locale
  \<open>metric_reporter\<close> states the contract: a setter emits the metrics of its probe, an update emits the
  metrics of each of its results while the reporter is running and nothing otherwise, and \<^verbatim>\<open>Run\<close> and
  \<^verbatim>\<open>Stop\<close> emit nothing; \<open>wired\<close> says that the reporter holds the instruments its constructor made.  Its lemmas give what was emitted after any history of calls; they hold for
  the OpenTelemetry and the Prometheus reporter by interpretation.
\<close>

section \<open>Histories\<close>

text \<open>The results relayed in a history while the reporter was running.\<close>

fun relayed :: "bool \<Rightarrow> reporter_call list \<Rightarrow> CheckResult list" where
  "relayed on [] = []"
| "relayed on (CallRun # cs) = relayed True cs"
| "relayed on (CallStop # cs) = relayed False cs"
| "relayed on (CallUpdate m # cs) = (if on then map snd m else []) @ relayed on cs"
| "relayed on (CallLive b # cs) = relayed on cs"
| "relayed on (CallReady b # cs) = relayed on cs"
| "relayed on (CallStartup b # cs) = relayed on cs"

text \<open>The whole trace of metrics of a history.\<close>

fun call_trace ::
    "(bool \<Rightarrow> 'm list) \<Rightarrow> (bool \<Rightarrow> 'm list) \<Rightarrow> (bool \<Rightarrow> 'm list) \<Rightarrow> (CheckResult \<Rightarrow> 'm list) \<Rightarrow>
     bool \<Rightarrow> reporter_call list \<Rightarrow> 'm list" where
  "call_trace l rd st res on [] = []"
| "call_trace l rd st res on (CallRun # cs) = call_trace l rd st res True cs"
| "call_trace l rd st res on (CallStop # cs) = call_trace l rd st res False cs"
| "call_trace l rd st res on (CallUpdate m # cs) =
     (if on then concat (map (\<lambda>(k, hc). res hc) m) else []) @ call_trace l rd st res on cs"
| "call_trace l rd st res on (CallLive b # cs) = l b @ call_trace l rd st res on cs"
| "call_trace l rd st res on (CallReady b # cs) = rd b @ call_trace l rd st res on cs"
| "call_trace l rd st res on (CallStartup b # cs) = st b @ call_trace l rd st res on cs"

lemma filter_call_trace:
  assumes "\<And>b. filter P (l b) = []" "\<And>b. filter P (rd b) = []" "\<And>b. filter P (st b) = []"
  shows "filter P (call_trace l rd st res on cs) = concat (map (\<lambda>hc. filter P (res hc)) (relayed on cs))"
proof -
  have "concat (map (filter P \<circ> (\<lambda>(k, hc). res hc)) m) = concat (map ((\<lambda>hc. filter P (res hc)) \<circ> snd) m)"
    for m :: "(string \<times> CheckResult) list"
    by (rule arg_cong [where f = concat], rule map_cong) auto
  with assms show ?thesis
    by (induction l rd st res on cs rule: call_trace.induct) (auto simp: filter_concat map_map)
qed

section \<open>The contract\<close>

locale metric_reporter =
  fixes ops :: "'r Reporter_ops"
    and emitted :: "'r \<Rightarrow> 'm list"
    and active :: "'r \<Rightarrow> bool"
    and on_live :: "bool \<Rightarrow> 'm list"
    and on_ready :: "bool \<Rightarrow> 'm list"
    and on_startup :: "bool \<Rightarrow> 'm list"
    and on_result :: "CheckResult \<Rightarrow> 'm list"
    and wired :: "'r \<Rightarrow> bool"
  assumes emit_Run: "emitted (snd (r_Run ops c r)) = emitted r" "active (snd (r_Run ops c r))"
    and emit_Stop: "emitted (snd (r_Stop ops c r)) = emitted r" "\<not> active (snd (r_Stop ops c r))"
    and emit_Live: "wired r \<Longrightarrow> emitted (r_SetLiveness ops c b r) = emitted r @ on_live b"
    and emit_Ready: "wired r \<Longrightarrow> emitted (r_SetReadiness ops c b r) = emitted r @ on_ready b"
    and emit_Startup: "wired r \<Longrightarrow> emitted (r_SetStartup ops c b r) = emitted r @ on_startup b"
    and emit_Update: "wired r \<Longrightarrow> emitted (r_UpdateHealthChecks ops c m r) =
      emitted r @ (if active r then concat (map (\<lambda>(k, hc). on_result hc) m) else [])"
    and active_kept: "active (r_SetLiveness ops c b r) = active r" "active (r_SetReadiness ops c b r) = active r"
      "active (r_SetStartup ops c b r) = active r" "active (r_UpdateHealthChecks ops c m r) = active r"
    and wired_kept: "wired r \<Longrightarrow> wired (do_call ops c call r)"
begin

lemma emitted_calls:
  "wired r \<Longrightarrow> emitted (fold (do_call ops c) calls r) =
     emitted r @ call_trace on_live on_ready on_startup on_result (active r) calls"
proof (induction calls arbitrary: r)
  case (Cons e calls)
  then show ?case
    using wired_kept [OF Cons.prems, of c e]
    by (cases e) (auto simp: emit_Run emit_Stop emit_Live emit_Ready emit_Startup emit_Update active_kept)
qed simp

text \<open>Metrics that only results give rise to are, in order, those of the results relayed while running.\<close>

lemma emitted_results:
  assumes "wired r" "\<And>b. filter P (on_live b) = []" "\<And>b. filter P (on_ready b) = []" "\<And>b. filter P (on_startup b) = []"
  shows "filter P (emitted (fold (do_call ops c) calls r)) =
    filter P (emitted r) @ concat (map (\<lambda>hc. filter P (on_result hc)) (relayed (active r) calls))"
  using filter_call_trace [where P = P, OF assms(2-4)] by (simp add: emitted_calls [OF assms(1)])

end

end
