(* ===== verification/Otel_Reporter.thy ===== *)
theory Otel_Reporter
  imports Metric_Interface
begin

text \<open>
  \<^verbatim>\<open>reporter/otel/reporter.go\<close>: the reporter that emits OpenTelemetry metrics.  The metric API is not
  part of the repository: a meter is what creating an instrument on it returns as an error, and a
  recording is the call that is made on the instrument, kept in the order of the calls.
\<close>

section \<open>Instruments and recordings\<close>

datatype instrument_kind = Int64Gauge | Float64Histogram | Int64Counter

record instrument =
  in_kind :: instrument_kind
  in_name :: string
  in_description :: string
  in_unit :: string

type_synonym attributes = "(string \<times> string) list"

text \<open>\<^verbatim>\<open>Record\<close> on a gauge, \<^verbatim>\<open>Record\<close> on a histogram and \<^verbatim>\<open>Add\<close> on a counter.\<close>

datatype otel_call =
  GaugeRecord instrument int attributes
  | HistogramRecord instrument rat attributes
  | CounterAdd instrument int attributes

text \<open>A meter provider gives a meter for a scope; a meter creates an instrument or returns an error.\<close>

type_synonym meter = "instrument \<Rightarrow> go_error option"
type_synonym meter_provider = "string \<Rightarrow> meter"

record OtelReporter =
  ot_running :: uint32
  ot_live :: uint32
  ot_ready :: uint32
  ot_startup :: uint32
  ot_hcs :: "(string, CheckResult) gomap"
  ot_meter :: meter
  ot_checkGauge :: instrument
  ot_checkHist :: instrument
  ot_checkCount :: instrument
  ot_liveGauge :: instrument
  ot_readyGauge :: instrument
  ot_startGauge :: instrument
  ot_logger :: Logger
  ot_calls :: "otel_call list"

record OtelConfig =
  oc_MeterProvider :: "meter_provider option"
  oc_Logger :: "Logger option"

definition errNoMeterProvider :: go_error where
  "errNoMeterProvider = ErrorString ''health.reporter.otel: MeterProvider is required''"

definition check_gauge :: instrument where
  "check_gauge = \<lparr>in_kind = Int64Gauge, in_name = ''health.check.status'',
     in_description = ''Health check status: 0=unhealthy, 1=degraded, 2=healthy'', in_unit = []\<rparr>"

definition check_hist :: instrument where
  "check_hist = \<lparr>in_kind = Float64Histogram, in_name = ''health.check.duration'',
     in_description = ''Health check duration in milliseconds'', in_unit = ''ms''\<rparr>"

definition check_count :: instrument where
  "check_count = \<lparr>in_kind = Int64Counter, in_name = ''health.check.executions'',
     in_description = ''Total health check executions'', in_unit = []\<rparr>"

definition live_gauge :: instrument where
  "live_gauge = \<lparr>in_kind = Int64Gauge, in_name = ''health.liveness'',
     in_description = ''Service liveness: 0 or 1'', in_unit = []\<rparr>"

definition ready_gauge :: instrument where
  "ready_gauge = \<lparr>in_kind = Int64Gauge, in_name = ''health.readiness'',
     in_description = ''Service readiness: 0 or 1'', in_unit = []\<rparr>"

definition start_gauge :: instrument where
  "start_gauge = \<lparr>in_kind = Int64Gauge, in_name = ''health.startup'',
     in_description = ''Service startup: 0 or 1'', in_unit = []\<rparr>"

text \<open>Creating an instrument, and going on with it unless that fails.\<close>

definition with_instrument :: "meter \<Rightarrow> instrument \<Rightarrow> (instrument \<Rightarrow> go_error + 'a) \<Rightarrow> go_error + 'a" where
  "with_instrument meter i k = (case meter i of Some err \<Rightarrow> Inl err | None \<Rightarrow> k i)"

definition Otel_NewReporter :: "OtelConfig \<Rightarrow> go_error + OtelReporter" where
  "Otel_NewReporter cfg =
     (case oc_MeterProvider cfg of
        None \<Rightarrow> Inl errNoMeterProvider
      | Some provider \<Rightarrow>
          let meter = provider ''github.com/schigh/health/v2/reporter/otel'' in
          with_instrument meter check_gauge (\<lambda>checkGauge.
          with_instrument meter check_hist (\<lambda>checkHist.
          with_instrument meter check_count (\<lambda>checkCount.
          with_instrument meter live_gauge (\<lambda>liveGauge.
          with_instrument meter ready_gauge (\<lambda>readyGauge.
          with_instrument meter start_gauge (\<lambda>startGauge.
          Inr \<lparr>ot_running = 0, ot_live = 0, ot_ready = 0, ot_startup = 0, ot_hcs = None, ot_meter = meter,
               ot_checkGauge = checkGauge, ot_checkHist = checkHist, ot_checkCount = checkCount,
               ot_liveGauge = liveGauge, ot_readyGauge = readyGauge, ot_startGauge = startGauge,
               ot_logger = (case oc_Logger cfg of None \<Rightarrow> NoOpLogger | Some l \<Rightarrow> l), ot_calls = []\<rparr>)))))))"

section \<open>The reporter's methods\<close>

definition ot_emit :: "otel_call \<Rightarrow> OtelReporter \<Rightarrow> OtelReporter" where
  "ot_emit call r = r\<lparr>ot_calls := ot_calls r @ [call]\<rparr>"

definition Otel_Run :: "ctx \<Rightarrow> OtelReporter \<Rightarrow> go_error option \<times> OtelReporter" where
  "Otel_Run c r = (None, r\<lparr>ot_running := 1\<rparr>)"

definition Otel_Stop :: "ctx \<Rightarrow> OtelReporter \<Rightarrow> go_error option \<times> OtelReporter" where
  "Otel_Stop c r = (None, r\<lparr>ot_running := 0\<rparr>)"

definition Otel_SetLiveness :: "ctx \<Rightarrow> bool \<Rightarrow> OtelReporter \<Rightarrow> OtelReporter" where
  "Otel_SetLiveness c b r =
     (let v = flag b in ot_emit (GaugeRecord (ot_liveGauge r) (uint v) []) (r\<lparr>ot_live := v\<rparr>))"

definition Otel_SetReadiness :: "ctx \<Rightarrow> bool \<Rightarrow> OtelReporter \<Rightarrow> OtelReporter" where
  "Otel_SetReadiness c b r =
     (let v = flag b in ot_emit (GaugeRecord (ot_readyGauge r) (uint v) []) (r\<lparr>ot_ready := v\<rparr>))"

definition Otel_SetStartup :: "ctx \<Rightarrow> bool \<Rightarrow> OtelReporter \<Rightarrow> OtelReporter" where
  "Otel_SetStartup c b r =
     (let v = flag b in ot_emit (GaugeRecord (ot_startGauge r) (uint v) []) (r\<lparr>ot_startup := v\<rparr>))"

fun statusToInt64 :: "Status \<Rightarrow> int" where
  "statusToInt64 StatusHealthy = 2"
| "statusToInt64 StatusDegraded = 1"
| "statusToInt64 _ = 0"

definition check_attributes :: "CheckResult \<Rightarrow> attributes" where
  "check_attributes hc =
     [(''check'', hc_Name hc)] @
     (if hc_Group hc \<noteq> [] then [(''group'', hc_Group hc)] else []) @
     (if hc_ComponentType hc \<noteq> [] then [(''component_type'', hc_ComponentType hc)] else [])"

text \<open>The duration in milliseconds: both operands and the quotient are floats.\<close>

definition duration_ms :: "duration \<Rightarrow> rat" where
  "duration_ms d = float64 (float64 (of_int d) / float64 (of_int Millisecond))"

definition recordCheckMetrics :: "CheckResult \<Rightarrow> OtelReporter \<Rightarrow> OtelReporter" where
  "recordCheckMetrics hc r =
     (let attrs = check_attributes hc;
          r1 = ot_emit (GaugeRecord (ot_checkGauge r) (statusToInt64 (hc_Status hc)) attrs) r;
          r2 = (if hc_Duration hc > 0
                then ot_emit (HistogramRecord (ot_checkHist r1) (duration_ms (hc_Duration hc)) attrs) r1
                else r1)
      in ot_emit (CounterAdd (ot_checkCount r2) 1 (attrs @ [(''status'', Status_String (hc_Status hc))])) r2)"

text \<open>
  The argument is ranged over twice, once to store the results and once to record their metrics; its
  entries come in the order of the second loop (the first one only fills a map).
\<close>

definition Otel_UpdateHealthChecks ::
    "ctx \<Rightarrow> (string \<times> CheckResult) list \<Rightarrow> OtelReporter \<Rightarrow> OtelReporter" where
  "Otel_UpdateHealthChecks c m r =
     (if ot_running r = 0 then r
      else fold (\<lambda>(k, hc). recordCheckMetrics hc) m (r\<lparr>ot_hcs := gomap_absorb m (ot_hcs r)\<rparr>))"

definition Otel_ops :: "OtelReporter Reporter_ops" where
  "Otel_ops = \<lparr>r_Run = Otel_Run, r_Stop = Otel_Stop, r_SetLiveness = Otel_SetLiveness,
     r_SetReadiness = Otel_SetReadiness, r_SetStartup = Otel_SetStartup,
     r_UpdateHealthChecks = Otel_UpdateHealthChecks\<rparr>"

definition Otel_view :: "OtelReporter \<Rightarrow> probes" where
  "Otel_view r = \<lparr>p_live = (ot_live r = 1), p_ready = (ot_ready r = 1), p_startup = (ot_startup r = 1)\<rparr>"

section \<open>The interfaces\<close>

text \<open>The metrics of one result, and the reporters that hold the instruments of the constructor.\<close>

definition otel_result_calls :: "CheckResult \<Rightarrow> otel_call list" where
  "otel_result_calls hc =
     [GaugeRecord check_gauge (statusToInt64 (hc_Status hc)) (check_attributes hc)] @
     (if hc_Duration hc > 0
      then [HistogramRecord check_hist (duration_ms (hc_Duration hc)) (check_attributes hc)] else []) @
     [CounterAdd check_count 1 (check_attributes hc @ [(''status'', Status_String (hc_Status hc))])]"

definition otel_wired :: "OtelReporter \<Rightarrow> bool" where
  "otel_wired r \<longleftrightarrow> ot_checkGauge r = check_gauge \<and> ot_checkHist r = check_hist \<and> ot_checkCount r = check_count \<and>
     ot_liveGauge r = live_gauge \<and> ot_readyGauge r = ready_gauge \<and> ot_startGauge r = start_gauge"

lemma Otel_ops_simps [simp]:
  "r_Run Otel_ops = Otel_Run" "r_Stop Otel_ops = Otel_Stop"
  "r_SetLiveness Otel_ops = Otel_SetLiveness" "r_SetReadiness Otel_ops = Otel_SetReadiness"
  "r_SetStartup Otel_ops = Otel_SetStartup" "r_UpdateHealthChecks Otel_ops = Otel_UpdateHealthChecks"
  by (simp_all add: Otel_ops_def)

lemmas Otel_method_defs = Otel_Run_def Otel_Stop_def Otel_SetLiveness_def Otel_SetReadiness_def
  Otel_SetStartup_def ot_emit_def

lemma recordCheckMetrics_calls:
  "recordCheckMetrics hc r = r\<lparr>ot_calls := ot_calls (recordCheckMetrics hc r)\<rparr>"
  "otel_wired r \<Longrightarrow> ot_calls (recordCheckMetrics hc r) = ot_calls r @ otel_result_calls hc"
  by (simp_all add: recordCheckMetrics_def ot_emit_def Let_def otel_wired_def otel_result_calls_def)

lemma recordCheckMetrics_frame: "\<exists>calls. recordCheckMetrics hc r = r\<lparr>ot_calls := calls\<rparr>"
  using recordCheckMetrics_calls(1) by blast

lemma otel_wired_calls [simp]: "otel_wired (r\<lparr>ot_calls := calls\<rparr>) = otel_wired r"
  by (simp add: otel_wired_def)

lemma fold_record_frame: "\<exists>calls. fold (\<lambda>(k, hc). recordCheckMetrics hc) m r = r\<lparr>ot_calls := calls\<rparr>"
proof (induction m arbitrary: r)
  case (Cons p m)
  obtain calls where "recordCheckMetrics (snd p) r = r\<lparr>ot_calls := calls\<rparr>"
    using recordCheckMetrics_frame by blast
  with Cons [of "r\<lparr>ot_calls := calls\<rparr>"] show ?case by (auto simp: split_beta)
next
  case Nil
  show ?case by (rule exI [of _ "ot_calls r"]) simp
qed

lemma fold_record_calls:
  "otel_wired r \<Longrightarrow> ot_calls (fold (\<lambda>(k, hc). recordCheckMetrics hc) m r) =
     ot_calls r @ concat (map (\<lambda>(k, hc). otel_result_calls hc) m)"
proof (induction m arbitrary: r)
  case (Cons p m)
  have "otel_wired (recordCheckMetrics (snd p) r)"
    using Cons.prems recordCheckMetrics_frame [of "snd p" r] by auto
  with Cons show ?case by (simp add: split_beta recordCheckMetrics_calls(2))
qed simp

lemma Otel_Update_fields:
  "Otel_view (Otel_UpdateHealthChecks c m r) = Otel_view r"
  "ot_running (Otel_UpdateHealthChecks c m r) = ot_running r"
  "otel_wired (Otel_UpdateHealthChecks c m r) = otel_wired r"
  "ot_hcs (Otel_UpdateHealthChecks c m r) =
     (if ot_running r = 0 then ot_hcs r else gomap_absorb m (ot_hcs r))"
  "otel_wired r \<Longrightarrow> ot_calls (Otel_UpdateHealthChecks c m r) =
     ot_calls r @ (if ot_running r \<noteq> 0 then concat (map (\<lambda>(k, hc). otel_result_calls hc) m) else [])"
proof -
  let ?r = "r\<lparr>ot_hcs := gomap_absorb m (ot_hcs r)\<rparr>"
  obtain calls where c: "fold (\<lambda>(k, hc). recordCheckMetrics hc) m ?r = ?r\<lparr>ot_calls := calls\<rparr>"
    using fold_record_frame by blast
  show "Otel_view (Otel_UpdateHealthChecks c m r) = Otel_view r"
    "ot_running (Otel_UpdateHealthChecks c m r) = ot_running r"
    "otel_wired (Otel_UpdateHealthChecks c m r) = otel_wired r"
    "ot_hcs (Otel_UpdateHealthChecks c m r) =
       (if ot_running r = 0 then ot_hcs r else gomap_absorb m (ot_hcs r))"
    by (simp_all add: Otel_UpdateHealthChecks_def c Otel_view_def otel_wired_def)
  show "ot_calls (Otel_UpdateHealthChecks c m r) =
     ot_calls r @ (if ot_running r \<noteq> 0 then concat (map (\<lambda>(k, hc). otel_result_calls hc) m) else [])"
    if "otel_wired r"
    using that fold_record_calls [of ?r m] by (simp add: Otel_UpdateHealthChecks_def otel_wired_def)
qed

interpretation otel_rep: reporter_store Otel_ops Otel_view
    "\<lambda>r. gomap_get (ot_hcs r)" "\<lambda>r. ot_running r \<noteq> 0"
  by unfold_locales
    (auto simp: Otel_method_defs Otel_Update_fields Let_def gomap_absorb_single gomap_get_put, auto simp: Otel_view_def)

interpretation otel_metrics: metric_reporter Otel_ops ot_calls "\<lambda>r. ot_running r \<noteq> 0"
    "\<lambda>b. [GaugeRecord live_gauge (of_bool b) []]" "\<lambda>b. [GaugeRecord ready_gauge (of_bool b) []]"
    "\<lambda>b. [GaugeRecord start_gauge (of_bool b) []]" otel_result_calls otel_wired
proof unfold_locales
  fix r c call
  assume "otel_wired r"
  then show "otel_wired (do_call Otel_ops c call r)"
    by (cases call) (auto simp: Otel_method_defs Otel_Update_fields Let_def, auto simp: otel_wired_def)
qed (auto simp: Otel_method_defs Otel_Update_fields Let_def otel_wired_def flag_def)

section \<open>What is emitted\<close>

fun is_counter :: "otel_call \<Rightarrow> bool" where
  "is_counter (CounterAdd i n a) = True"
| "is_counter _ = False"

fun is_histogram :: "otel_call \<Rightarrow> bool" where
  "is_histogram (HistogramRecord i v a) = True"
| "is_histogram _ = False"

fun on_instrument :: "instrument \<Rightarrow> otel_call \<Rightarrow> bool" where
  "on_instrument i (GaugeRecord j v a) = (j = i)"
| "on_instrument i (HistogramRecord j v a) = (j = i)"
| "on_instrument i (CounterAdd j n a) = (j = i)"

fun call_live :: "reporter_call \<Rightarrow> bool list" where
  "call_live (CallLive b) = [b]"
| "call_live _ = []"

lemma instruments_differ [simp]:
  "check_gauge \<noteq> live_gauge" "ready_gauge \<noteq> live_gauge" "start_gauge \<noteq> live_gauge"
  "check_hist \<noteq> live_gauge" "check_count \<noteq> live_gauge" "live_gauge \<noteq> check_gauge" "ready_gauge \<noteq> check_gauge"
  "start_gauge \<noteq> check_gauge" "check_hist \<noteq> check_gauge" "check_count \<noteq> check_gauge"
  by (simp_all add: check_gauge_def live_gauge_def ready_gauge_def start_gauge_def check_hist_def check_count_def)

lemma Otel_new_wired:
  assumes "Otel_NewReporter cfg = Inr r"
  shows "otel_wired r" "ot_calls r = []" "ot_running r = 0" "Otel_view r = probes_down"
  using assms
  by (auto simp: Otel_NewReporter_def with_instrument_def Let_def otel_wired_def Otel_view_def probes_down_def
      split: option.splits)

lemma result_live: "filter (on_instrument live_gauge) (otel_result_calls hc) = []"
  by (simp add: otel_result_calls_def)

lemma live_trace:
  "filter (on_instrument live_gauge) (call_trace (\<lambda>b. [GaugeRecord live_gauge (of_bool b) []])
     (\<lambda>b. [GaugeRecord ready_gauge (of_bool b) []]) (\<lambda>b. [GaugeRecord start_gauge (of_bool b) []])
     otel_result_calls on calls) =
   map (\<lambda>b. GaugeRecord live_gauge (of_bool b) []) (concat (map call_live calls))"
proof (induction calls arbitrary: on)
  case (Cons e calls)
  have "filter (on_instrument live_gauge) (concat (map (\<lambda>(k, hc). otel_result_calls hc) m)) = []"
    for m :: "(string \<times> CheckResult) list"
    by (induction m) (auto simp: result_live)
  with Cons show ?case by (cases e) auto
qed simp

text \<open>The error of the duration: two roundings, since the divisor is exact.\<close>

lemma duration_ms_error:
  assumes "0 \<le> d"
  shows "\<bar>duration_ms d - of_int d / 10 ^ 6\<bar> \<le> of_int d / 10 ^ 6 / 2 ^ 51"
proof -
  let ?f = "float64 (of_int d)" and ?m = "of_int d / 10 ^ 6 :: rat"
  have m: "float64 (of_int Millisecond) = 10 ^ 6"
    using float64_int [of Millisecond] by (simp add: Millisecond_def)
  have "\<bar>?f - of_int d\<bar> \<le> of_int d / 2 ^ 53"
    using float64_error [of "of_int d"] assms by simp
  then have "\<bar>?f / 10 ^ 6 - ?m\<bar> \<le> ?m / 2 ^ 53" by (simp add: abs_le_iff field_simps)
  moreover have "\<bar>duration_ms d - ?f / 10 ^ 6\<bar> \<le> \<bar>?f / 10 ^ 6\<bar> / 2 ^ 53"
    using float64_error [of "?f / 10 ^ 6"] by (simp add: duration_ms_def m)
  ultimately show ?thesis using assms by (intro two_roundings [of ?m "?f / 10 ^ 6"]) simp_all
qed

lemma duration_ms_exact:
  assumes "0 \<le> n" "n * Millisecond < 2 ^ 53"
  shows "duration_ms (n * Millisecond) = of_int n"
proof -
  have "n < 2 ^ 53" using assms by (simp add: Millisecond_def)
  then have "float64 (of_int n) = of_int n" using assms(1) by (intro float64_int) simp
  moreover have "float64 (of_int (n * Millisecond)) = of_int (n * Millisecond)"
    using assms by (intro float64_int) (simp add: Millisecond_def)
  moreover have "float64 (of_int Millisecond) = of_int Millisecond"
    by (intro float64_int) (simp add: Millisecond_def)
  ultimately show ?thesis by (simp add: duration_ms_def Millisecond_def)
qed

definition otel_counter_call :: "CheckResult \<Rightarrow> otel_call" where
  "otel_counter_call hc = CounterAdd check_count 1 (check_attributes hc @ [(''status'', Status_String (hc_Status hc))])"

definition demo_otel :: OtelConfig where
  "demo_otel = \<lparr>oc_MeterProvider = Some (\<lambda>scope i. None), oc_Logger = None\<rparr>"

text \<open>
  C26: the metrics of a reporter that was created, after any history of calls: every result relayed
  between \<^verbatim>\<open>Run\<close> and \<^verbatim>\<open>Stop\<close> has incremented the execution counter once, with its attributes and
  status, has recorded its status once as 2, 1 or 0 (healthy, degraded, neither) and its duration once
  if it is positive, and no other call has; and the
  liveness gauge has recorded exactly the values liveness was set to, in order.
\<close>

theorem otel_emits_history:
  assumes "Otel_NewReporter cfg = Inr r"
    and "r' = fold (do_call Otel_ops c) calls r"
  shows "filter is_counter (ot_calls r') = map otel_counter_call (relayed False calls) \<and>
    filter is_histogram (ot_calls r') =
      map (\<lambda>hc. HistogramRecord check_hist (duration_ms (hc_Duration hc)) (check_attributes hc))
        (filter (\<lambda>hc. hc_Duration hc > 0) (relayed False calls)) \<and>
    filter (on_instrument check_gauge) (ot_calls r') =
      map (\<lambda>hc. GaugeRecord check_gauge (case hc_Status hc of StatusHealthy \<Rightarrow> 2 | StatusDegraded \<Rightarrow> 1 | _ \<Rightarrow> 0)
        (check_attributes hc)) (relayed False calls) \<and>
    filter (on_instrument live_gauge) (ot_calls r') =
      map (\<lambda>b. GaugeRecord live_gauge (of_bool b) []) (concat (map call_live calls))"
proof (intro conjI)
  note w = Otel_new_wired [OF assms(1)]
  have "filter is_counter (ot_calls r') =
      concat (map (\<lambda>hc. filter is_counter (otel_result_calls hc)) (relayed False calls))"
    using otel_metrics.emitted_results [OF w(1), of is_counter c calls] by (simp add: assms(2) w)
  also have "\<dots> = map otel_counter_call (relayed False calls)"
    by (induction "relayed False calls") (auto simp: otel_result_calls_def otel_counter_call_def map_eq_conv)
  finally show "filter is_counter (ot_calls r') = map otel_counter_call (relayed False calls)" .
  show "filter (on_instrument live_gauge) (ot_calls r') =
      map (\<lambda>b. GaugeRecord live_gauge (of_bool b) []) (concat (map call_live calls))"
    by (simp add: assms(2) otel_metrics.emitted_calls [OF w(1)] w live_trace)
  have st: "statusToInt64 st = (case st of StatusHealthy \<Rightarrow> 2 | StatusDegraded \<Rightarrow> 1 | _ \<Rightarrow> 0)" for st
    by (cases st) simp_all
  have "concat (map (\<lambda>hc. filter (on_instrument check_gauge) (otel_result_calls hc)) hcs) =
      map (\<lambda>hc. GaugeRecord check_gauge (statusToInt64 (hc_Status hc)) (check_attributes hc)) hcs" for hcs
    by (induction hcs) (auto simp: otel_result_calls_def)
  then show "filter (on_instrument check_gauge) (ot_calls r') =
      map (\<lambda>hc. GaugeRecord check_gauge (case hc_Status hc of StatusHealthy \<Rightarrow> 2 | StatusDegraded \<Rightarrow> 1 | _ \<Rightarrow> 0)
        (check_attributes hc)) (relayed False calls)"
    using otel_metrics.emitted_results [OF w(1), of "on_instrument check_gauge" c calls]
    by (simp add: assms(2) w st [symmetric])
  have "concat (map (\<lambda>hc. filter is_histogram (otel_result_calls hc)) hcs) =
      map (\<lambda>hc. HistogramRecord check_hist (duration_ms (hc_Duration hc)) (check_attributes hc))
        (filter (\<lambda>hc. hc_Duration hc > 0) hcs)" for hcs
    by (induction hcs) (auto simp: otel_result_calls_def)
  then show "filter is_histogram (ot_calls r') =
      map (\<lambda>hc. HistogramRecord check_hist (duration_ms (hc_Duration hc)) (check_attributes hc))
        (filter (\<lambda>hc. hc_Duration hc > 0) (relayed False calls))"
    using otel_metrics.emitted_results [OF w(1), of is_histogram c calls] by (simp add: assms(2) w)
qed

theorem otel_emits_history_witness:
  "\<exists>r. Otel_NewReporter demo_otel = Inr r \<and>
    filter is_counter (ot_calls (fold (do_call Otel_ops CtxActive)
      [CallLive True, CallRun, CallUpdate [(''db'', CheckResult_zero)], CallStop, CallUpdate [(''db'', CheckResult_zero)]] r)) =
    [otel_counter_call CheckResult_zero]"
proof -
  obtain r where r: "Otel_NewReporter demo_otel = Inr r"
    by (simp add: demo_otel_def Otel_NewReporter_def with_instrument_def Let_def)
  show ?thesis
    using r otel_emits_history [OF r refl, of CtxActive
      "[CallLive True, CallRun, CallUpdate [(''db'', CheckResult_zero)], CallStop, CallUpdate [(''db'', CheckResult_zero)]]"]
    by simp
qed

text \<open>
  C27: the recorded durations are accurate: what the histogram records for a duration of \<open>d\<close>
  nanoseconds differs from \<open>d\<close> / 1000000 by at most one part in 2 to the 51, whatever the rounding of the
  conversions and of the division, and is exact for every whole number of milliseconds up to 104 days
  (2 to the 53 nanoseconds).
\<close>

theorem otel_duration_accurate:
  assumes "0 \<le> d"
  shows "\<bar>duration_ms d - of_int d / 10 ^ 6\<bar> \<le> of_int d / 10 ^ 6 / 2 ^ 51 \<and>
    (d mod 10 ^ 6 = 0 \<and> d < 2 ^ 53 \<longrightarrow> duration_ms d = of_int (d div 10 ^ 6))"
proof (intro conjI impI)
  show "\<bar>duration_ms d - of_int d / 10 ^ 6\<bar> \<le> of_int d / 10 ^ 6 / 2 ^ 51" by (rule duration_ms_error [OF assms])
  assume d: "d mod 10 ^ 6 = 0 \<and> d < 2 ^ 53"
  then have "d = (d div 10 ^ 6) * Millisecond" by (auto simp: Millisecond_def)
  moreover have "0 \<le> d div 10 ^ 6" using assms by simp
  ultimately show "duration_ms d = of_int (d div 10 ^ 6)"
    using duration_ms_exact [of "d div 10 ^ 6"] d by metis
qed

theorem otel_duration_accurate_witness: "duration_ms (25 * Millisecond) = 25"
  using otel_duration_accurate [of "25 * Millisecond"] by (simp add: Millisecond_def)

end
