(* ===== verification/Prometheus_Reporter.thy ===== *)
theory Prometheus_Reporter
  imports Metric_Interface
begin

text \<open>
  \<^verbatim>\<open>reporter/prometheus/reporter.go\<close>: the reporter that exposes Prometheus metrics.  The client library
  is not part of the repository: the registry is a value of an unknown type with an operation that
  registers collectors or panics, and what the reporter does to its collectors is the list of the
  calls it makes on them.  Label values are taken to be valid UTF-8, which \<^verbatim>\<open>With\<close> requires.
\<close>

section \<open>Collectors\<close>

datatype collector_kind = KGauge | KGaugeVec | KCounterVec

record collector =
  co_kind :: collector_kind
  co_Namespace :: string
  co_Name :: string
  co_Help :: string
  co_labels :: "string list"

type_synonym labels = "(string \<times> string) list"

text \<open>\<^verbatim>\<open>Set\<close> on a gauge and \<^verbatim>\<open>Inc\<close> on a counter, of the member of a vector with the given labels.\<close>

datatype prom_call =
  GaugeSet collector labels rat
  | CounterInc collector labels

record 'g prom_env =
  pe_NewRegistry :: 'g
  pe_MustRegister :: "collector list \<Rightarrow> 'g \<Rightarrow> string + 'g"

record 'g PromReporter =
  pr_running :: uint32
  pr_live :: uint32
  pr_ready :: uint32
  pr_startup :: uint32
  pr_hcs :: "(string, CheckResult) gomap"
  pr_registry :: 'g
  pr_checkGauge :: collector
  pr_checkDur :: collector
  pr_checkCount :: collector
  pr_liveGauge :: collector
  pr_readyGauge :: collector
  pr_startGauge :: collector
  pr_logger :: Logger
  pr_calls :: "prom_call list"

record 'g PromConfig =
  pc_Registry :: "'g option"
  pc_Namespace :: string
  pc_Logger :: "Logger option"

definition check_labels :: "string list" where
  "check_labels = [''check'', ''group'', ''component_type'']"

definition status_collector :: "string \<Rightarrow> collector" where
  "status_collector ns = \<lparr>co_kind = KGaugeVec, co_Namespace = ns, co_Name = ''health_check_status'',
     co_Help = ''Health check status: 0=unhealthy, 1=degraded, 2=healthy'', co_labels = check_labels\<rparr>"

definition duration_collector :: "string \<Rightarrow> collector" where
  "duration_collector ns = \<lparr>co_kind = KGaugeVec, co_Namespace = ns, co_Name = ''health_check_duration_milliseconds'',
     co_Help = ''Health check duration in milliseconds'', co_labels = check_labels\<rparr>"

definition count_collector :: "string \<Rightarrow> collector" where
  "count_collector ns = \<lparr>co_kind = KCounterVec, co_Namespace = ns, co_Name = ''health_check_executions_total'',
     co_Help = ''Total health check executions'', co_labels = check_labels @ [''status'']\<rparr>"

definition live_collector :: "string \<Rightarrow> collector" where
  "live_collector ns = \<lparr>co_kind = KGauge, co_Namespace = ns, co_Name = ''health_liveness'',
     co_Help = ''Service liveness: 0 or 1'', co_labels = []\<rparr>"

definition ready_collector :: "string \<Rightarrow> collector" where
  "ready_collector ns = \<lparr>co_kind = KGauge, co_Namespace = ns, co_Name = ''health_readiness'',
     co_Help = ''Service readiness: 0 or 1'', co_labels = []\<rparr>"

definition start_collector :: "string \<Rightarrow> collector" where
  "start_collector ns = \<lparr>co_kind = KGauge, co_Namespace = ns, co_Name = ''health_startup'',
     co_Help = ''Service startup: 0 or 1'', co_labels = []\<rparr>"

text \<open>\<^verbatim>\<open>NewReporter\<close> panics when the registry refuses a collector (the \<^const>\<open>Inl\<close> case).\<close>

definition Prom_NewReporter :: "'g prom_env \<Rightarrow> 'g PromConfig \<Rightarrow> string + 'g PromReporter" where
  "Prom_NewReporter env cfg =
     (let reg = (case pc_Registry cfg of None \<Rightarrow> pe_NewRegistry env | Some g \<Rightarrow> g);
          ns = pc_Namespace cfg;
          checkGauge = status_collector ns;
          checkDur = duration_collector ns;
          checkCount = count_collector ns;
          liveGauge = live_collector ns;
          readyGauge = ready_collector ns;
          startGauge = start_collector ns
      in case pe_MustRegister env [checkGauge, checkDur, checkCount, liveGauge, readyGauge, startGauge] reg of
           Inl panic \<Rightarrow> Inl panic
         | Inr reg' \<Rightarrow>
             Inr \<lparr>pr_running = 0, pr_live = 0, pr_ready = 0, pr_startup = 0, pr_hcs = None, pr_registry = reg',
                  pr_checkGauge = checkGauge, pr_checkDur = checkDur, pr_checkCount = checkCount,
                  pr_liveGauge = liveGauge, pr_readyGauge = readyGauge, pr_startGauge = startGauge,
                  pr_logger = (case pc_Logger cfg of None \<Rightarrow> NoOpLogger | Some l \<Rightarrow> l), pr_calls = []\<rparr>)"

text \<open>\<^verbatim>\<open>Handler\<close>: the handler that the library makes of the registry.\<close>

definition Prom_Handler :: "('g \<Rightarrow> 'h) \<Rightarrow> 'g PromReporter \<Rightarrow> 'h" where
  "Prom_Handler handlerFor r = handlerFor (pr_registry r)"

section \<open>The reporter's methods\<close>

definition pr_emit :: "prom_call \<Rightarrow> 'g PromReporter \<Rightarrow> 'g PromReporter" where
  "pr_emit call r = r\<lparr>pr_calls := pr_calls r @ [call]\<rparr>"

definition Prom_Run :: "ctx \<Rightarrow> 'g PromReporter \<Rightarrow> go_error option \<times> 'g PromReporter" where
  "Prom_Run c r = (None, r\<lparr>pr_running := 1\<rparr>)"

definition Prom_Stop :: "ctx \<Rightarrow> 'g PromReporter \<Rightarrow> go_error option \<times> 'g PromReporter" where
  "Prom_Stop c r = (None, r\<lparr>pr_running := 0\<rparr>)"

definition Prom_SetLiveness :: "ctx \<Rightarrow> bool \<Rightarrow> 'g PromReporter \<Rightarrow> 'g PromReporter" where
  "Prom_SetLiveness c b r =
     (let v = flag b in pr_emit (GaugeSet (pr_liveGauge r) [] (float64 (of_int (uint v)))) (r\<lparr>pr_live := v\<rparr>))"

definition Prom_SetReadiness :: "ctx \<Rightarrow> bool \<Rightarrow> 'g PromReporter \<Rightarrow> 'g PromReporter" where
  "Prom_SetReadiness c b r =
     (let v = flag b in pr_emit (GaugeSet (pr_readyGauge r) [] (float64 (of_int (uint v)))) (r\<lparr>pr_ready := v\<rparr>))"

definition Prom_SetStartup :: "ctx \<Rightarrow> bool \<Rightarrow> 'g PromReporter \<Rightarrow> 'g PromReporter" where
  "Prom_SetStartup c b r =
     (let v = flag b in pr_emit (GaugeSet (pr_startGauge r) [] (float64 (of_int (uint v)))) (r\<lparr>pr_startup := v\<rparr>))"

definition result_labels :: "CheckResult \<Rightarrow> labels" where
  "result_labels hc =
     [(''check'', hc_Name hc), (''group'', hc_Group hc), (''component_type'', hc_ComponentType hc)]"

fun statusVal :: "Status \<Rightarrow> rat" where
  "statusVal StatusHealthy = 2"
| "statusVal StatusDegraded = 1"
| "statusVal StatusUnhealthy = 0"
| "statusVal (StatusOther n) = 0"

text \<open>\<^verbatim>\<open>Duration.Milliseconds\<close>: integer division, which for a positive duration rounds down.\<close>

definition Milliseconds :: "duration \<Rightarrow> int" where
  "Milliseconds d = (if d < 0 then - (- d div Millisecond) else d div Millisecond)"

definition record_result :: "CheckResult \<Rightarrow> 'g PromReporter \<Rightarrow> 'g PromReporter" where
  "record_result hc r =
     (let r1 = pr_emit (GaugeSet (pr_checkGauge r) (result_labels hc) (statusVal (hc_Status hc))) r;
          r2 = (if hc_Duration hc > 0
                then pr_emit (GaugeSet (pr_checkDur r1) (result_labels hc)
                  (float64 (of_int (Milliseconds (hc_Duration hc))))) r1
                else r1)
      in pr_emit (CounterInc (pr_checkCount r2) (result_labels hc @ [(''status'', Status_String (hc_Status hc))])) r2)"

text \<open>The entries of the argument come in the order of the loop that records them.\<close>

definition Prom_UpdateHealthChecks ::
    "ctx \<Rightarrow> (string \<times> CheckResult) list \<Rightarrow> 'g PromReporter \<Rightarrow> 'g PromReporter" where
  "Prom_UpdateHealthChecks c m r =
     (if pr_running r = 0 then r
      else fold (\<lambda>(k, hc). record_result hc) m (r\<lparr>pr_hcs := gomap_absorb m (pr_hcs r)\<rparr>))"

definition Prom_ops :: "'g PromReporter Reporter_ops" where
  "Prom_ops = \<lparr>r_Run = Prom_Run, r_Stop = Prom_Stop, r_SetLiveness = Prom_SetLiveness,
     r_SetReadiness = Prom_SetReadiness, r_SetStartup = Prom_SetStartup,
     r_UpdateHealthChecks = Prom_UpdateHealthChecks\<rparr>"

definition Prom_view :: "'g PromReporter \<Rightarrow> probes" where
  "Prom_view r = \<lparr>p_live = (pr_live r = 1), p_ready = (pr_ready r = 1), p_startup = (pr_startup r = 1)\<rparr>"

section \<open>The interfaces\<close>

definition prom_result_calls :: "string \<Rightarrow> CheckResult \<Rightarrow> prom_call list" where
  "prom_result_calls ns hc =
     [GaugeSet (status_collector ns) (result_labels hc) (statusVal (hc_Status hc))] @
     (if hc_Duration hc > 0
      then [GaugeSet (duration_collector ns) (result_labels hc) (float64 (of_int (Milliseconds (hc_Duration hc))))] else []) @
     [CounterInc (count_collector ns) (result_labels hc @ [(''status'', Status_String (hc_Status hc))])]"

definition prom_wired :: "string \<Rightarrow> 'g PromReporter \<Rightarrow> bool" where
  "prom_wired ns r \<longleftrightarrow> pr_checkGauge r = status_collector ns \<and> pr_checkDur r = duration_collector ns \<and>
     pr_checkCount r = count_collector ns \<and> pr_liveGauge r = live_collector ns \<and>
     pr_readyGauge r = ready_collector ns \<and> pr_startGauge r = start_collector ns"

lemma Prom_ops_simps [simp]:
  "r_Run Prom_ops = Prom_Run" "r_Stop Prom_ops = Prom_Stop"
  "r_SetLiveness Prom_ops = Prom_SetLiveness" "r_SetReadiness Prom_ops = Prom_SetReadiness"
  "r_SetStartup Prom_ops = Prom_SetStartup" "r_UpdateHealthChecks Prom_ops = Prom_UpdateHealthChecks"
  by (simp_all add: Prom_ops_def)

lemmas Prom_method_defs = Prom_Run_def Prom_Stop_def Prom_SetLiveness_def Prom_SetReadiness_def
  Prom_SetStartup_def pr_emit_def

lemma record_result_frame: "\<exists>calls. record_result hc r = r\<lparr>pr_calls := calls\<rparr>"
  by (auto simp: record_result_def pr_emit_def Let_def)

lemma prom_wired_calls [simp]: "prom_wired ns (r\<lparr>pr_calls := calls\<rparr>) = prom_wired ns r"
  by (simp add: prom_wired_def)

lemma record_result_calls:
  "prom_wired ns r \<Longrightarrow> pr_calls (record_result hc r) = pr_calls r @ prom_result_calls ns hc"
  by (simp add: record_result_def pr_emit_def Let_def prom_wired_def prom_result_calls_def)

lemma fold_result_frame: "\<exists>calls. fold (\<lambda>(k, hc). record_result hc) m r = r\<lparr>pr_calls := calls\<rparr>"
proof (induction m arbitrary: r)
  case (Cons p m)
  obtain calls where "record_result (snd p) r = r\<lparr>pr_calls := calls\<rparr>"
    using record_result_frame by blast
  with Cons [of "r\<lparr>pr_calls := calls\<rparr>"] show ?case by (auto simp: split_beta)
next
  case Nil
  show ?case by (rule exI [of _ "pr_calls r"]) simp
qed

lemma fold_result_calls:
  "prom_wired ns r \<Longrightarrow> pr_calls (fold (\<lambda>(k, hc). record_result hc) m r) =
     pr_calls r @ concat (map (\<lambda>(k, hc). prom_result_calls ns hc) m)"
proof (induction m arbitrary: r)
  case (Cons p m)
  have "prom_wired ns (record_result (snd p) r)"
    using Cons.prems record_result_frame [of "snd p" r] by auto
  with Cons show ?case by (simp add: split_beta record_result_calls)
qed simp

lemma Prom_Update_fields:
  "Prom_view (Prom_UpdateHealthChecks c m r) = Prom_view r"
  "pr_running (Prom_UpdateHealthChecks c m r) = pr_running r"
  "prom_wired ns (Prom_UpdateHealthChecks c m r) = prom_wired ns r"
  "pr_hcs (Prom_UpdateHealthChecks c m r) =
     (if pr_running r = 0 then pr_hcs r else gomap_absorb m (pr_hcs r))"
  "prom_wired ns r \<Longrightarrow> pr_calls (Prom_UpdateHealthChecks c m r) =
     pr_calls r @ (if pr_running r \<noteq> 0 then concat (map (\<lambda>(k, hc). prom_result_calls ns hc) m) else [])"
proof -
  let ?r = "r\<lparr>pr_hcs := gomap_absorb m (pr_hcs r)\<rparr>"
  obtain calls where c: "fold (\<lambda>(k, hc). record_result hc) m ?r = ?r\<lparr>pr_calls := calls\<rparr>"
    using fold_result_frame by blast
  show "Prom_view (Prom_UpdateHealthChecks c m r) = Prom_view r"
    "pr_running (Prom_UpdateHealthChecks c m r) = pr_running r"
    "prom_wired ns (Prom_UpdateHealthChecks c m r) = prom_wired ns r"
    "pr_hcs (Prom_UpdateHealthChecks c m r) =
       (if pr_running r = 0 then pr_hcs r else gomap_absorb m (pr_hcs r))"
    by (simp_all add: Prom_UpdateHealthChecks_def c Prom_view_def prom_wired_def)
  show "pr_calls (Prom_UpdateHealthChecks c m r) =
     pr_calls r @ (if pr_running r \<noteq> 0 then concat (map (\<lambda>(k, hc). prom_result_calls ns hc) m) else [])"
    if "prom_wired ns r"
    using that fold_result_calls [of ns ?r m] by (simp add: Prom_UpdateHealthChecks_def prom_wired_def)
qed

interpretation prom_rep: reporter_store Prom_ops Prom_view
    "\<lambda>r. gomap_get (pr_hcs r)" "\<lambda>r. pr_running r \<noteq> 0"
  by unfold_locales
    (auto simp: Prom_method_defs Prom_Update_fields Let_def gomap_absorb_single gomap_get_put, auto simp: Prom_view_def)

lemma float64_bool [simp]: "float64 (of_bool b) = of_bool b"
  using float64_int [of "of_bool b"] by (cases b) simp_all

interpretation prom_metrics: metric_reporter Prom_ops pr_calls "\<lambda>r. pr_running r \<noteq> 0"
    "\<lambda>b. [GaugeSet (live_collector ns) [] (of_bool b)]" "\<lambda>b. [GaugeSet (ready_collector ns) [] (of_bool b)]"
    "\<lambda>b. [GaugeSet (start_collector ns) [] (of_bool b)]" "prom_result_calls ns" "prom_wired ns" for ns
proof unfold_locales
  fix r :: "'a PromReporter" and c call
  assume "prom_wired ns r"
  then show "prom_wired ns (do_call Prom_ops c call r)"
    by (cases call) (auto simp: Prom_method_defs Prom_Update_fields Let_def, auto simp: prom_wired_def)
qed (auto simp: Prom_method_defs Prom_Update_fields(1-4) Prom_Update_fields(5) [where ns = ns] Let_def prom_wired_def flag_def
    float64_bool [of True, simplified] float64_bool [of False, simplified])

section \<open>What a scrape shows\<close>

text \<open>
  The value of a gauge is the last one it was set to, and the value of a counter the number of
  increments, as the documentation of the client library has it.
\<close>

fun is_set :: "collector \<Rightarrow> labels \<Rightarrow> prom_call \<Rightarrow> bool" where
  "is_set co ls (GaugeSet co' ls' v) \<longleftrightarrow> co' = co \<and> ls' = ls"
| "is_set co ls (CounterInc co' ls') \<longleftrightarrow> False"

fun is_inc :: "collector \<Rightarrow> labels \<Rightarrow> prom_call \<Rightarrow> bool" where
  "is_inc co ls (GaugeSet co' ls' v) \<longleftrightarrow> False"
| "is_inc co ls (CounterInc co' ls') \<longleftrightarrow> co' = co \<and> ls' = ls"

fun set_value :: "prom_call \<Rightarrow> rat" where
  "set_value (GaugeSet co ls v) = v"
| "set_value (CounterInc co ls) = 0"

definition last_of :: "'a list \<Rightarrow> 'a option" where
  "last_of xs = (if xs = [] then None else Some (last xs))"

definition gauge_value :: "collector \<Rightarrow> labels \<Rightarrow> prom_call list \<Rightarrow> rat option" where
  "gauge_value co ls calls = map_option set_value (last_of (filter (is_set co ls) calls))"

definition counter_value :: "collector \<Rightarrow> labels \<Rightarrow> prom_call list \<Rightarrow> nat" where
  "counter_value co ls calls = length (filter (is_inc co ls) calls)"

lemma map_last_of: "map_option f (last_of xs) = last_of (map f xs)"
  by (simp add: last_of_def last_map)

lemmas collector_defs = status_collector_def duration_collector_def count_collector_def live_collector_def
  ready_collector_def start_collector_def

lemma Prom_new_wired:
  assumes "Prom_NewReporter env cfg = Inr r"
  shows "prom_wired (pc_Namespace cfg) r" "pr_calls r = []" "pr_running r = 0"
    "pr_live r = 0" "pr_ready r = 0" "pr_startup r = 0"
  using assms by (auto simp: Prom_NewReporter_def Let_def prom_wired_def split: sum.splits)

lemma concat_filter_results:
  assumes "\<And>hc. filter P (f hc) = (if Q hc then [g hc] else [])"
  shows "concat (map (\<lambda>hc. filter P (f hc)) hcs) = map g (filter Q hcs)"
  by (induction hcs) (auto simp: assms)

text \<open>The gauges and counters that only results touch, after a history.\<close>

lemma prom_results_only:
  assumes "Prom_NewReporter env cfg = Inr r"
    and "\<And>hc. filter P (prom_result_calls (pc_Namespace cfg) hc) = (if Q hc then [g hc] else [])"
    and "\<And>b co. co \<in> {live_collector (pc_Namespace cfg), ready_collector (pc_Namespace cfg), start_collector (pc_Namespace cfg)}
      \<Longrightarrow> \<not> P (GaugeSet co [] (of_bool b))"
  shows "filter P (pr_calls (fold (do_call Prom_ops c) calls r)) = map g (filter Q (relayed False calls))"
proof -
  note w = Prom_new_wired [OF assms(1)]
  have "filter P (pr_calls (fold (do_call Prom_ops c) calls r)) =
      concat (map (\<lambda>hc. filter P (prom_result_calls (pc_Namespace cfg) hc)) (relayed False calls))"
    using prom_metrics.emitted_results [OF w(1), of P c calls] assms(3) by (simp add: w)
  then show ?thesis by (simp add: concat_filter_results [OF assms(2)])
qed

lemma Milliseconds_float:
  assumes "0 < d" "d < 2 ^ 63"
  shows "float64 (of_int (Milliseconds d)) = of_int (d div 10 ^ 6)"
proof -
  have "d div 10 ^ 6 < 2 ^ 53" "0 \<le> d div 10 ^ 6" using assms by simp_all
  then have "float64 (of_int (d div 10 ^ 6)) = of_int (d div 10 ^ 6)" by (intro float64_int) simp
  with assms show ?thesis by (simp add: Milliseconds_def Millisecond_def)
qed

lemma statusVal_cases: "statusVal st = (case st of StatusHealthy \<Rightarrow> 2 | StatusDegraded \<Rightarrow> 1 | _ \<Rightarrow> 0)"
  by (cases st) simp_all

definition demo_prom :: "unit prom_env" where
  "demo_prom = \<lparr>pe_NewRegistry = (), pe_MustRegister = (\<lambda>cs g. Inr g)\<rparr>"

definition demo_prom_cfg :: "unit PromConfig" where
  "demo_prom_cfg = \<lparr>pc_Registry = None, pc_Namespace = ''app'', pc_Logger = None\<rparr>"

text \<open>
  C25: what a scrape of the Prometheus reporter shows after any history of calls since it was
  created: for every combination of labels the execution counter is the number of results with
  those labels and that status that were relayed while the reporter was running, the status gauge is
  2, 1 or 0 as the last of them is healthy, degraded or neither, and the duration gauge is the exact number of whole milliseconds of
  the last of them that has a positive duration (durations being 64-bit numbers of nanoseconds).
\<close>

theorem prometheus_scrape:
  assumes "Prom_NewReporter env cfg = Inr r" "\<forall>hc \<in> set (relayed False calls). hc_Duration hc < 2 ^ 63"
    and "calls' = pr_calls (fold (do_call Prom_ops c) calls r)" "ns = pc_Namespace cfg"
  shows "counter_value (count_collector ns) (ls @ [(''status'', st)]) calls' =
      length (filter (\<lambda>hc. result_labels hc = ls \<and> Status_String (hc_Status hc) = st) (relayed False calls)) \<and>
    gauge_value (status_collector ns) ls calls' =
      map_option (\<lambda>hc. case hc_Status hc of StatusHealthy \<Rightarrow> 2 | StatusDegraded \<Rightarrow> 1 | _ \<Rightarrow> 0)
        (last_of (filter (\<lambda>hc. result_labels hc = ls) (relayed False calls))) \<and>
    gauge_value (duration_collector ns) ls calls' =
      map_option (\<lambda>hc. of_int (hc_Duration hc div 10 ^ 6))
        (last_of (filter (\<lambda>hc. result_labels hc = ls \<and> hc_Duration hc > 0) (relayed False calls)))"
proof (intro conjI)
  note only = prom_results_only [OF assms(1), folded assms(4), of _ _ _ c calls, folded assms(3)]
  show "counter_value (count_collector ns) (ls @ [(''status'', st)]) calls' =
      length (filter (\<lambda>hc. result_labels hc = ls \<and> Status_String (hc_Status hc) = st) (relayed False calls))"
    unfolding counter_value_def
    by (subst only [where Q = "\<lambda>hc. result_labels hc = ls \<and> Status_String (hc_Status hc) = st" and
        g = "\<lambda>hc. CounterInc (count_collector ns) (ls @ [(''status'', st)])"])
      (auto simp: prom_result_calls_def)
  show "gauge_value (status_collector ns) ls calls' =
      map_option (\<lambda>hc. case hc_Status hc of StatusHealthy \<Rightarrow> 2 | StatusDegraded \<Rightarrow> 1 | _ \<Rightarrow> 0)
        (last_of (filter (\<lambda>hc. result_labels hc = ls) (relayed False calls)))"
    unfolding gauge_value_def statusVal_cases [symmetric]
    by (subst only [where Q = "\<lambda>hc. result_labels hc = ls" and
        g = "\<lambda>hc. GaugeSet (status_collector ns) ls (statusVal (hc_Status hc))"])
      (auto simp: prom_result_calls_def collector_defs map_last_of comp_def)
  have "gauge_value (duration_collector ns) ls calls' =
      map_option (\<lambda>hc. float64 (of_int (Milliseconds (hc_Duration hc))))
        (last_of (filter (\<lambda>hc. result_labels hc = ls \<and> hc_Duration hc > 0) (relayed False calls)))"
    unfolding gauge_value_def
    by (subst only [where Q = "\<lambda>hc. result_labels hc = ls \<and> hc_Duration hc > 0" and
        g = "\<lambda>hc. GaugeSet (duration_collector ns) ls (float64 (of_int (Milliseconds (hc_Duration hc))))"])
      (auto simp: prom_result_calls_def collector_defs map_last_of comp_def)
  also have "\<dots> = map_option (\<lambda>hc. of_int (hc_Duration hc div 10 ^ 6))
        (last_of (filter (\<lambda>hc. result_labels hc = ls \<and> hc_Duration hc > 0) (relayed False calls)))"
    unfolding map_last_of using assms(2)
    by (intro arg_cong [where f = last_of] map_cong refl) (use Milliseconds_float in force)
  finally show "gauge_value (duration_collector ns) ls calls' =
      map_option (\<lambda>hc. of_int (hc_Duration hc div 10 ^ 6))
        (last_of (filter (\<lambda>hc. result_labels hc = ls \<and> hc_Duration hc > 0) (relayed False calls)))" .
qed

theorem prometheus_scrape_witness:
  "\<exists>r. Prom_NewReporter demo_prom demo_prom_cfg = Inr r \<and>
    counter_value (count_collector ''app'') (result_labels CheckResult_zero @ [(''status'', ''healthy'')])
      (pr_calls (fold (do_call Prom_ops CtxActive)
        [CallRun, CallUpdate [(''db'', CheckResult_zero)], CallUpdate [(''db'', CheckResult_zero)], CallStop] r)) = 2"
proof -
  obtain r where r: "Prom_NewReporter demo_prom demo_prom_cfg = Inr r"
    by (simp add: demo_prom_def Prom_NewReporter_def Let_def)
  have d: "hc_Duration CheckResult_zero = 0" "hc_Status CheckResult_zero = StatusHealthy"
    by (simp_all add: CheckResult_zero_def)
  show ?thesis
    using r prometheus_scrape [OF r _ refl refl, where c = CtxActive and st = "''healthy''" and
      ls = "result_labels CheckResult_zero" and
      calls = "[CallRun, CallUpdate [(''db'', CheckResult_zero)], CallUpdate [(''db'', CheckResult_zero)], CallStop]"]
    by (simp add: d demo_prom_cfg_def)
qed

end
