(* ===== verification/All_Reporters.thy ===== *)
theory All_Reporters
  imports Http_System Test_Report_Json Stdout_Reporter Otel_Reporter Prometheus_Reporter
begin

text \<open>
  A manager with reporters of all kinds side by side: a value of the interface \<^verbatim>\<open>health.Reporter\<close> that holds
  one of the repository's reporters dispatches each method to it.  The interpretations of the single
  reporters give those of the mix, and with them what every kind of reporter tells its audience.
\<close>

datatype ('g, 'p) any_reporter =
  RTest TestReporter | RHttp HttpReporter | RStdout StdoutReporter | RGrpc "'g GrpcReporter"
  | ROtel OtelReporter | RProm "'p PromReporter"

text \<open>What the methods depend on: the HTTP server's and the gRPC server's environment and the orders of \<^verbatim>\<open>range\<close>.\<close>

record 'g mix_env =
  mx_http :: server_env
  mx_grpc :: "'g grpc_env"
  mx_ord :: "string rorder"
  mx_copy :: "string rorder"

fun any_map ::
    "(TestReporter \<Rightarrow> TestReporter) \<Rightarrow> (HttpReporter \<Rightarrow> HttpReporter) \<Rightarrow> (StdoutReporter \<Rightarrow> StdoutReporter) \<Rightarrow>
     ('g GrpcReporter \<Rightarrow> 'g GrpcReporter) \<Rightarrow> (OtelReporter \<Rightarrow> OtelReporter) \<Rightarrow> ('p PromReporter \<Rightarrow> 'p PromReporter) \<Rightarrow>
     ('g, 'p) any_reporter \<Rightarrow> ('g, 'p) any_reporter" where
  "any_map ft fh fs fg fo fp (RTest r) = RTest (ft r)"
| "any_map ft fh fs fg fo fp (RHttp r) = RHttp (fh r)"
| "any_map ft fh fs fg fo fp (RStdout r) = RStdout (fs r)"
| "any_map ft fh fs fg fo fp (RGrpc r) = RGrpc (fg r)"
| "any_map ft fh fs fg fo fp (ROtel r) = ROtel (fo r)"
| "any_map ft fh fs fg fo fp (RProm r) = RProm (fp r)"

fun Any_Run :: "'g mix_env \<Rightarrow> ctx \<Rightarrow> ('g, 'p) any_reporter \<Rightarrow> go_error option \<times> ('g, 'p) any_reporter" where
  "Any_Run env c (RTest r) = apsnd RTest (TestReporter_Run c r)"
| "Any_Run env c (RHttp r) = apsnd RHttp (Http_Run (mx_http env) c r)"
| "Any_Run env c (RStdout r) = apsnd RStdout (Stdout_Run c r)"
| "Any_Run env c (RGrpc r) = apsnd RGrpc (Grpc_Run (mx_grpc env) c r)"
| "Any_Run env c (ROtel r) = apsnd ROtel (Otel_Run c r)"
| "Any_Run env c (RProm r) = apsnd RProm (Prom_Run c r)"

fun Any_Stop :: "'g mix_env \<Rightarrow> ctx \<Rightarrow> ('g, 'p) any_reporter \<Rightarrow> go_error option \<times> ('g, 'p) any_reporter" where
  "Any_Stop env c (RTest r) = apsnd RTest (TestReporter_Stop c r)"
| "Any_Stop env c (RHttp r) = apsnd RHttp (Http_Stop (mx_http env) c r)"
| "Any_Stop env c (RStdout r) = apsnd RStdout (Stdout_Stop c r)"
| "Any_Stop env c (RGrpc r) = apsnd RGrpc (Grpc_Stop (mx_grpc env) c r)"
| "Any_Stop env c (ROtel r) = apsnd ROtel (Otel_Stop c r)"
| "Any_Stop env c (RProm r) = apsnd RProm (Prom_Stop c r)"

definition Any_ops :: "'g mix_env \<Rightarrow> ('g, 'p) any_reporter Reporter_ops" where
  "Any_ops env = \<lparr>r_Run = Any_Run env, r_Stop = Any_Stop env,
     r_SetLiveness = (\<lambda>c b. any_map (TestReporter_SetLiveness c b) (Http_SetLiveness c b) (Stdout_SetLiveness c b)
       (Grpc_SetLiveness c b) (Otel_SetLiveness c b) (Prom_SetLiveness c b)),
     r_SetReadiness = (\<lambda>c b. any_map (TestReporter_SetReadiness c b) (Http_SetReadiness c b) (Stdout_SetReadiness c b)
       (Grpc_SetReadiness c b) (Otel_SetReadiness c b) (Prom_SetReadiness c b)),
     r_SetStartup = (\<lambda>c b. any_map (TestReporter_SetStartup c b) (Http_SetStartup c b) (Stdout_SetStartup c b)
       (Grpc_SetStartup c b) (Otel_SetStartup c b) (Prom_SetStartup c b)),
     r_UpdateHealthChecks = (\<lambda>c m. any_map (TestReporter_UpdateHealthChecks c m)
       (Http_UpdateHealthChecks (mx_http env) (mx_ord env) c m)
       (Stdout_UpdateHealthChecks (mx_copy env) (mx_ord env) c m) (Grpc_UpdateHealthChecks c m)
       (Otel_UpdateHealthChecks c m) (Prom_UpdateHealthChecks c m))\<rparr>"

text \<open>\<^verbatim>\<open>FromReporter\<close> of \<^verbatim>\<open>reporter/test\<close>: a type assertion on the interface value.\<close>

fun FromReporter :: "('g, 'p) any_reporter \<Rightarrow> TestReporter \<times> bool" where
  "FromReporter (RTest r) = (r, True)"
| "FromReporter _ = (TestReporter_zero, False)"

fun any_view :: "('g, 'p) any_reporter \<Rightarrow> probes" where
  "any_view (RTest r) = TestReporter_view r"
| "any_view (RHttp r) = HttpReporter_view r"
| "any_view (RStdout r) = Stdout_view r"
| "any_view (RGrpc r) = Grpc_view r"
| "any_view (ROtel r) = Otel_view r"
| "any_view (RProm r) = Prom_view r"

fun any_stored :: "('g, 'p) any_reporter \<Rightarrow> string \<Rightarrow> CheckResult option" where
  "any_stored (RTest r) = gomap_get (t_hc r)"
| "any_stored (RHttp r) = gomap_get (h_hcs r)"
| "any_stored (RStdout r) = Map_Get (so_healthChecks r)"
| "any_stored (RGrpc r) = gomap_get (gr_hcs r)"
| "any_stored (ROtel r) = gomap_get (ot_hcs r)"
| "any_stored (RProm r) = gomap_get (pr_hcs r)"

fun any_accepts :: "('g, 'p) any_reporter \<Rightarrow> bool" where
  "any_accepts (RHttp r) = (h_running r \<noteq> 0)"
| "any_accepts (ROtel r) = (ot_running r \<noteq> 0)"
| "any_accepts (RProm r) = (pr_running r \<noteq> 0)"
| "any_accepts _ = True"

lemma Any_ops_simps [simp]:
  "r_Run (Any_ops env) = Any_Run env" "r_Stop (Any_ops env) = Any_Stop env"
  "r_SetLiveness (Any_ops env) c b = any_map (TestReporter_SetLiveness c b) (Http_SetLiveness c b) (Stdout_SetLiveness c b)
       (Grpc_SetLiveness c b) (Otel_SetLiveness c b) (Prom_SetLiveness c b)"
  "r_SetReadiness (Any_ops env) c b = any_map (TestReporter_SetReadiness c b) (Http_SetReadiness c b) (Stdout_SetReadiness c b)
       (Grpc_SetReadiness c b) (Otel_SetReadiness c b) (Prom_SetReadiness c b)"
  "r_SetStartup (Any_ops env) c b = any_map (TestReporter_SetStartup c b) (Http_SetStartup c b) (Stdout_SetStartup c b)
       (Grpc_SetStartup c b) (Otel_SetStartup c b) (Prom_SetStartup c b)"
  "r_UpdateHealthChecks (Any_ops env) c m = any_map (TestReporter_UpdateHealthChecks c m)
       (Http_UpdateHealthChecks (mx_http env) (mx_ord env) c m)
       (Stdout_UpdateHealthChecks (mx_copy env) (mx_ord env) c m) (Grpc_UpdateHealthChecks c m)
       (Otel_UpdateHealthChecks c m) (Prom_UpdateHealthChecks c m)"
  by (simp_all add: Any_ops_def)

lemmas any_view_laws = test_rep.view_laws [simplified] http_rep.view_laws [simplified] stdout_rep.view_laws [simplified]
  grpc_rep.view_laws [simplified] otel_rep.view_laws [simplified] prom_rep.view_laws [simplified]

lemmas any_store_laws = test_rep.store_laws [simplified] http_rep.store_laws [simplified] stdout_rep.store_laws [simplified]
  grpc_rep.store_laws [simplified] otel_rep.store_laws [simplified] prom_rep.store_laws [simplified]

lemmas any_update_laws = test_rep.stored_Update [simplified] http_rep.stored_Update [simplified]
  stdout_rep.stored_Update [simplified] grpc_rep.stored_Update [simplified] otel_rep.stored_Update [simplified]
  prom_rep.stored_Update [simplified]

lemmas any_run_laws = http_rep.accepts_Run [simplified] otel_rep.accepts_Run [simplified] prom_rep.accepts_Run [simplified]

interpretation any_rep: reporter_store "Any_ops env" any_view any_stored any_accepts
  for env :: "'g mix_env"
proof unfold_locales
  fix c m b k hc and r :: "('g, 'p) any_reporter"
  show "any_view (snd (r_Run (Any_ops env) c r)) = any_view r" by (cases r) (simp_all add: any_view_laws)
  show "any_view (snd (r_Stop (Any_ops env) c r)) = any_view r" by (cases r) (simp_all add: any_view_laws)
  show "any_view (r_SetLiveness (Any_ops env) c b r) = (any_view r)\<lparr>p_live := b\<rparr>"
    by (cases r) (simp_all add: any_view_laws)
  show "any_view (r_SetReadiness (Any_ops env) c b r) = (any_view r)\<lparr>p_ready := b\<rparr>"
    by (cases r) (simp_all add: any_view_laws)
  show "any_view (r_SetStartup (Any_ops env) c b r) = (any_view r)\<lparr>p_startup := b\<rparr>"
    by (cases r) (simp_all add: any_view_laws)
  show "any_view (r_UpdateHealthChecks (Any_ops env) c m r) = any_view r" by (cases r) (simp_all add: any_view_laws)
  show "any_stored (r_UpdateHealthChecks (Any_ops env) c [(k, hc)] r) = (any_stored r)(k \<mapsto> hc)" if "any_accepts r"
    using that by (cases r) (simp_all add: any_update_laws)
  show "any_stored (r_SetLiveness (Any_ops env) c b r) = any_stored r"
    "any_stored (r_SetReadiness (Any_ops env) c b r) = any_stored r"
    "any_stored (r_SetStartup (Any_ops env) c b r) = any_stored r"
    by (cases r; simp add: any_store_laws)+
  show "any_accepts (r_UpdateHealthChecks (Any_ops env) c m r) = any_accepts r"
    "any_accepts (r_SetLiveness (Any_ops env) c b r) = any_accepts r"
    "any_accepts (r_SetReadiness (Any_ops env) c b r) = any_accepts r"
    "any_accepts (r_SetStartup (Any_ops env) c b r) = any_accepts r"
    by (cases r; simp add: any_store_laws)+
  show "any_accepts (snd (r_Run (Any_ops env) c r))" if "fst (r_Run (Any_ops env) c r) = None"
    using that by (cases r) (simp_all add: any_run_laws)
qed

section \<open>Invariants of the mix\<close>

text \<open>The probe gauges of a Prometheus reporter show its flags, once they were set.\<close>

definition gauge_shows :: "collector \<Rightarrow> uint32 \<Rightarrow> prom_call list \<Rightarrow> bool" where
  "gauge_shows co flg calls \<longleftrightarrow>
     (case gauge_value co [] calls of None \<Rightarrow> flg = 0 | Some v \<Rightarrow> v = (if flg = 1 then 1 else 0) \<and> flg \<in> {0, 1})"

definition prom_inv :: "string \<Rightarrow> 'p PromReporter \<Rightarrow> bool" where
  "prom_inv ns r \<longleftrightarrow> prom_wired ns r \<and> gauge_shows (live_collector ns) (pr_live r) (pr_calls r) \<and>
     gauge_shows (ready_collector ns) (pr_ready r) (pr_calls r) \<and> gauge_shows (start_collector ns) (pr_startup r) (pr_calls r)"

lemma gauge_value_snoc:
  "gauge_value co ls (calls @ [GaugeSet co' ls' v]) = (if co' = co \<and> ls' = ls then Some v else gauge_value co ls calls)"
  "gauge_value co ls (calls @ [CounterInc co' ls']) = gauge_value co ls calls"
  by (simp_all add: gauge_value_def last_of_def)

lemma gauge_shows_snoc:
  "gauge_shows co (flag b) (calls @ [GaugeSet co [] (float64 (of_int (uint (flag b))))])"
  "co' \<noteq> co \<Longrightarrow> gauge_shows co f (calls @ [GaugeSet co' [] v]) = gauge_shows co f calls"
  using float64_bool [of True] float64_bool [of False]
  by (auto simp: gauge_shows_def gauge_value_snoc flag_def)

lemma gauge_shows_results:
  "co \<in> {live_collector ns, ready_collector ns, start_collector ns} \<Longrightarrow>
   gauge_shows co f (calls @ concat (map (\<lambda>(k, hc). prom_result_calls ns hc) m)) = gauge_shows co f calls"
proof -
  assume co: "co \<in> {live_collector ns, ready_collector ns, start_collector ns}"
  have "filter (is_set co []) (prom_result_calls ns hc) = []" for hc
    using co by (auto simp: prom_result_calls_def collector_defs)
  then have "filter (is_set co []) (concat (map (\<lambda>(k, hc). prom_result_calls ns hc) m)) = []"
    by (induction m) auto
  then show ?thesis by (simp add: gauge_shows_def gauge_value_def)
qed

lemma collectors_differ:
  "live_collector ns \<noteq> ready_collector ns" "live_collector ns \<noteq> start_collector ns" "ready_collector ns \<noteq> start_collector ns"
  by (simp_all add: collector_defs)

lemma prom_inv_set:
  assumes "prom_inv ns r"
  shows "prom_inv ns (Prom_SetLiveness c b r)" "prom_inv ns (Prom_SetReadiness c b r)" "prom_inv ns (Prom_SetStartup c b r)"
  using assms collectors_differ [of ns] collectors_differ [of ns, symmetric]
  by (simp_all add: prom_inv_def Prom_method_defs Let_def prom_wired_def gauge_shows_snoc gauge_shows_snoc(1) [simplified])

lemma prom_inv_update: "prom_inv ns r \<Longrightarrow> prom_inv ns (Prom_UpdateHealthChecks c m r)"
proof -
  assume r: "prom_inv ns r"
  have f: "pr_live (Prom_UpdateHealthChecks c m r) = pr_live r" "pr_ready (Prom_UpdateHealthChecks c m r) = pr_ready r"
    "pr_startup (Prom_UpdateHealthChecks c m r) = pr_startup r"
    using fold_result_frame [of m "r\<lparr>pr_hcs := gomap_absorb m (pr_hcs r)\<rparr>"]
    by (auto simp: Prom_UpdateHealthChecks_def)
  have "prom_wired ns r" using r by (simp add: prom_inv_def)
  with r show ?thesis
    by (simp add: prom_inv_def f Prom_Update_fields(3) Prom_Update_fields(5) [where ns = ns] gauge_shows_results)
qed

fun any_inv :: "'g mix_env \<Rightarrow> string \<Rightarrow> ('g, 'p) any_reporter \<Rightarrow> bool" where
  "any_inv env ns (RHttp r) \<longleftrightarrow> range_order (mx_ord env) \<and> http_inv (mx_http env) r"
| "any_inv env ns (RGrpc r) \<longleftrightarrow> grpc_flags r \<and> gomap_wf (gr_hcs r)"
| "any_inv env ns (RProm r) \<longleftrightarrow> prom_inv ns r"
| "any_inv env ns _ \<longleftrightarrow> True"

interpretation any_invariant: reporter_invariant "Any_ops env" "any_inv env ns" for env :: "'g mix_env" and ns
proof unfold_locales
  fix c m b and r :: "('g, 'p) any_reporter"
  assume r: "any_inv env ns r"
  note h = http_invariant.inv_laws [where ord = "mx_ord env" and env = "mx_http env", unfolded HttpReporter_ops_simps]
  note g = grpc_invariant.inv_laws [where env = "mx_grpc env", unfolded Grpc_ops_simps]
  show "any_inv env ns (snd (r_Run (Any_ops env) c r))"
  proof (cases r)
    case (RProm p)
    then show ?thesis using r by (simp add: Prom_Run_def prom_inv_def prom_wired_def)
  qed (use r h(1) g(1) in auto)
  show "any_inv env ns (snd (r_Stop (Any_ops env) c r))"
  proof (cases r)
    case (RProm p)
    then show ?thesis using r by (simp add: Prom_Stop_def prom_inv_def prom_wired_def)
  qed (use r h(2) g(2) in auto)
  show "any_inv env ns (r_SetLiveness (Any_ops env) c b r)"
    using r h(3) g(3) prom_inv_set(1) by (cases r) auto
  show "any_inv env ns (r_SetReadiness (Any_ops env) c b r)"
    using r h(4) g(4) prom_inv_set(2) by (cases r) auto
  show "any_inv env ns (r_SetStartup (Any_ops env) c b r)"
    using r h(5) g(5) prom_inv_set(3) by (cases r) auto
  show "any_inv env ns (r_UpdateHealthChecks (Any_ops env) c m r)"
    using r h(6) g(6) prom_inv_update by (cases r) auto
qed

section \<open>All audiences hear the same\<close>

text \<open>Reporters as their constructors make them: of one HTTP, one gRPC configuration and one namespace.\<close>

fun any_fresh ::
    "HttpReporter \<Rightarrow> 'g grpc_env \<Rightarrow> 'g GrpcConfig \<Rightarrow> string \<Rightarrow> ('g, 'p) any_reporter \<Rightarrow> bool" where
  "any_fresh r0 ge gcfg ns (RTest r) \<longleftrightarrow> r = TestReporter_zero"
| "any_fresh r0 ge gcfg ns (RHttp r) \<longleftrightarrow> r = r0"
| "any_fresh r0 ge gcfg ns (RStdout r) \<longleftrightarrow> Stdout_view r = probes_down"
| "any_fresh r0 ge gcfg ns (RGrpc r) \<longleftrightarrow> r = Grpc_NewReporter ge gcfg"
| "any_fresh r0 ge gcfg ns (ROtel r) \<longleftrightarrow> (\<exists>cfg. Otel_NewReporter cfg = Inr r)"
| "any_fresh r0 ge gcfg ns (RProm r) \<longleftrightarrow> (\<exists>pe cfg. Prom_NewReporter pe cfg = Inr r \<and> pc_Namespace cfg = ns)"

lemma any_fresh_view:
  assumes "any_fresh r0 ge gcfg ns r" "newFromConfig env ord now cfg = Some (r0, serve)"
  shows "any_view r = probes_down"
proof (cases r)
  case (RProm p)
  then show ?thesis using assms(1) by (auto simp: Prom_new_wired Prom_view_def probes_down_def)
next
  case (ROtel p)
  then show ?thesis using assms(1) by (auto simp: Otel_new_wired)
qed (use assms(1) newFromConfig_fresh(2) [OF assms(2)] in
  \<open>auto simp: Grpc_fresh TestReporter_view_def TestReporter_zero_def probes_down_def\<close>)

lemma any_fresh_inv:
  assumes "any_fresh r0 ge gcfg ns r" "newFromConfig (mx_http env) ord now cfg = Some (r0, serve)" "range_order (mx_ord env)"
  shows "any_inv env ns r"
proof (cases r)
  case (RProm p)
  have "gauge_shows co 0 []" for co by (simp add: gauge_shows_def gauge_value_def last_of_def)
  then show ?thesis using assms(1) RProm by (auto simp: prom_inv_def Prom_new_wired)
qed (use assms newFromConfig_fresh(1) [OF assms(2)] in \<open>auto simp: Grpc_fresh grpc_flags_new\<close>)


definition mix_demo :: "bool mix_env" where
  "mix_demo = \<lparr>mx_http = demo_server, mx_grpc = demo_grpc, mx_ord = id, mx_copy = id\<rparr>"

definition mix_setup :: "(check_outcome, (bool, unit) any_reporter) event list" where
  "mix_setup = [EAddCheck ''db'' (Returned (Some CheckResult_zero)) [WithReadinessImpact],
     EAddReporter ''http'' (RHttp http_zero), EAddReporter ''grpc'' (RGrpc (Grpc_NewReporter demo_grpc demo_grpc_cfg)),
     EAddReporter ''test'' (RTest TestReporter_zero)]"

definition mix_final :: "(check_outcome, (bool, unit) any_reporter) sys option" where
  "mix_final = sys_run (Any_ops mix_demo) fixed_check (mix_setup @ until_reported) (sys_init None)"

lemma mix_run:
  obtains t g where "mix_final = Some t" "Map_Get (reporters (s_mgr t)) ''grpc'' = Some (RGrpc g)"
    "isLive (s_mgr t)" "isReady (s_mgr t)"
proof -
  have "(case mix_final of None \<Rightarrow> False
      | Some t \<Rightarrow> (case Map_Get (reporters (s_mgr t)) ''grpc'' of Some (RGrpc g) \<Rightarrow> isLive (s_mgr t) \<and> isReady (s_mgr t)
          | _ \<Rightarrow> False)) = True"
    by code_simp
  then show ?thesis using that by (auto split: option.splits any_reporter.splits)
qed


end
