(* ===== verification/Spec2Isabelle.thy ===== *)
theory Spec2Isabelle
  imports System_Properties Cached_Checker Render All_Checkers Http_Endpoints All_Reporters
begin

text \<open>
  Verification of the Go module \<^verbatim>\<open>github.com/schigh/health\<close>: health checks, the manager that runs
  them, the reporters that tell the outside world, and the discovery of services by their manifests.

  \<^bold>\<open>The program.\<close>  A \<^verbatim>\<open>std.Manager\<close> (\<^verbatim>\<open>manager/std/manager.go\<close>) is given checkers and reporters.  \<^verbatim>\<open>Run\<close> starts
  the reporters and one goroutine per check; the goroutines call the checkers, at intervals or once,
  and send the results through a channel (the funnel) to the manager's loop, which stores a tally of
  each result, relays the result to all reporters, and re-evaluates startup, liveness and readiness,
  telling the reporters when one of them changes.  Reporters show the probes and the results over HTTP,
  gRPC, Prometheus, OpenTelemetry or the standard output.  The HTTP reporter also serves a manifest,
  which the \<^verbatim>\<open>discovery\<close> package of other services fetches to draw the graph of dependencies.

  \<^bold>\<open>The theories.\<close>
  \<^item> \<open>Go_Prelude\<close>: what the code uses of Go: 32-bit flags and atomic operations, errors with wrapping,
    contexts, strings, maps with an unspecified order of \<^verbatim>\<open>range\<close> (a parameter of every definition that
    ranges over a map).  \<open>Go_Float\<close>: the rounding of \<^verbatim>\<open>float64\<close>.
  \<^item> \<open>Sync_Map\<close>: \<^verbatim>\<open>internal/syncmap\<close>; its methods hold the lock, so each is one step.  Locale \<open>go_map\<close>.
  \<^item> \<open>Health_Core\<close>: \<^verbatim>\<open>check.go\<close>, \<^verbatim>\<open>checker.go\<close>, \<^verbatim>\<open>logger.go\<close>.  \<open>Reporter_Interface\<close>: the interface
    \<^verbatim>\<open>health.Reporter\<close> as a record of operations, with the locales \<open>reporter\<close> (three probes that only
    their setters change) and \<open>reporter_store\<close> (relayed results are kept).
  \<^item> \<open>Manager_Std\<close>: every function of the manager on the record \<open>Manager\<close>, in the order of the source; a
    goroutine is a record with a program point.  \<open>Manager_Fitness\<close> computes their effect,
    \<open>Manager_Spec\<close> has the abstract specification (the probes as functions of the latest results), and
    \<open>Manager_Sync\<close> the manager as a client of the reporter interface.
  \<^item> \<open>Manager_System\<close>: the user's calls, the loop, the goroutines and the cancellation of the context
    interleaved in any order (\<open>sys_event\<close>, \<open>reach\<close>); \<open>Manager_Safety\<close> and \<open>Manager_Progress\<close> prove
    the invariants, \<open>Reporter_Invariants\<close> carries invariants of reporters through every history.
  \<^item> \<open>Manager_Properties\<close>, \<open>System_Properties\<close>: the properties of the manager alone and of the system.
  \<^item> \<open>Cached_Checker\<close>: \<^verbatim>\<open>cached.go\<close>, sequentially and for any number of concurrent callers.
    \<open>Checkers\<close>, \<open>Redis_Checker\<close>: the packages under \<^verbatim>\<open>checker/\<close>; locale \<open>checker_contract\<close> is what they promise
    to the manager, and \<open>All_Checkers\<close> dispatches over them.
  \<^item> \<open>Discovery\<close>, \<open>Manifest_Json\<close>, \<open>Render\<close>: the package \<^verbatim>\<open>discovery\<close>: manifests and their JSON, the walk over
    the services and the two renderings.
  \<^item> \<open>Test_Reporter\<close>, \<open>Test_Report_Json\<close>, \<open>Stdout_Reporter\<close>, \<open>Grpc_Reporter\<close>, \<open>Otel_Reporter\<close>,
    \<open>Prometheus_Reporter\<close>, and for \<^verbatim>\<open>reporter/httpserver\<close> \<open>Http_Server\<close> (cache, writers, middleware) and
    \<open>Http_Reporter\<close> (configuration, methods, handlers, routes): the reporters, each an interpretation of
    \<open>reporter_store\<close>; the metric reporters are interpretations of \<open>metric_reporter\<close> in
    \<open>Metric_Interface\<close>, too.
  \<^item> \<open>Http_Properties\<close>, \<open>Http_System\<close>, \<open>Http_Endpoints\<close>, \<open>All_Reporters\<close>: requests through the whole chain of
    handlers, the manager with HTTP and gRPC reporters and with all kinds of reporters at once.

  \<^bold>\<open>What is shown.\<close>  The probes are exactly what the latest results say (functional correctness and
  refinement of the specification, for every order of \<^verbatim>\<open>range\<close>); in every interleaving readiness is
  justified, results come from registered checks, nothing but a non-positive interval brings the
  process down, no sender is stuck, startup is sticky; all reporters, of any kind and mix, show what
  the manager holds, up to the status code of an HTTP probe, the gRPC status, the scraped gauges and the
  fetched manifest.  Cached results are fresh and refreshes spaced; checkers report their
  dependencies as they are; the Redis dialogue is well formed, independent of packets and
  terminating; the discovered graph is exact, with one request per node; JSON of manifests survives
  the wire; the metrics count and show what was relayed; the printed table is aligned; basic
  authentication guards everything behind it.  Some theorems pin down where the code does less than
  its comments say: a startup impact alone never blocks startup, the initial liveness can overtake a
  failed check, and a stopped gRPC reporter cannot be restarted.

  \<^bold>\<open>Parameters and bounds.\<close>  Code outside of the repository is a parameter: the HTTP transport, the
  gRPC server, the meter, the Prometheus registry, the dialer, the resolver, the database driver, the
  listener and the clock.  No definition uses fuel: the walk over the services terminates by a measure on
  multisets of remaining depths, and the only loop that may not end, the buffered reading of a line, is a
  partial function whose termination is proved for connections whose reads end.  Flags and
  counters are 32-bit words; durations and instants are integers (int64 is enough for 292 years).

  \<^bold>\<open>Not modelled.\<close>  Results are values, so the sharing of one \<^verbatim>\<open>*CheckResult\<close> between a cached checker
  and the manager that overwrites its fields is not visible.  The methods of a reporter are atomic
  steps.  The example and end-to-end programs only wire the library together.
\<close>

end
